theory Spec2Isabelle
  imports Complex_Main "HOL-Library.Word"
begin

unbundle bit_operations_syntax

section \<open>JavaScript values\<close>

text \<open>
  A JavaScript string is a sequence of 16-bit code units; \<open>length\<close> counts code units,
  as \<open>String.prototype.length\<close> does. A \<open>Uint8Array\<close> is a list of bytes.
  String literals of the source are written \<open>js ''...''\<close>.
\<close>

type_synonym jsstring = "16 word list"
type_synonym byte = "8 word"

definition js :: "string \<Rightarrow> jsstring" where
  "js s = map (\<lambda>c. of_nat (of_char c)) s"

text \<open>
  A JavaScript number (\<open>v.number()\<close>) is a double. Only comparisons of numbers are
  modelled, which are exact; the finite values are embedded in the reals.
\<close>

datatype jsnum = NaN | NegInf | Fin real | PosInf

fun js_le :: "jsnum \<Rightarrow> jsnum \<Rightarrow> bool" where
  "js_le NaN _ = False"
| "js_le _ NaN = False"
| "js_le NegInf _ = True"
| "js_le _ PosInf = True"
| "js_le (Fin a) (Fin b) = (a \<le> b)"
| "js_le (Fin a) NegInf = False"
| "js_le PosInf _ = False"

definition js_ge :: "jsnum \<Rightarrow> jsnum \<Rightarrow> bool" where
  "js_ge a b = js_le b a"

fun js_gt :: "jsnum \<Rightarrow> jsnum \<Rightarrow> bool" where
  "js_gt NaN _ = False"
| "js_gt _ NaN = False"
| "js_gt NegInf _ = False"
| "js_gt _ PosInf = False"
| "js_gt (Fin a) (Fin b) = (a > b)"
| "js_gt (Fin a) NegInf = True"
| "js_gt PosInf _ = True"

definition isNaN :: "jsnum \<Rightarrow> bool" where
  "isNaN x = (x = NaN)"

text \<open>\<open>Number.prototype.toString\<close> on a non-negative integer: its decimal digits.\<close>

definition digit :: "nat \<Rightarrow> 16 word" where
  "digit n = of_nat (48 + n)"

fun toString :: "nat \<Rightarrow> jsstring" where
  "toString n = (if n < 10 then [digit n] else toString (n div 10) @ [digit (n mod 10)])"

declare toString.simps [simp del]

text \<open>\<open>s.padStart(n, c)\<close> for a one-character pad string \<open>c\<close>.\<close>

definition padStart :: "nat \<Rightarrow> 16 word \<Rightarrow> jsstring \<Rightarrow> jsstring" where
  "padStart n c s = replicate (n - length s) c @ s"

section \<open>Errors\<close>

text \<open>
  \<open>throw new Error(msg)\<close> is the value \<open>Error msg\<close>; \<open>NotUnique\<close> is the error that
  the database's \<open>.unique()\<close> throws when more than one document matches;
  \<open>TypeError\<close> is the error of reading a property of \<open>undefined\<close>;
  \<open>SchemaValidation\<close> is the error of a write that leaves a document without a field
  that \<open>schema.ts\<close> requires; \<open>InvalidCharacterError\<close> is the error that \<open>atob\<close>
  throws on a string that is not base64; \<open>RangeError\<close> is the error of a call with
  more arguments than the engine accepts.
\<close>

datatype error =
  Error jsstring | NotUnique | TypeError | SchemaValidation | InvalidCharacterError | RangeError

section \<open>The database\<close>

text \<open>The tables of \<open>convex/schema.ts\<close>. A document id is a natural number.\<close>

type_synonym id = nat

record counter_row =
  c_name :: jsstring
  c_value :: nat

record rateLimit_row =
  rl_key :: jsstring
  rl_windowStart :: int
  rl_count :: nat

record category_row =
  cat_name :: jsstring
  cat_description :: jsstring
  cat_color :: jsstring

record currency_row =
  cur_code :: jsstring
  cur_name :: jsstring
  cur_symbol :: jsstring
  cur_exchangeRate :: jsnum
  cur_isActive :: bool

record subscription_row =
  sub_referenceNumber :: jsstring
  sub_name :: jsstring
  sub_description :: jsstring
  sub_provider :: jsstring
  sub_categoryId :: id
  sub_cost :: jsnum
  sub_currencyId :: id
  sub_billingCycle :: jsstring
  sub_nextRenewalDate :: jsstring
  sub_paymentMethod :: jsstring
  sub_status :: jsstring
  sub_notificationEnabled :: bool
  sub_notificationDaysBefore :: jsnum

record credential_row =
  cred_subscriptionId :: id
  cred_username :: jsstring
  cred_password :: jsstring
  cred_notes :: "jsstring option"

text \<open>
  The second submission handler computes the provider and the requester fields as
  optional values (\<open>v.optional(v.string())\<close> in its arguments), so they are options
  here; \<open>schema.ts\<close> requires them in a stored request.
\<close>

record request_row =
  req_referenceNumber :: jsstring
  req_name :: jsstring
  req_description :: jsstring
  req_provider :: "jsstring option"
  req_categoryId :: id
  req_cost :: jsnum
  req_currencyId :: id
  req_billingCycle :: jsstring
  req_requestedBy :: "jsstring option"
  req_requesterEmail :: "jsstring option"
  req_requesterDepartment :: "jsstring option"
  req_justification :: "jsstring option"
  req_status :: jsstring
  req_adminNotes :: "jsstring option"
  req_reviewedBy :: "jsstring option"
  req_reviewedAt :: "int option"

text \<open>\<open>performedAt\<close> is the instant of \<open>new Date()\<close> in milliseconds; the source stores its ISO rendering.\<close>

record auditLog_row =
  al_subscriptionId :: id
  al_subscriptionName :: jsstring
  al_action :: jsstring
  al_performedBy :: jsstring
  al_performedAt :: int

record user_row =
  u_email :: jsstring
  u_name :: jsstring
  u_passwordHash :: jsstring
  u_role :: jsstring

type_synonym 'r table = "(id \<times> 'r) list"

record db =
  categories :: "category_row table"
  currencies :: "currency_row table"
  subscriptions :: "subscription_row table"
  credentials :: "credential_row table"
  subscriptionRequests :: "request_row table"
  auditLogs :: "auditLog_row table"
  users :: "user_row table"
  counters :: "counter_row table"
  rateLimits :: "rateLimit_row table"
  next_id :: id

text \<open>\<open>ctx.db.get\<close>, \<open>patch\<close>, \<open>delete\<close>, an indexed query, and \<open>.unique()\<close>.\<close>

definition tbl_get :: "'r table \<Rightarrow> id \<Rightarrow> 'r option" where
  "tbl_get t i = map_of t i"

definition tbl_patch :: "'r table \<Rightarrow> id \<Rightarrow> ('r \<Rightarrow> 'r) \<Rightarrow> 'r table" where
  "tbl_patch t i f = map (\<lambda>(j, r). if j = i then (j, f r) else (j, r)) t"

definition tbl_delete :: "'r table \<Rightarrow> id \<Rightarrow> 'r table" where
  "tbl_delete t i = filter (\<lambda>(j, r). j \<noteq> i) t"

definition tbl_query :: "'r table \<Rightarrow> ('r \<Rightarrow> bool) \<Rightarrow> 'r table" where
  "tbl_query t p = filter (\<lambda>(j, r). p r) t"

fun unique :: "'a list \<Rightarrow> error + 'a option" where
  "unique [] = Inr None"
| "unique [x] = Inr (Some x)"
| "unique _ = Inl NotUnique"

section \<open>Reference numbers (\<open>generateReferenceNumber\<close>)\<close>

datatype ref_type = subscription | request

fun type_string :: "ref_type \<Rightarrow> jsstring" where
  "type_string subscription = js ''subscription''"
| "type_string request = js ''request''"

definition counterName :: "ref_type \<Rightarrow> nat \<Rightarrow> jsstring" where
  "counterName ty year = type_string ty @ js ''-'' @ toString year"

definition ref_prefix :: "ref_type \<Rightarrow> jsstring" where
  "ref_prefix ty = (if ty = subscription then js ''SUB'' else js ''REQ'')"

definition format_reference :: "ref_type \<Rightarrow> nat \<Rightarrow> nat \<Rightarrow> jsstring" where
  "format_reference ty year nextValue =
     ref_prefix ty @ js ''-'' @ toString year @ js ''-'' @ padStart 3 (digit 0) (toString nextValue)"

text \<open>
  \<open>year\<close> is \<open>new Date().getFullYear()\<close>. The handler's effect is the database as written
  so far together with the thrown error or the returned value.
\<close>

definition generateReferenceNumber :: "nat \<Rightarrow> ref_type \<Rightarrow> db \<Rightarrow> db \<times> (error + jsstring)" where
  "generateReferenceNumber year ty d =
     (case unique (tbl_query (counters d) (\<lambda>r. c_name r = counterName ty year)) of
        Inl e \<Rightarrow> (d, Inl e)
      | Inr (Some (cid, counter)) \<Rightarrow>
          (let nextValue = c_value counter + 1
           in (d\<lparr>counters := tbl_patch (counters d) cid (\<lambda>r. r\<lparr>c_value := nextValue\<rparr>)\<rparr>,
               Inr (format_reference ty year nextValue)))
      | Inr None \<Rightarrow>
          (d\<lparr>counters := counters d @ [(next_id d, \<lparr>c_name = counterName ty year, c_value = 1\<rparr>)],
             next_id := next_id d + 1\<rparr>,
           Inr (format_reference ty year 1)))"

text \<open>\<open>n\<close> successive allocations; the run stops at the first one that throws.\<close>

fun allocate_n :: "nat \<Rightarrow> ref_type \<Rightarrow> nat \<Rightarrow> db \<Rightarrow> db \<times> (error + jsstring list)" where
  "allocate_n year ty 0 d = (d, Inr [])"
| "allocate_n year ty (Suc n) d =
     (case generateReferenceNumber year ty d of
        (d', Inl e) \<Rightarrow> (d', Inl e)
      | (d', Inr r) \<Rightarrow>
          (case allocate_n year ty n d' of
             (d'', Inl e) \<Rightarrow> (d'', Inl e)
           | (d'', Inr rs) \<Rightarrow> (d'', Inr (r # rs))))"

definition empty_db :: db where
  "empty_db = \<lparr>categories = [], currencies = [], subscriptions = [], credentials = [],
     subscriptionRequests = [], auditLogs = [], users = [], counters = [], rateLimits = [],
     next_id = 0\<rparr>"

section \<open>Input validation helpers\<close>

text \<open>\<open>str.replace(/c/g, rep)\<close> for a one-character pattern.\<close>

definition replaceAll :: "16 word \<Rightarrow> jsstring \<Rightarrow> jsstring \<Rightarrow> jsstring" where
  "replaceAll c rep s = concat (map (\<lambda>x. if x = c then rep else [x]) s)"

text \<open>The white space and line terminators that \<open>String.prototype.trim\<close> removes.\<close>

definition is_space :: "16 word \<Rightarrow> bool" where
  "is_space c = (c \<in> {0x09, 0x0A, 0x0B, 0x0C, 0x0D, 0x20, 0xA0, 0x1680, 0x2028, 0x2029,
                         0x202F, 0x205F, 0x3000, 0xFEFF} \<or> (0x2000 \<le> c \<and> c \<le> 0x200A))"

definition trim :: "jsstring \<Rightarrow> jsstring" where
  "trim s = rev (dropWhile is_space (rev (dropWhile is_space s)))"

definition sanitizeString :: "jsstring \<Rightarrow> jsstring" where
  "sanitizeString str =
     (if str = [] then []
      else trim (replaceAll 0x27 (js ''&#x27;'')
                  (replaceAll 0x22 (js ''&quot;'')
                    (replaceAll 0x3E (js ''&gt;'')
                      (replaceAll 0x3C (js ''&lt;'') str)))))"

text \<open>A \<open>void\<close> validator returns the error it throws, or \<open>None\<close>.\<close>

definition validateStringLength :: "jsstring \<Rightarrow> jsstring \<Rightarrow> nat \<Rightarrow> nat \<Rightarrow> error option" where
  "validateStringLength v fieldName mn mx =
     (if v = [] \<or> length v < mn \<or> length v > mx
      then Some (Error (fieldName @ js '' must be between '' @ toString mn @ js '' and ''
                         @ toString mx @ js '' characters''))
      else None)"

definition validatePositiveNumber :: "jsnum \<Rightarrow> bool" where
  "validatePositiveNumber v = (\<not> isNaN v \<and> js_ge v (Fin 0))"

definition validateCost :: "jsnum \<Rightarrow> error option" where
  "validateCost cost =
     (if \<not> validatePositiveNumber cost then Some (Error (js ''Cost must be a non-negative number''))
      else if js_gt cost (Fin 100000000) then Some (Error (js ''Cost exceeds maximum allowed value''))
      else None)"

definition validateNotificationDays :: "jsnum \<Rightarrow> error option" where
  "validateNotificationDays days =
     (if \<not> validatePositiveNumber days \<or> js_gt days (Fin 365)
      then Some (Error (js ''Notification days must be between 0 and '' @ toString 365))
      else None)"

text \<open>
  \<open>validateAndSanitizeCommonFields\<close>: \<open>provider\<close> is optional in the input and in the
  result; \<open>dmin\<close> and \<open>dmax\<close> are the options \<open>descriptionMin\<close> and \<open>descriptionMax\<close>.
\<close>

definition validateAndSanitizeCommonFields ::
  "jsstring \<Rightarrow> jsstring \<Rightarrow> jsstring option \<Rightarrow> nat \<Rightarrow> nat
     \<Rightarrow> error + (jsstring \<times> jsstring \<times> jsstring option)" where
  "validateAndSanitizeCommonFields iname idescription iprovider dmin dmax =
     (let name = sanitizeString iname;
          description = sanitizeString idescription;
          provider = (case iprovider of None \<Rightarrow> None
                      | Some p \<Rightarrow> if p = [] then None else Some (sanitizeString p))
      in case validateStringLength name (js ''Subscription name'') 1 200 of
           Some e \<Rightarrow> Inl e
         | None \<Rightarrow>
            (case (if dmin > 0 then validateStringLength description (js ''Description'') dmin dmax
                   else if length description > dmax
                   then Some (Error (js ''Description must not exceed '' @ toString dmax @ js '' characters''))
                   else None) of
               Some e \<Rightarrow> Inl e
             | None \<Rightarrow>
                (case (case provider of
                         None \<Rightarrow> None
                       | Some p \<Rightarrow> if p = [] then None
                                   else validateStringLength p (js ''Provider'') 1 200) of
                   Some e \<Rightarrow> Inl e
                 | None \<Rightarrow> Inr (name, description, provider))))"

subsection \<open>The e-mail pattern\<close>

text \<open>
  Regular expressions over code units, matched by derivatives. A class is a list of
  inclusive ranges. The pattern of \<open>validateEmail\<close> is anchored at both ends, so
  \<open>test\<close> is a match of the whole string.
\<close>

datatype rx = Zero | One | Cls "(nat \<times> nat) list" | Seq rx rx | Alt rx rx | Star rx

definition in_cls :: "16 word \<Rightarrow> (nat \<times> nat) list \<Rightarrow> bool" where
  "in_cls c rs = list_ex (\<lambda>(lo, hi). lo \<le> unat c \<and> unat c \<le> hi) rs"

fun nullable :: "rx \<Rightarrow> bool" where
  "nullable Zero = False"
| "nullable One = True"
| "nullable (Cls rs) = False"
| "nullable (Seq r s) = (nullable r \<and> nullable s)"
| "nullable (Alt r s) = (nullable r \<or> nullable s)"
| "nullable (Star r) = True"

fun deriv :: "16 word \<Rightarrow> rx \<Rightarrow> rx" where
  "deriv c Zero = Zero"
| "deriv c One = Zero"
| "deriv c (Cls rs) = (if in_cls c rs then One else Zero)"
| "deriv c (Seq r s) =
     (if nullable r then Alt (Seq (deriv c r) s) (deriv c s) else Seq (deriv c r) s)"
| "deriv c (Alt r s) = Alt (deriv c r) (deriv c s)"
| "deriv c (Star r) = Seq (deriv c r) (Star r)"

definition rx_test :: "rx \<Rightarrow> jsstring \<Rightarrow> bool" where
  "rx_test r s = nullable (foldl (\<lambda>q c. deriv c q) r s)"

definition Opt :: "rx \<Rightarrow> rx" where
  "Opt r = Alt r One"

definition alnum :: rx where
  "alnum = Cls [(97, 122), (65, 90), (48, 57)]"

definition alpha :: rx where
  "alpha = Cls [(97, 122), (65, 90)]"

definition local_char :: rx where
  "local_char = Cls [(97, 122), (65, 90), (48, 57), (46, 46), (95, 95), (43, 43), (45, 45)]"

definition domain_char :: rx where
  "domain_char = Cls [(97, 122), (65, 90), (48, 57), (45, 45)]"

definition label :: rx where
  "label = Seq alnum (Opt (Seq (Star domain_char) alnum))"

definition emailRegex :: rx where
  "emailRegex =
     Seq alnum (Seq (Opt (Seq (Star local_char) alnum))
       (Seq (Cls [(64, 64)])
         (Seq label
           (Seq (Star (Seq (Cls [(46, 46)]) label))
             (Seq (Cls [(46, 46)]) (Seq alpha (Seq alpha (Star alpha))))))))"

fun has_consecutive_dots :: "jsstring \<Rightarrow> bool" where
  "has_consecutive_dots (a # b # s) = ((a = 0x2E \<and> b = 0x2E) \<or> has_consecutive_dots (b # s))"
| "has_consecutive_dots _ = False"

definition validateEmail :: "jsstring \<Rightarrow> bool" where
  "validateEmail email =
     (if email = [] \<or> length email > 254 then False
      else if has_consecutive_dots email then False
      else rx_test emailRegex email)"

section \<open>The platform\<close>

text \<open>
  Functions of the JavaScript runtime that the handlers call and whose full behaviour
  is outside the repository are parameters: \<open>String.prototype.toLowerCase\<close>, whether
  \<open>new Date(s)\<close> parses \<open>s\<close> to a valid date, the environment variable
  \<open>ENCRYPTION_KEY\<close>, and the largest number of arguments that the engine accepts in
  one call (a spread \<open>f(...xs)\<close> of a longer array throws a \<open>RangeError\<close>).
\<close>

record platform =
  toLowerCase :: "jsstring \<Rightarrow> jsstring"
  dateParses :: "jsstring \<Rightarrow> bool"
  ENCRYPTION_KEY :: "jsstring option"
  maxArguments :: int

text \<open>
  A reading of the clock: \<open>Date.now()\<close> in milliseconds and the calendar fields of
  \<open>new Date()\<close> (the month counts from 0, as \<open>getMonth\<close> does). The runtime's time
  zone is UTC, and the clock is read once per mutation.
\<close>

record clock =
  t_ms :: int
  t_year :: nat
  t_month :: nat
  t_day :: nat

definition validateDateString :: "platform \<Rightarrow> jsstring \<Rightarrow> bool" where
  "validateDateString P dateString = (if dateString = [] then False else dateParses P dateString)"

section \<open>Public submission of a request (\<open>subscriptionRequests.submit\<close>)\<close>

definition RATE_LIMIT_PER_EMAIL :: nat where
  "RATE_LIMIT_PER_EMAIL = 5"

definition RATE_LIMIT_GLOBAL :: nat where
  "RATE_LIMIT_GLOBAL = 100"

definition RATE_LIMIT_WINDOW_MS :: int where
  "RATE_LIMIT_WINDOW_MS = 60 * 60 * 1000"

record submit_args =
  sa_name :: jsstring
  sa_description :: jsstring
  sa_provider :: jsstring
  sa_categoryId :: id
  sa_cost :: jsnum
  sa_currencyId :: id
  sa_billingCycle :: jsstring
  sa_requestedBy :: jsstring
  sa_requesterEmail :: jsstring
  sa_requesterDepartment :: jsstring
  sa_justification :: jsstring

text \<open>The local constants of the handler after its validation (lines 106 to 143).\<close>

record submit_fields =
  sf_name :: jsstring
  sf_description :: jsstring
  sf_provider :: "jsstring option"
  sf_requestedBy :: "jsstring option"
  sf_requesterEmail :: "jsstring option"
  sf_requesterDepartment :: "jsstring option"
  sf_justification :: "jsstring option"

definition submit_validate :: "platform \<Rightarrow> submit_args \<Rightarrow> error + submit_fields" where
  "submit_validate P a =
     (case validateAndSanitizeCommonFields (sa_name a) (sa_description a) (Some (sa_provider a)) 10 1000 of
        Inl e \<Rightarrow> Inl e
      | Inr (name, description, provider) \<Rightarrow>
         (let requestedBy = sanitizeString (sa_requestedBy a);
              requesterEmail = trim (toLowerCase P (sa_requesterEmail a));
              requesterDepartment = sanitizeString (sa_requesterDepartment a);
              justification = sanitizeString (sa_justification a)
          in if js_le (sa_cost a) (Fin 0) then Inl (Error (js ''Cost must be a positive number''))
             else case validateCost (sa_cost a) of Some e \<Rightarrow> Inl e | None \<Rightarrow>
              (case validateStringLength requestedBy (js ''Name'') 2 100 of Some e \<Rightarrow> Inl e | None \<Rightarrow>
               if \<not> validateEmail requesterEmail then Inl (Error (js ''Invalid email address format''))
               else if length requesterEmail > 254 then Inl (Error (js ''Email address is too long''))
               else case validateStringLength requesterDepartment (js ''Department'') 2 100 of
                      Some e \<Rightarrow> Inl e | None \<Rightarrow>
                (case validateStringLength justification (js ''Justification'') 20 2000 of
                   Some e \<Rightarrow> Inl e | None \<Rightarrow>
                 (case provider of
                    None \<Rightarrow> Inl TypeError
                  | Some p \<Rightarrow>
                     if length name + length description + length p + length requestedBy
                          + length requesterEmail + length requesterDepartment + length justification
                        > 5000
                     then Inl (Error (js ''Request data exceeds maximum allowed size''))
                     else Inr \<lparr>sf_name = name, sf_description = description, sf_provider = provider,
                               sf_requestedBy = Some requestedBy, sf_requesterEmail = Some requesterEmail,
                               sf_requesterDepartment = Some requesterDepartment,
                               sf_justification = Some justification\<rparr>)))))"

text \<open>
  What the four parallel reads return (lines 150 to 155), and the checks on them
  (lines 157 to 168). \<open>emailKey\<close> is \<open>None\<close> when no e-mail address was given, which
  only the second handler allows.
\<close>

record submit_reads =
  sr_globalLimit :: "(id \<times> rateLimit_row) option"
  sr_emailLimit :: "(id \<times> rateLimit_row) option"
  sr_currency :: currency_row

definition in_window :: "int \<Rightarrow> (id \<times> rateLimit_row) option \<Rightarrow> bool" where
  "in_window windowStart lrow = (case lrow of None \<Rightarrow> False | Some (i, r) \<Rightarrow> rl_windowStart r > windowStart)"

definition limit_reached :: "int \<Rightarrow> (id \<times> rateLimit_row) option \<Rightarrow> nat \<Rightarrow> bool" where
  "limit_reached windowStart lrow n =
     (case lrow of None \<Rightarrow> False | Some (i, r) \<Rightarrow> rl_windowStart r > windowStart \<and> rl_count r \<ge> n)"

definition submit_check ::
  "int \<Rightarrow> jsstring option \<Rightarrow> id \<Rightarrow> id \<Rightarrow> db \<Rightarrow> error + submit_reads" where
  "submit_check now emailKey categoryId currencyId d =
     (let windowStart = now - RATE_LIMIT_WINDOW_MS
      in case unique (tbl_query (rateLimits d) (\<lambda>r. rl_key r = js ''global'')) of
           Inl e \<Rightarrow> Inl e
         | Inr globalLimit \<Rightarrow>
            (case (case emailKey of None \<Rightarrow> Inr None
                   | Some k \<Rightarrow> unique (tbl_query (rateLimits d) (\<lambda>r. rl_key r = k))) of
               Inl e \<Rightarrow> Inl e
             | Inr emailLimit \<Rightarrow>
                (let category = tbl_get (categories d) categoryId;
                     currency = tbl_get (currencies d) currencyId
                 in if limit_reached windowStart globalLimit RATE_LIMIT_GLOBAL
                    then Inl (Error (js ''Service is temporarily busy. Please try again later.''))
                    else if limit_reached windowStart emailLimit RATE_LIMIT_PER_EMAIL
                    then Inl (Error (js ''Too many requests from this email. Please try again later.''))
                    else case category of
                      None \<Rightarrow> Inl (Error (js ''Invalid category''))
                    | Some cat \<Rightarrow>
                       (case currency of
                          None \<Rightarrow> Inl (Error (js ''Invalid currency''))
                        | Some cur \<Rightarrow>
                           if \<not> cur_isActive cur then Inl (Error (js ''Selected currency is not active''))
                           else Inr \<lparr>sr_globalLimit = globalLimit, sr_emailLimit = emailLimit,
                                     sr_currency = cur\<rparr>))))"

text \<open>
  The update of one rate-limit counter; the handler has this block twice, for the key
  \<open>global\<close> (lines 174 to 182) and for the e-mail key (lines 185 to 193).
\<close>

definition updateRateLimit :: "int \<Rightarrow> jsstring \<Rightarrow> (id \<times> rateLimit_row) option \<Rightarrow> db \<Rightarrow> db" where
  "updateRateLimit now key lrow d =
     (if in_window (now - RATE_LIMIT_WINDOW_MS) lrow
      then (case lrow of
              Some (i, r) \<Rightarrow> d\<lparr>rateLimits := tbl_patch (rateLimits d) i (\<lambda>x. x\<lparr>rl_count := rl_count r + 1\<rparr>)\<rparr>
            | None \<Rightarrow> d)
      else (case lrow of
              Some (i, r) \<Rightarrow>
                d\<lparr>rateLimits := tbl_patch (rateLimits d) i (\<lambda>x. x\<lparr>rl_windowStart := now, rl_count := 1\<rparr>)\<rparr>
            | None \<Rightarrow>
                d\<lparr>rateLimits := rateLimits d @ [(next_id d, \<lparr>rl_key = key, rl_windowStart = now, rl_count = 1\<rparr>)],
                  next_id := next_id d + 1\<rparr>))"

text \<open>
  \<open>schema.ts\<close> declares \<open>provider\<close>, \<open>requestedBy\<close>, \<open>requesterEmail\<close>,
  \<open>requesterDepartment\<close> and \<open>justification\<close> of a request as \<open>v.string()\<close>: the
  insert of a request in which one of them is \<open>undefined\<close> throws.
\<close>

definition schema_accepts :: "submit_fields \<Rightarrow> bool" where
  "schema_accepts f =
     (sf_provider f \<noteq> None \<and> sf_requestedBy f \<noteq> None \<and> sf_requesterEmail f \<noteq> None
      \<and> sf_requesterDepartment f \<noteq> None \<and> sf_justification f \<noteq> None)"

text \<open>
  The writes of the handler (lines 170 to 209): the reference number, the two counters
  and the new request. Scheduling the notification to the admin is wrapped in
  \<open>try\<close>/\<open>catch\<close> and touches none of the tables.
\<close>

definition submit_write ::
  "clock \<Rightarrow> submit_fields \<Rightarrow> submit_reads \<Rightarrow> jsstring option \<Rightarrow> id \<Rightarrow> jsnum \<Rightarrow> id \<Rightarrow> jsstring
     \<Rightarrow> db \<Rightarrow> db \<times> (error + id \<times> jsstring)" where
  "submit_write t f r emailKey categoryId cost currencyId billingCycle d =
     (case generateReferenceNumber (t_year t) request d of
        (d1, Inl e) \<Rightarrow> (d1, Inl e)
      | (d1, Inr referenceNumber) \<Rightarrow>
         (let d2 = updateRateLimit (t_ms t) (js ''global'') (sr_globalLimit r) d1;
              d3 = (case emailKey of None \<Rightarrow> d2
                    | Some k \<Rightarrow> updateRateLimit (t_ms t) k (sr_emailLimit r) d2);
              rid = next_id d3;
              d4 = d3\<lparr>subscriptionRequests := subscriptionRequests d3 @
                      [(rid, \<lparr>req_referenceNumber = referenceNumber,
                               req_name = sf_name f,
                               req_description = sf_description f,
                               req_provider = sf_provider f,
                               req_categoryId = categoryId,
                               req_cost = cost,
                               req_currencyId = currencyId,
                               req_billingCycle = billingCycle,
                               req_requestedBy = sf_requestedBy f,
                               req_requesterEmail = sf_requesterEmail f,
                               req_requesterDepartment = sf_requesterDepartment f,
                               req_justification = sf_justification f,
                               req_status = js ''pending'',
                               req_adminNotes = None,
                               req_reviewedBy = None,
                               req_reviewedAt = None\<rparr>)],
                    next_id := rid + 1\<rparr>
          in if \<not> schema_accepts f then (d3, Inl SchemaValidation)
             else (d4, Inr (rid, referenceNumber))))"

definition submit :: "platform \<Rightarrow> clock \<Rightarrow> submit_args \<Rightarrow> db \<Rightarrow> db \<times> (error + id \<times> jsstring)" where
  "submit P t a d =
     (case submit_validate P a of
        Inl e \<Rightarrow> (d, Inl e)
      | Inr f \<Rightarrow>
         (let emailKey = map_option (\<lambda>e. js ''email:'' @ e) (sf_requesterEmail f)
          in case submit_check (t_ms t) emailKey (sa_categoryId a) (sa_currencyId a) d of
               Inl e \<Rightarrow> (d, Inl e)
             | Inr r \<Rightarrow>
                 submit_write t f r emailKey (sa_categoryId a) (sa_cost a) (sa_currencyId a)
                   (sa_billingCycle a) d))"

subsection \<open>The second handler, with optional requester fields\<close>

record submit_opt_args =
  so_name :: jsstring
  so_description :: jsstring
  so_provider :: "jsstring option"
  so_categoryId :: id
  so_cost :: jsnum
  so_currencyId :: id
  so_billingCycle :: jsstring
  so_requestedBy :: "jsstring option"
  so_requesterEmail :: "jsstring option"
  so_requesterDepartment :: "jsstring option"
  so_justification :: "jsstring option"

text \<open>An optional string is truthy when it is present and not empty.\<close>

definition truthy :: "jsstring option \<Rightarrow> bool" where
  "truthy x = (case x of None \<Rightarrow> False | Some s \<Rightarrow> s \<noteq> [])"

definition opt_length :: "jsstring option \<Rightarrow> nat" where
  "opt_length x = (case x of None \<Rightarrow> 0 | Some s \<Rightarrow> length s)"

definition when_truthy :: "jsstring option \<Rightarrow> (jsstring \<Rightarrow> jsstring) \<Rightarrow> jsstring option" where
  "when_truthy x g = (if truthy x then map_option g x else None)"

definition submit_optional_validate :: "platform \<Rightarrow> submit_opt_args \<Rightarrow> error + submit_fields" where
  "submit_optional_validate P a =
     (case validateAndSanitizeCommonFields (so_name a) (so_description a) (so_provider a) 10 1000 of
        Inl e \<Rightarrow> Inl e
      | Inr (name, description, provider) \<Rightarrow>
         (let requestedBy = when_truthy (so_requestedBy a) sanitizeString;
              requesterEmail = when_truthy (so_requesterEmail a) (\<lambda>e. trim (toLowerCase P e));
              requesterDepartment = when_truthy (so_requesterDepartment a) sanitizeString;
              justification = when_truthy (so_justification a) sanitizeString
          in if js_le (so_cost a) (Fin 0) then Inl (Error (js ''Cost must be a positive number''))
             else case validateCost (so_cost a) of Some e \<Rightarrow> Inl e | None \<Rightarrow>
              (case (if truthy requestedBy
                     then validateStringLength (the requestedBy) (js ''Name'') 2 100 else None) of
                 Some e \<Rightarrow> Inl e | None \<Rightarrow>
               if truthy requesterEmail \<and> \<not> validateEmail (the requesterEmail)
               then Inl (Error (js ''Invalid email address format''))
               else if truthy requesterEmail \<and> length (the requesterEmail) > 254
               then Inl (Error (js ''Email address is too long''))
               else case (if truthy requesterDepartment
                          then validateStringLength (the requesterDepartment) (js ''Department'') 2 100
                          else None) of
                      Some e \<Rightarrow> Inl e | None \<Rightarrow>
                (case (if truthy justification
                       then validateStringLength (the justification) (js ''Justification'') 10 2000
                       else None) of
                   Some e \<Rightarrow> Inl e | None \<Rightarrow>
                 if length name + length description + opt_length provider + opt_length requestedBy
                      + opt_length requesterEmail + opt_length requesterDepartment
                      + opt_length justification > 5000
                 then Inl (Error (js ''Request data exceeds maximum allowed size''))
                 else Inr \<lparr>sf_name = name, sf_description = description, sf_provider = provider,
                           sf_requestedBy = requestedBy, sf_requesterEmail = requesterEmail,
                           sf_requesterDepartment = requesterDepartment,
                           sf_justification = justification\<rparr>))))"

definition submit_optional ::
  "platform \<Rightarrow> clock \<Rightarrow> submit_opt_args \<Rightarrow> db \<Rightarrow> db \<times> (error + id \<times> jsstring)" where
  "submit_optional P t a d =
     (case submit_optional_validate P a of
        Inl e \<Rightarrow> (d, Inl e)
      | Inr f \<Rightarrow>
         (let emailKey = (if truthy (sf_requesterEmail f)
                          then map_option (\<lambda>e. js ''email:'' @ e) (sf_requesterEmail f) else None)
          in case submit_check (t_ms t) emailKey (so_categoryId a) (so_currencyId a) d of
               Inl e \<Rightarrow> (d, Inl e)
             | Inr r \<Rightarrow>
                 submit_write t f r emailKey (so_categoryId a) (so_cost a) (so_currencyId a)
                   (so_billingCycle a) d))"

text \<open>
  A mutation is a transaction: when the handler throws, the database keeps the state it
  had before the call.
\<close>

definition run_mutation :: "(db \<Rightarrow> db \<times> (error + 'a)) \<Rightarrow> db \<Rightarrow> db \<times> (error + 'a)" where
  "run_mutation h d = (case h d of (d', Inl e) \<Rightarrow> (d, Inl e) | (d', Inr x) \<Rightarrow> (d', Inr x))"

section \<open>The credential cipher (\<open>lib/encryption.ts\<close>)\<close>

subsection \<open>\<open>TextEncoder\<close> and \<open>TextDecoder\<close>\<close>

text \<open>
  \<open>new TextEncoder().encode(s)\<close> reads \<open>s\<close> as a sequence of code points, a high
  surrogate followed by a low one being one code point and any other surrogate being
  replaced by U+FFFD, and writes each code point in UTF-8.
\<close>

definition is_high :: "16 word \<Rightarrow> bool" where
  "is_high c = (0xD800 \<le> unat c \<and> unat c \<le> 0xDBFF)"

definition is_low :: "16 word \<Rightarrow> bool" where
  "is_low c = (0xDC00 \<le> unat c \<and> unat c \<le> 0xDFFF)"

definition scalar :: "16 word \<Rightarrow> nat" where
  "scalar c = (if is_high c \<or> is_low c then 0xFFFD else unat c)"

fun code_points :: "jsstring \<Rightarrow> nat list" where
  "code_points [] = []"
| "code_points [c] = [scalar c]"
| "code_points (c # c' # s) =
     (if is_high c \<and> is_low c'
      then (0x10000 + (unat c - 0xD800) * 0x400 + (unat c' - 0xDC00)) # code_points s
      else scalar c # code_points (c' # s))"

definition utf8_bytes :: "nat \<Rightarrow> nat list" where
  "utf8_bytes cp =
     (if cp < 0x80 then [cp]
      else if cp < 0x800 then [0xC0 + cp div 64, 0x80 + cp mod 64]
      else if cp < 0x10000 then [0xE0 + cp div 4096, 0x80 + (cp div 64) mod 64, 0x80 + cp mod 64]
      else [0xF0 + cp div 262144, 0x80 + (cp div 4096) mod 64, 0x80 + (cp div 64) mod 64,
            0x80 + cp mod 64])"

definition TextEncoder_encode :: "jsstring \<Rightarrow> byte list" where
  "TextEncoder_encode s = map of_nat (concat (map utf8_bytes (code_points s)))"

text \<open>
  \<open>new TextDecoder().decode(bytes)\<close>: the UTF-8 decoder of the Encoding standard, which
  replaces every ill-formed sequence by U+FFFD. \<open>need\<close> is the number of continuation
  bytes still expected, \<open>cp\<close> the code point read so far, and \<open>lo\<close> and \<open>hi\<close> bound
  the next byte. A byte that cannot continue a sequence ends it with U+FFFD and is then
  read as the first byte of the next one. With the default options a byte order mark at
  the start is dropped.
\<close>

fun utf8_decode :: "nat \<Rightarrow> nat \<Rightarrow> nat \<Rightarrow> nat \<Rightarrow> nat list \<Rightarrow> nat list" where
  "utf8_decode need cp lo hi [] = (if need = 0 then [] else [0xFFFD])"
| "utf8_decode need cp lo hi (b # bs) =
     (if need \<noteq> 0 \<and> lo \<le> b \<and> b \<le> hi
      then (if need = 1 then (cp * 64 + b mod 64) # utf8_decode 0 0 0x80 0xBF bs
            else utf8_decode (need - 1) (cp * 64 + b mod 64) 0x80 0xBF bs)
      else (if need \<noteq> 0 then [0xFFFD] else []) @
        (if b \<le> 0x7F then b # utf8_decode 0 0 0x80 0xBF bs
         else if 0xC2 \<le> b \<and> b \<le> 0xDF then utf8_decode 1 (b mod 32) 0x80 0xBF bs
         else if 0xE0 \<le> b \<and> b \<le> 0xEF
              then utf8_decode 2 (b mod 16) (if b = 0xE0 then 0xA0 else 0x80)
                     (if b = 0xED then 0x9F else 0xBF) bs
         else if 0xF0 \<le> b \<and> b \<le> 0xF4
              then utf8_decode 3 (b mod 8) (if b = 0xF0 then 0x90 else 0x80)
                     (if b = 0xF4 then 0x8F else 0xBF) bs
         else 0xFFFD # utf8_decode 0 0 0x80 0xBF bs))"

definition code_units :: "nat \<Rightarrow> jsstring" where
  "code_units cp =
     (if cp < 0x10000 then [of_nat cp]
      else [of_nat (0xD800 + (cp - 0x10000) div 0x400), of_nat (0xDC00 + (cp - 0x10000) mod 0x400)])"

definition TextDecoder_decode :: "byte list \<Rightarrow> jsstring" where
  "TextDecoder_decode bytes =
     (let bs = map unat bytes;
          bs' = (if take 3 bs = [0xEF, 0xBB, 0xBF] then drop 3 bs else bs)
      in concat (map code_units (utf8_decode 0 0 0x80 0xBF bs')))"

subsection \<open>Well-formed strings\<close>

text \<open>
  A code point is a scalar value when it is no surrogate and at most U+10FFFF; a string
  is well formed when every surrogate in it is part of a pair.
\<close>

definition is_scalar :: "nat \<Rightarrow> bool" where
  "is_scalar cp = ((cp < 0xD800 \<or> 0xE000 \<le> cp) \<and> cp \<le> 0x10FFFF)"

fun well_formed :: "jsstring \<Rightarrow> bool" where
  "well_formed [] = True"
| "well_formed [c] = (\<not> is_high c \<and> \<not> is_low c)"
| "well_formed (c # c' # s) =
     (if is_high c \<and> is_low c' then well_formed s
      else \<not> is_high c \<and> \<not> is_low c \<and> well_formed (c' # s))"

subsection \<open>\<open>btoa\<close> and \<open>atob\<close>\<close>

definition b64_char :: "nat \<Rightarrow> 16 word" where
  "b64_char n =
     (if n < 26 then of_nat (65 + n) else if n < 52 then of_nat (97 + (n - 26))
      else if n < 62 then of_nat (48 + (n - 52)) else if n = 62 then 0x2B else 0x2F)"

text \<open>\<open>btoa(s)\<close> for the string \<open>s\<close> whose code units are the given bytes.\<close>

fun btoa :: "byte list \<Rightarrow> jsstring" where
  "btoa [] = []"
| "btoa [a] = [b64_char (unat a div 4), b64_char ((unat a mod 4) * 16), 0x3D, 0x3D]"
| "btoa [a, b] =
     [b64_char (unat a div 4), b64_char ((unat a mod 4) * 16 + unat b div 16),
      b64_char ((unat b mod 16) * 4), 0x3D]"
| "btoa (a # b # c # bs) =
     [b64_char (unat a div 4), b64_char ((unat a mod 4) * 16 + unat b div 16),
      b64_char ((unat b mod 16) * 4 + unat c div 64), b64_char (unat c mod 64)] @ btoa bs"

text \<open>
  \<open>Uint8Array.from(atob(s), c => c.charCodeAt(0))\<close>: the forgiving base64 decoding of
  the Infra standard. It removes ASCII white space, removes one or two padding
  characters when the length is a multiple of four, and fails on a length that leaves
  one character over or on a character outside the alphabet.
\<close>

definition b64_value :: "16 word \<Rightarrow> nat option" where
  "b64_value c =
     (let n = unat c
      in if 65 \<le> n \<and> n \<le> 90 then Some (n - 65)
         else if 97 \<le> n \<and> n \<le> 122 then Some (n - 97 + 26)
         else if 48 \<le> n \<and> n \<le> 57 then Some (n - 48 + 52)
         else if n = 0x2B then Some 62
         else if n = 0x2F then Some 63
         else None)"

fun b64_decode :: "nat list \<Rightarrow> nat list" where
  "b64_decode (a # b # c # d # vs) =
     [a * 4 + b div 16, (b mod 16) * 16 + c div 4, (c mod 4) * 64 + d] @ b64_decode vs"
| "b64_decode [a, b, c] = [a * 4 + b div 16, (b mod 16) * 16 + c div 4]"
| "b64_decode [a, b] = [a * 4 + b div 16]"
| "b64_decode _ = []"

definition ascii_whitespace :: "16 word \<Rightarrow> bool" where
  "ascii_whitespace c = (c = 0x09 \<or> c = 0x0A \<or> c = 0x0C \<or> c = 0x0D \<or> c = 0x20)"

definition strip_padding :: "jsstring \<Rightarrow> jsstring" where
  "strip_padding s =
     (if length s mod 4 = 0 \<and> s \<noteq> [] \<and> last s = 0x3D
      then (if butlast s \<noteq> [] \<and> last (butlast s) = 0x3D then butlast (butlast s) else butlast s)
      else s)"

definition atob :: "jsstring \<Rightarrow> error + byte list" where
  "atob s =
     (let data = strip_padding (filter (\<lambda>c. \<not> ascii_whitespace c) s)
      in if length data mod 4 = 1 then Inl InvalidCharacterError
         else if list_ex (\<lambda>c. b64_value c = None) data then Inl InvalidCharacterError
         else Inr (map of_nat (b64_decode (map (\<lambda>c. the (b64_value c)) data))))"

text \<open>The six-bit groups of a byte sequence, that is \<open>btoa\<close> without alphabet and padding.\<close>

fun sextets :: "byte list \<Rightarrow> nat list" where
  "sextets [] = []"
| "sextets [a] = [unat a div 4, (unat a mod 4) * 16]"
| "sextets [a, b] = [unat a div 4, (unat a mod 4) * 16 + unat b div 16, (unat b mod 16) * 4]"
| "sextets (a # b # c # bs) =
     [unat a div 4, (unat a mod 4) * 16 + unat b div 16, (unat b mod 16) * 4 + unat c div 64,
      unat c mod 64] @ sextets bs"

fun padding :: "byte list \<Rightarrow> jsstring" where
  "padding [] = []"
| "padding [a] = [0x3D, 0x3D]"
| "padding [a, b] = [0x3D]"
| "padding (a # b # c # bs) = padding bs"

subsection \<open>\<open>encrypt\<close> and \<open>decrypt\<close>\<close>

text \<open>
  \<open>iv\<close> is the content of the 16-byte array after \<open>crypto.getRandomValues(iv)\<close>.
  \<open>String.fromCharCode(...combined)\<close> passes every byte of \<open>combined\<close> as an argument of
  one call, which throws when there are more of them than the engine accepts.
\<close>

definition xor_mask :: "byte list \<Rightarrow> byte list \<Rightarrow> byte list \<Rightarrow> byte list" where
  "xor_mask bytes keyBytes iv =
     map (\<lambda>i. bytes ! i XOR keyBytes ! (i mod length keyBytes) XOR iv ! (i mod length iv))
       [0 ..< length bytes]"

definition fromCharCode :: "platform \<Rightarrow> byte list \<Rightarrow> error + byte list" where
  "fromCharCode P bytes = (if int (length bytes) > maxArguments P then Inl RangeError else Inr bytes)"

definition encrypt :: "platform \<Rightarrow> jsstring \<Rightarrow> jsstring \<Rightarrow> byte list \<Rightarrow> error + jsstring" where
  "encrypt P plaintext key iv =
     (if key = [] \<or> length key < 32
      then Inl (Error (js ''Encryption key must be at least 32 characters''))
      else (let textBytes = TextEncoder_encode plaintext;
                keyBytes = TextEncoder_encode (take 32 key);
                encrypted = xor_mask textBytes keyBytes iv;
                combined = iv @ encrypted
            in case fromCharCode P combined of
                 Inl e \<Rightarrow> Inl e
               | Inr binaryString \<Rightarrow> Inr (btoa binaryString)))"

definition decrypt :: "jsstring \<Rightarrow> jsstring \<Rightarrow> error + jsstring" where
  "decrypt ciphertext key =
     (if key = [] \<or> length key < 32
      then Inl (Error (js ''Encryption key must be at least 32 characters''))
      else case atob ciphertext of
             Inl e \<Rightarrow> Inl e
           | Inr combined \<Rightarrow>
               (let iv = take 16 combined;
                    encrypted = drop 16 combined;
                    keyBytes = TextEncoder_encode (take 32 key);
                    decrypted = xor_mask encrypted keyBytes iv
                in Inr (TextDecoder_decode decrypted)))"

section \<open>Admin authentication (\<open>requireAdmin\<close>)\<close>

definition requireAdmin :: "platform \<Rightarrow> db \<Rightarrow> jsstring \<Rightarrow> error + user_row" where
  "requireAdmin P d email =
     (if email = [] then Inl (Error (js ''Authentication required''))
      else case unique (tbl_query (users d) (\<lambda>u. u_email u = toLowerCase P email)) of
             Inl e \<Rightarrow> Inl e
           | Inr None \<Rightarrow> Inl (Error (js ''Authentication required''))
           | Inr (Some (uid, user)) \<Rightarrow>
               if u_role user \<noteq> js ''admin'' then Inl (Error (js ''Admin access required''))
               else Inr user)"

section \<open>Subscriptions (\<open>subscriptions.ts\<close>)\<close>

record subscription_input =
  si_name :: jsstring
  si_description :: jsstring
  si_provider :: jsstring
  si_categoryId :: id
  si_cost :: jsnum
  si_currencyId :: id
  si_billingCycle :: jsstring
  si_nextRenewalDate :: jsstring
  si_paymentMethod :: jsstring
  si_status :: jsstring
  si_notificationEnabled :: bool
  si_notificationDaysBefore :: jsnum

text \<open>\<open>provider ?? ""\<close>\<close>

definition or_empty :: "jsstring option \<Rightarrow> jsstring" where
  "or_empty x = (case x of None \<Rightarrow> [] | Some s \<Rightarrow> s)"

definition new_subscription ::
  "subscription_input \<Rightarrow> jsstring \<Rightarrow> jsstring \<Rightarrow> jsstring option \<Rightarrow> jsstring \<Rightarrow> subscription_row" where
  "new_subscription a name description provider referenceNumber =
     \<lparr>sub_referenceNumber = referenceNumber,
      sub_name = name,
      sub_description = description,
      sub_provider = or_empty provider,
      sub_categoryId = si_categoryId a,
      sub_cost = si_cost a,
      sub_currencyId = si_currencyId a,
      sub_billingCycle = si_billingCycle a,
      sub_nextRenewalDate = si_nextRenewalDate a,
      sub_paymentMethod = si_paymentMethod a,
      sub_status = si_status a,
      sub_notificationEnabled = si_notificationEnabled a,
      sub_notificationDaysBefore = si_notificationDaysBefore a\<rparr>"

definition insert_subscription :: "subscription_row \<Rightarrow> db \<Rightarrow> db" where
  "insert_subscription row d =
     d\<lparr>subscriptions := subscriptions d @ [(next_id d, row)], next_id := next_id d + 1\<rparr>"

text \<open>\<open>subscriptions.create\<close> (lines 97 to 176)\<close>

definition create :: "platform \<Rightarrow> clock \<Rightarrow> jsstring \<Rightarrow> subscription_input \<Rightarrow> db \<Rightarrow> db \<times> (error + id)" where
  "create P t adminEmail a d =
     (case requireAdmin P d adminEmail of
        Inl e \<Rightarrow> (d, Inl e)
      | Inr admin \<Rightarrow>
     (case validateAndSanitizeCommonFields (si_name a) (si_description a) (Some (si_provider a)) 0 1000 of
        Inl e \<Rightarrow> (d, Inl e)
      | Inr (name, description, provider) \<Rightarrow>
     (case validateCost (si_cost a) of
        Some e \<Rightarrow> (d, Inl e)
      | None \<Rightarrow>
     if \<not> validateDateString P (si_nextRenewalDate a)
     then (d, Inl (Error (js ''Invalid renewal date format'')))
     else
     (case validateNotificationDays (si_notificationDaysBefore a) of
        Some e \<Rightarrow> (d, Inl e)
      | None \<Rightarrow>
     (case tbl_get (categories d) (si_categoryId a) of
        None \<Rightarrow> (d, Inl (Error (js ''Invalid category'')))
      | Some category \<Rightarrow>
     (case tbl_get (currencies d) (si_currencyId a) of
        None \<Rightarrow> (d, Inl (Error (js ''Invalid currency'')))
      | Some currency \<Rightarrow>
     if \<not> cur_isActive currency then (d, Inl (Error (js ''Selected currency is not active'')))
     else
     (case generateReferenceNumber (t_year t) subscription d of
        (d1, Inl e) \<Rightarrow> (d1, Inl e)
      | (d1, Inr referenceNumber) \<Rightarrow>
          (insert_subscription (new_subscription a name description provider referenceNumber) d1,
           Inr (next_id d1)))))))))"

text \<open>\<open>subscriptions.bulkCreate\<close> (lines 260 to 384)\<close>

record bulk_result =
  br_index :: nat
  br_success :: bool
  br_referenceNumber :: "jsstring option"
  br_error :: "error option"

record bulk_summary =
  bs_total :: nat
  bs_succeeded :: nat
  bs_failed :: nat
  bs_results :: "bulk_result list"

text \<open>The checks of one row inside the \<open>try\<close> block (lines 330 to 347).\<close>

definition bulk_row_check ::
  "platform \<Rightarrow> id list \<Rightarrow> id list \<Rightarrow> subscription_input
     \<Rightarrow> error + (jsstring \<times> jsstring \<times> jsstring option)" where
  "bulk_row_check P validCategoryIds validCurrencyIds sub =
     (case validateAndSanitizeCommonFields (si_name sub) (si_description sub) (Some (si_provider sub)) 0 1000 of
        Inl e \<Rightarrow> Inl e
      | Inr ok \<Rightarrow>
     (case validateCost (si_cost sub) of
        Some e \<Rightarrow> Inl e
      | None \<Rightarrow>
     if \<not> validateDateString P (si_nextRenewalDate sub) then Inl (Error (js ''Invalid renewal date''))
     else
     (case validateNotificationDays (si_notificationDaysBefore sub) of
        Some e \<Rightarrow> Inl e
      | None \<Rightarrow>
     if si_categoryId sub \<notin> set validCategoryIds then Inl (Error (js ''Invalid category''))
     else if si_currencyId sub \<notin> set validCurrencyIds then Inl (Error (js ''Invalid or inactive currency''))
     else Inr ok)))"

text \<open>One turn of the loop: the \<open>try\<close> block and its \<open>catch\<close>.\<close>

definition bulk_row ::
  "platform \<Rightarrow> clock \<Rightarrow> id list \<Rightarrow> id list \<Rightarrow> nat \<Rightarrow> subscription_input \<Rightarrow> db \<Rightarrow> db \<times> bulk_result" where
  "bulk_row P t validCategoryIds validCurrencyIds i sub d =
     (case bulk_row_check P validCategoryIds validCurrencyIds sub of
        Inl e \<Rightarrow> (d, \<lparr>br_index = i, br_success = False, br_referenceNumber = None, br_error = Some e\<rparr>)
      | Inr (name, description, provider) \<Rightarrow>
     (case generateReferenceNumber (t_year t) subscription d of
        (d1, Inl e) \<Rightarrow>
          (d1, \<lparr>br_index = i, br_success = False, br_referenceNumber = None, br_error = Some e\<rparr>)
      | (d1, Inr referenceNumber) \<Rightarrow>
          (insert_subscription (new_subscription sub name description provider referenceNumber) d1,
           \<lparr>br_index = i, br_success = True, br_referenceNumber = Some referenceNumber,
             br_error = None\<rparr>)))"

text \<open>The loop \<open>for (let i = 0; i < args.subscriptions.length; i++)\<close>, from index \<open>i\<close> on.\<close>

fun bulk_loop ::
  "platform \<Rightarrow> clock \<Rightarrow> id list \<Rightarrow> id list \<Rightarrow> nat \<Rightarrow> subscription_input list \<Rightarrow> db
     \<Rightarrow> db \<times> bulk_result list" where
  "bulk_loop P t vcat vcur i [] d = (d, [])"
| "bulk_loop P t vcat vcur i (sub # subs) d =
     (case bulk_row P t vcat vcur i sub d of
        (d1, r) \<Rightarrow> (case bulk_loop P t vcat vcur (i + 1) subs d1 of (d2, rs) \<Rightarrow> (d2, r # rs)))"

definition bulkCreate ::
  "platform \<Rightarrow> clock \<Rightarrow> jsstring \<Rightarrow> subscription_input list \<Rightarrow> db \<Rightarrow> db \<times> (error + bulk_summary)" where
  "bulkCreate P t adminEmail subs d =
     (case requireAdmin P d adminEmail of
        Inl e \<Rightarrow> (d, Inl e)
      | Inr admin \<Rightarrow>
     if length subs > 100 then (d, Inl (Error (js ''Maximum 100 subscriptions per bulk import'')))
     else
       (let categoryIds = remdups (map si_categoryId subs);
            currencyIds = remdups (map si_currencyId subs);
            validCategoryIds = filter (\<lambda>i. tbl_get (categories d) i \<noteq> None) categoryIds;
            validCurrencyIds = filter (\<lambda>i. case tbl_get (currencies d) i of
                                             None \<Rightarrow> False | Some c \<Rightarrow> cur_isActive c) currencyIds
        in case bulk_loop P t validCategoryIds validCurrencyIds 0 subs d of
             (d', results) \<Rightarrow>
               (d', Inr \<lparr>bs_total = length subs,
                         bs_succeeded = length (filter br_success results),
                         bs_failed = length (filter (\<lambda>r. \<not> br_success r) results),
                         bs_results = results\<rparr>)))"

text \<open>
  \<open>subscriptions.update\<close> (lines 179 to 257). An empty provider becomes
  \<open>undefined\<close>, and patching with it would remove the required field.
\<close>

definition update ::
  "platform \<Rightarrow> jsstring \<Rightarrow> id \<Rightarrow> subscription_input \<Rightarrow> db \<Rightarrow> db \<times> (error + id)" where
  "update P adminEmail i a d =
     (case requireAdmin P d adminEmail of
        Inl e \<Rightarrow> (d, Inl e)
      | Inr admin \<Rightarrow>
     (case validateAndSanitizeCommonFields (si_name a) (si_description a) (Some (si_provider a)) 0 1000 of
        Inl e \<Rightarrow> (d, Inl e)
      | Inr (name, description, provider) \<Rightarrow>
     (case validateCost (si_cost a) of
        Some e \<Rightarrow> (d, Inl e)
      | None \<Rightarrow>
     if \<not> validateDateString P (si_nextRenewalDate a)
     then (d, Inl (Error (js ''Invalid renewal date format'')))
     else
     (case validateNotificationDays (si_notificationDaysBefore a) of
        Some e \<Rightarrow> (d, Inl e)
      | None \<Rightarrow>
     if tbl_get (subscriptions d) i = None then (d, Inl (Error (js ''Subscription not found'')))
     else if tbl_get (categories d) (si_categoryId a) = None then (d, Inl (Error (js ''Invalid category'')))
     else if tbl_get (currencies d) (si_currencyId a) = None then (d, Inl (Error (js ''Invalid currency'')))
     else if provider = None then (d, Inl SchemaValidation)
     else
       (d\<lparr>subscriptions := tbl_patch (subscriptions d) i
             (\<lambda>r. new_subscription a name description provider (sub_referenceNumber r))\<rparr>,
        Inr i)))))"

text \<open>
  \<open>subscriptions.remove\<close> (lines 387 to 417): the credentials and the audit logs of
  the subscription are deleted with it.
\<close>

definition delete_all :: "'r table \<Rightarrow> id list \<Rightarrow> 'r table" where
  "delete_all tb ids = foldl tbl_delete tb ids"

definition remove :: "platform \<Rightarrow> jsstring \<Rightarrow> id \<Rightarrow> db \<Rightarrow> db \<times> (error + unit)" where
  "remove P adminEmail i d =
     (case requireAdmin P d adminEmail of
        Inl e \<Rightarrow> (d, Inl e)
      | Inr admin \<Rightarrow>
         (let creds = tbl_query (credentials d) (\<lambda>c. cred_subscriptionId c = i);
              logs = tbl_query (auditLogs d) (\<lambda>l. al_subscriptionId l = i)
          in if tbl_get (subscriptions d) i = None then (d, Inl (Error (js ''Subscription not found'')))
             else (d\<lparr>credentials := delete_all (credentials d) (map fst creds),
                     auditLogs := delete_all (auditLogs d) (map fst logs),
                     subscriptions := tbl_delete (subscriptions d) i\<rparr>,
                   Inr ())))"

section \<open>Review of requests (\<open>approve\<close>, \<open>reject\<close>, \<open>remove\<close>)\<close>

subsection \<open>Calendar arithmetic of \<open>Date\<close>\<close>

text \<open>
  \<open>setMonth\<close> and \<open>setFullYear\<close> keep the day of the month and let a day beyond the
  end of the month run over into the following months; a month index beyond 11 runs
  over into the following years. Months count from 0, days from 1.
\<close>

definition is_leap :: "nat \<Rightarrow> bool" where
  "is_leap y = (y mod 4 = 0 \<and> (y mod 100 \<noteq> 0 \<or> y mod 400 = 0))"

definition days_in_month :: "nat \<Rightarrow> nat \<Rightarrow> nat" where
  "days_in_month y m =
     (if m = 1 then (if is_leap y then 29 else 28)
      else if m = 3 \<or> m = 5 \<or> m = 8 \<or> m = 10 then 30 else 31)"

function roll_days :: "nat \<Rightarrow> nat \<Rightarrow> nat \<Rightarrow> nat \<times> nat \<times> nat" where
  "roll_days y m d =
     (if d > days_in_month y m
      then roll_days (if m \<ge> 11 then y + 1 else y) (if m \<ge> 11 then 0 else m + 1) (d - days_in_month y m)
      else (y, m, d))"
  by pat_completeness auto
termination
  by (relation "measure (\<lambda>(y, m, d). d)") (auto simp: days_in_month_def)

declare roll_days.simps [simp del]

definition setMonth :: "clock \<Rightarrow> nat \<Rightarrow> nat \<times> nat \<times> nat" where
  "setMonth t m = roll_days (t_year t + m div 12) (m mod 12) (t_day t)"

definition setFullYear :: "clock \<Rightarrow> nat \<Rightarrow> nat \<times> nat \<times> nat" where
  "setFullYear t y = roll_days y (t_month t) (t_day t)"

text \<open>\<open>toISOString().split("T")[0]\<close>, for the years 0 to 9999.\<close>

definition isoDate :: "nat \<times> nat \<times> nat \<Rightarrow> jsstring" where
  "isoDate ymd = (case ymd of (y, m, d) \<Rightarrow>
     padStart 4 (digit 0) (toString y) @ js ''-'' @ padStart 2 (digit 0) (toString (m + 1))
       @ js ''-'' @ padStart 2 (digit 0) (toString d))"

text \<open>The \<open>switch\<close> on the billing cycle (lines 262 to 280).\<close>

definition nextRenewalDate :: "clock \<Rightarrow> jsstring \<Rightarrow> nat \<times> nat \<times> nat" where
  "nextRenewalDate now billingCycle =
     (if billingCycle = js ''monthly'' then setMonth now (t_month now + 1)
      else if billingCycle = js ''quarterly'' then setMonth now (t_month now + 3)
      else if billingCycle = js ''half-yearly'' then setMonth now (t_month now + 6)
      else if billingCycle = js ''yearly'' then setFullYear now (t_year now + 1)
      else setMonth now (t_month now + 1))"

subsection \<open>The handlers\<close>

text \<open>
  \<open>approve\<close> (lines 233 to 323). The request's provider is a string in every request
  that \<open>schema.ts\<close> admits; the second file's \<open>approve\<close> reads
  \<open>request.provider || ""\<close>, which is the same string on those. Scheduling the
  notification is wrapped in \<open>try\<close>/\<open>catch\<close> and touches none of the tables.
\<close>

definition approve ::
  "platform \<Rightarrow> clock \<Rightarrow> jsstring \<Rightarrow> id \<Rightarrow> jsstring option \<Rightarrow> db \<Rightarrow> db \<times> (error + id \<times> id)" where
  "approve P t adminEmail i notes d =
     (case requireAdmin P d adminEmail of
        Inl e \<Rightarrow> (d, Inl e)
      | Inr admin \<Rightarrow>
     (let adminNotes = when_truthy notes sanitizeString
      in if truthy adminNotes \<and> length (the adminNotes) > 1000
         then (d, Inl (Error (js ''Admin notes must not exceed 1000 characters'')))
         else
     (case tbl_get (subscriptionRequests d) i of
        None \<Rightarrow> (d, Inl (Error (js ''Request not found'')))
      | Some req \<Rightarrow>
     if req_status req \<noteq> js ''pending''
     then (d, Inl (Error (js ''Can only approve pending requests'')))
     else
     (case generateReferenceNumber (t_year t) subscription d of
        (d1, Inl e) \<Rightarrow> (d1, Inl e)
      | (d1, Inr subscriptionRef) \<Rightarrow>
         (let subscriptionId = next_id d1;
              d2 = insert_subscription
                     \<lparr>sub_referenceNumber = subscriptionRef,
                      sub_name = req_name req,
                      sub_description = req_description req,
                      sub_provider = or_empty (req_provider req),
                      sub_categoryId = req_categoryId req,
                      sub_cost = req_cost req,
                      sub_currencyId = req_currencyId req,
                      sub_billingCycle = req_billingCycle req,
                      sub_nextRenewalDate = isoDate (nextRenewalDate t (req_billingCycle req)),
                      sub_paymentMethod = js ''other'',
                      sub_status = js ''active'',
                      sub_notificationEnabled = True,
                      sub_notificationDaysBefore = Fin 7\<rparr> d1;
              d3 = d2\<lparr>subscriptionRequests := tbl_patch (subscriptionRequests d2) i
                       (\<lambda>r. r\<lparr>req_status := js ''approved'', req_adminNotes := adminNotes,
                               req_reviewedBy := Some (u_email admin),
                               req_reviewedAt := Some (t_ms t)\<rparr>)\<rparr>
          in (d3, Inr (i, subscriptionId)))))))"

text \<open>\<open>reject\<close> (lines 326 to 375)\<close>

definition reject :: "platform \<Rightarrow> clock \<Rightarrow> jsstring \<Rightarrow> id \<Rightarrow> jsstring \<Rightarrow> db \<Rightarrow> db \<times> (error + id)" where
  "reject P t adminEmail i notes d =
     (case requireAdmin P d adminEmail of
        Inl e \<Rightarrow> (d, Inl e)
      | Inr admin \<Rightarrow>
     (let adminNotes = sanitizeString notes
      in if adminNotes = [] \<or> length adminNotes < 10 \<or> length adminNotes > 1000
         then (d, Inl (Error (js ''Rejection reason must be between 10 and 1000 characters'')))
         else
     (case tbl_get (subscriptionRequests d) i of
        None \<Rightarrow> (d, Inl (Error (js ''Request not found'')))
      | Some req \<Rightarrow>
     if req_status req \<noteq> js ''pending''
     then (d, Inl (Error (js ''Can only reject pending requests'')))
     else
       (d\<lparr>subscriptionRequests := tbl_patch (subscriptionRequests d) i
             (\<lambda>r. r\<lparr>req_status := js ''rejected'', req_adminNotes := Some adminNotes,
                     req_reviewedBy := Some (u_email admin),
                     req_reviewedAt := Some (t_ms t)\<rparr>)\<rparr>,
        Inr i))))"

text \<open>\<open>subscriptionRequests.remove\<close> (lines 378 to 395)\<close>

definition remove_request :: "platform \<Rightarrow> jsstring \<Rightarrow> id \<Rightarrow> db \<Rightarrow> db \<times> (error + unit)" where
  "remove_request P adminEmail i d =
     (case requireAdmin P d adminEmail of
        Inl e \<Rightarrow> (d, Inl e)
      | Inr admin \<Rightarrow>
         if tbl_get (subscriptionRequests d) i = None then (d, Inl (Error (js ''Request not found'')))
         else (d\<lparr>subscriptionRequests := tbl_delete (subscriptionRequests d) i\<rparr>, Inr ()))"

section \<open>The credential vault (\<open>credentials.ts\<close>)\<close>

definition getEncryptionKey :: "platform \<Rightarrow> error + jsstring" where
  "getEncryptionKey P =
     (case ENCRYPTION_KEY P of
        None \<Rightarrow> Inl (Error (js ''ENCRYPTION_KEY environment variable is required.'' @ [0x0A] @
                 js ''Set it via: npx convex env set ENCRYPTION_KEY your-secret-key-min-32-chars''))
      | Some key \<Rightarrow>
          if key = []
          then Inl (Error (js ''ENCRYPTION_KEY environment variable is required.'' @ [0x0A] @
                 js ''Set it via: npx convex env set ENCRYPTION_KEY your-secret-key-min-32-chars''))
          else if length key < 32 then Inl (Error (js ''ENCRYPTION_KEY must be at least 32 characters''))
          else Inr key)"

text \<open>
  \<open>reveal\<close> (lines 112 to 146). The audit entry is inserted before the password is
  decrypted.
\<close>

definition reveal ::
  "platform \<Rightarrow> clock \<Rightarrow> jsstring \<Rightarrow> id \<Rightarrow> jsstring \<Rightarrow> db \<Rightarrow> db \<times> (error + jsstring \<times> jsstring)" where
  "reveal P t adminEmail subscriptionId action d =
     (case requireAdmin P d adminEmail of
        Inl e \<Rightarrow> (d, Inl e)
      | Inr admin \<Rightarrow>
     (case unique (tbl_query (credentials d) (\<lambda>c. cred_subscriptionId c = subscriptionId)) of
        Inl e \<Rightarrow> (d, Inl e)
      | Inr credential \<Rightarrow>
     (case tbl_get (subscriptions d) subscriptionId of
        None \<Rightarrow> (d, Inl (Error (js ''Subscription not found'')))
      | Some sub \<Rightarrow>
     (case credential of
        None \<Rightarrow> (d, Inl (Error (js ''No credentials found for this subscription'')))
      | Some (cid, cred) \<Rightarrow>
         (let d1 = d\<lparr>auditLogs := auditLogs d @
                       [(next_id d, \<lparr>al_subscriptionId = subscriptionId,
                                      al_subscriptionName = sub_name sub,
                                      al_action = action,
                                      al_performedBy = u_email admin,
                                      al_performedAt = t_ms t\<rparr>)],
                     next_id := next_id d + 1\<rparr>
          in case getEncryptionKey P of
               Inl e \<Rightarrow> (d1, Inl e)
             | Inr key \<Rightarrow>
                 (case decrypt (cred_password cred) key of
                    Inl e \<Rightarrow> (d1, Inl e)
                  | Inr password \<Rightarrow> (d1, Inr (cred_username cred, password))))))))"

text \<open>The validation that \<open>create\<close> and \<open>update\<close> share (lines 161 to 173 and 212 to 226).\<close>

definition credential_fields ::
  "jsstring \<Rightarrow> jsstring \<Rightarrow> jsstring option \<Rightarrow> error + (jsstring \<times> jsstring option)" where
  "credential_fields iusername ipassword inotes =
     (let username = sanitizeString iusername;
          notes = when_truthy inotes sanitizeString
      in if username = [] \<or> length username < 1 \<or> length username > 200
         then Inl (Error (js ''Username must be between 1 and 200 characters''))
         else if ipassword = [] \<or> length ipassword < 1 \<or> length ipassword > 500
         then Inl (Error (js ''Password must be between 1 and 500 characters''))
         else if truthy notes \<and> length (the notes) > 500
         then Inl (Error (js ''Notes must not exceed 500 characters''))
         else Inr (username, notes))"

text \<open>\<open>credentials.create\<close> (lines 149 to 195); \<open>iv\<close> is the random vector of \<open>encrypt\<close>.\<close>

definition credential_create ::
  "platform \<Rightarrow> jsstring \<Rightarrow> id \<Rightarrow> jsstring \<Rightarrow> jsstring \<Rightarrow> jsstring option \<Rightarrow> byte list \<Rightarrow> db
     \<Rightarrow> db \<times> (error + id)" where
  "credential_create P adminEmail subscriptionId iusername ipassword inotes iv d =
     (case requireAdmin P d adminEmail of
        Inl e \<Rightarrow> (d, Inl e)
      | Inr admin \<Rightarrow>
     (case credential_fields iusername ipassword inotes of
        Inl e \<Rightarrow> (d, Inl e)
      | Inr (username, notes) \<Rightarrow>
     (case unique (tbl_query (credentials d) (\<lambda>c. cred_subscriptionId c = subscriptionId)) of
        Inl e \<Rightarrow> (d, Inl e)
      | Inr existing \<Rightarrow>
     if tbl_get (subscriptions d) subscriptionId = None
     then (d, Inl (Error (js ''Subscription not found'')))
     else if existing \<noteq> None
     then (d, Inl (Error (js ''Credentials already exist for this subscription'')))
     else
     (case getEncryptionKey P of
        Inl e \<Rightarrow> (d, Inl e)
      | Inr key \<Rightarrow>
     (case encrypt P ipassword key iv of
        Inl e \<Rightarrow> (d, Inl e)
      | Inr encryptedPassword \<Rightarrow>
          (d\<lparr>credentials := credentials d @
                [(next_id d, \<lparr>cred_subscriptionId = subscriptionId, cred_username = username,
                               cred_password = encryptedPassword, cred_notes = notes\<rparr>)],
              next_id := next_id d + 1\<rparr>,
           Inr (next_id d)))))))"

text \<open>\<open>credentials.update\<close> (lines 198 to 258)\<close>

definition credential_update ::
  "platform \<Rightarrow> clock \<Rightarrow> jsstring \<Rightarrow> id \<Rightarrow> jsstring \<Rightarrow> jsstring \<Rightarrow> jsstring option \<Rightarrow> byte list \<Rightarrow> db
     \<Rightarrow> db \<times> (error + id)" where
  "credential_update P t adminEmail i iusername ipassword inotes iv d =
     (case requireAdmin P d adminEmail of
        Inl e \<Rightarrow> (d, Inl e)
      | Inr admin \<Rightarrow>
     (case credential_fields iusername ipassword inotes of
        Inl e \<Rightarrow> (d, Inl e)
      | Inr (username, notes) \<Rightarrow>
     (case tbl_get (credentials d) i of
        None \<Rightarrow> (d, Inl (Error (js ''Credential not found'')))
      | Some credential \<Rightarrow>
     (case tbl_get (subscriptions d) (cred_subscriptionId credential) of
        None \<Rightarrow> (d, Inl (Error (js ''Associated subscription not found'')))
      | Some sub \<Rightarrow>
         (let d1 = d\<lparr>auditLogs := auditLogs d @
                       [(next_id d, \<lparr>al_subscriptionId = cred_subscriptionId credential,
                                      al_subscriptionName = sub_name sub,
                                      al_action = js ''updated'',
                                      al_performedBy = u_email admin,
                                      al_performedAt = t_ms t\<rparr>)],
                     next_id := next_id d + 1\<rparr>
          in case getEncryptionKey P of
               Inl e \<Rightarrow> (d1, Inl e)
             | Inr encryptionKey \<Rightarrow>
                 (case encrypt P ipassword encryptionKey iv of
                    Inl e \<Rightarrow> (d1, Inl e)
                  | Inr encryptedPassword \<Rightarrow>
                      (d1\<lparr>credentials := tbl_patch (credentials d1) i
                             (\<lambda>c. c\<lparr>cred_username := username, cred_password := encryptedPassword,
                                     cred_notes := notes\<rparr>)\<rparr>,
                       Inr i)))))))"

text \<open>\<open>credentials.remove\<close> (lines 261 to 278)\<close>

definition credential_remove :: "platform \<Rightarrow> jsstring \<Rightarrow> id \<Rightarrow> db \<Rightarrow> db \<times> (error + unit)" where
  "credential_remove P adminEmail i d =
     (case requireAdmin P d adminEmail of
        Inl e \<Rightarrow> (d, Inl e)
      | Inr admin \<Rightarrow>
         if tbl_get (credentials d) i = None then (d, Inl (Error (js ''Credential not found'')))
         else (d\<lparr>credentials := tbl_delete (credentials d) i\<rparr>, Inr ()))"

subsection \<open>Sequences of reveals\<close>

text \<open>A call of \<open>reveal\<close>: the clock reading, the admin's e-mail, the subscription, the action.\<close>

type_synonym reveal_call = "clock \<times> jsstring \<times> id \<times> jsstring"

fun reveal_all ::
  "platform \<Rightarrow> reveal_call list \<Rightarrow> db \<Rightarrow> db \<times> (error + jsstring \<times> jsstring) list" where
  "reveal_all P [] d = (d, [])"
| "reveal_all P ((t, adminEmail, subscriptionId, action) # calls) d =
     (case run_mutation (reveal P t adminEmail subscriptionId action) d of
        (d1, r) \<Rightarrow> (case reveal_all P calls d1 of (d2, rs) \<Rightarrow> (d2, r # rs)))"

subsection \<open>Well-formed counters and the window of a key\<close>

text \<open>
  No two counter rows share a name; every counter row is written by
  \<open>generateReferenceNumber\<close>, which keeps it so. \<open>window d key\<close> is the list of
  rate-limit rows stored under \<open>key\<close>.
\<close>

definition counters_ok :: "db \<Rightarrow> bool" where
  "counters_ok d = distinct (map (\<lambda>(i, r). c_name r) (counters d))"


section \<open>Sample data\<close>

text \<open>A platform, a clock reading and a small database, for the concrete instances below.\<close>

definition ascii_lower :: "jsstring \<Rightarrow> jsstring" where
  "ascii_lower s = map (\<lambda>c. if 0x41 \<le> c \<and> c \<le> 0x5A then c + 0x20 else c) s"

definition sample_platform :: platform where
  "sample_platform = \<lparr>toLowerCase = ascii_lower, dateParses = (\<lambda>s. length s = 10),
     ENCRYPTION_KEY = Some (js ''0123456789abcdef0123456789abcdef''), maxArguments = 65535\<rparr>"

definition sample_clock :: clock where
  "sample_clock = \<lparr>t_ms = 1768471200000, t_year = 2026, t_month = 0, t_day = 15\<rparr>"

definition sample_db :: db where
  "sample_db = empty_db\<lparr>
     categories := [(0, \<lparr>cat_name = js ''Cloud'', cat_description = js ''Cloud services'',
                          cat_color = js ''#3B82F6''\<rparr>)],
     currencies := [(1, \<lparr>cur_code = js ''INR'', cur_name = js ''Indian Rupee'', cur_symbol = js ''Rs'',
                          cur_exchangeRate = Fin 1, cur_isActive = True\<rparr>)],
     users := [(2, \<lparr>u_email = js ''admin@company.com'', u_name = js ''Admin'',
                     u_passwordHash = js ''x'', u_role = js ''admin''\<rparr>)],
     next_id := 3\<rparr>"

definition sample_submit :: submit_args where
  "sample_submit = \<lparr>sa_name = js ''Datadog'', sa_description = js ''Monitoring platform'',
     sa_provider = js ''Datadog'', sa_categoryId = 0, sa_cost = Fin 1500, sa_currencyId = 1,
     sa_billingCycle = js ''monthly'', sa_requestedBy = js ''Mike'',
     sa_requesterEmail = js ''Mike@Company.com'', sa_requesterDepartment = js ''Engineering'',
     sa_justification = js ''Infrastructure monitoring and alerting''\<rparr>"

definition sample_submit_opt :: submit_opt_args where
  "sample_submit_opt = \<lparr>so_name = js ''Datadog'', so_description = js ''Monitoring platform'',
     so_provider = Some (js ''Datadog''), so_categoryId = 0, so_cost = Fin 1500, so_currencyId = 1,
     so_billingCycle = js ''monthly'', so_requestedBy = Some (js ''Mike''),
     so_requesterEmail = Some (js ''mike@company.com''),
     so_requesterDepartment = Some (js ''Engineering''),
     so_justification = Some (js ''Infrastructure monitoring and alerting'')\<rparr>"



definition sample_subscription :: subscription_input where
  "sample_subscription = \<lparr>si_name = js ''Slack'', si_description = js ''Team chat'',
     si_provider = js ''Slack Inc'', si_categoryId = 0, si_cost = Fin 800, si_currencyId = 1,
     si_billingCycle = js ''monthly'', si_nextRenewalDate = js ''2026-03-01'',
     si_paymentMethod = js ''credit_card'', si_status = js ''active'',
     si_notificationEnabled = True, si_notificationDaysBefore = Fin 7\<rparr>"

text \<open>
  What a row of a bulk import must satisfy on its own: the checks of the loop body,
  read against the categories and currencies of the database.
\<close>

definition sample_rows :: "subscription_input list" where
  "sample_rows = [sample_subscription, sample_subscription\<lparr>si_cost := Fin (-5)\<rparr>,
                  sample_subscription\<lparr>si_name := js ''Zoom''\<rparr>]"

definition row_acceptable :: "platform \<Rightarrow> db \<Rightarrow> subscription_input \<Rightarrow> bool" where
  "row_acceptable P d sub =
     (\<not> isl (validateAndSanitizeCommonFields (si_name sub) (si_description sub) (Some (si_provider sub)) 0 1000)
      \<and> validateCost (si_cost sub) = None
      \<and> validateDateString P (si_nextRenewalDate sub)
      \<and> validateNotificationDays (si_notificationDaysBefore sub) = None
      \<and> tbl_get (categories d) (si_categoryId sub) \<noteq> None
      \<and> (case tbl_get (currencies d) (si_currencyId sub) of None \<Rightarrow> False | Some c \<Rightarrow> cur_isActive c))"

subsection \<open>Sequences of operations on requests\<close>

datatype request_op =
    Submit clock submit_args
  | SubmitOptional clock submit_opt_args
  | Approve clock jsstring id "jsstring option"
  | Reject clock jsstring id jsstring

fun run_request_op :: "platform \<Rightarrow> db \<Rightarrow> request_op \<Rightarrow> db" where
  "run_request_op P d (Submit t a) = fst (run_mutation (submit P t a) d)"
| "run_request_op P d (SubmitOptional t a) = fst (run_mutation (submit_optional P t a) d)"
| "run_request_op P d (Approve t adminEmail i notes) = fst (run_mutation (approve P t adminEmail i notes) d)"
| "run_request_op P d (Reject t adminEmail i notes) = fst (run_mutation (reject P t adminEmail i notes) d)"

definition run_request_ops :: "platform \<Rightarrow> request_op list \<Rightarrow> db \<Rightarrow> db" where
  "run_request_ops P ops d = foldl (run_request_op P) d ops"

text \<open>
  Sample states: the sample database after the sample request was submitted, and after
  that request was approved, respectively rejected.
\<close>

definition sample_request :: request_row where
  "sample_request = \<lparr>req_referenceNumber = js ''REQ-2026-001'', req_name = js ''Datadog'',
     req_description = js ''Monitoring platform'', req_provider = Some (js ''Datadog''),
     req_categoryId = 0, req_cost = Fin 1500, req_currencyId = 1, req_billingCycle = js ''monthly'',
     req_requestedBy = Some (js ''Mike''), req_requesterEmail = Some (js ''mike@company.com''),
     req_requesterDepartment = Some (js ''Engineering''),
     req_justification = Some (js ''Infrastructure monitoring and alerting''),
     req_status = js ''pending'', req_adminNotes = None, req_reviewedBy = None,
     req_reviewedAt = None\<rparr>"

definition sample_pending :: db where
  "sample_pending = sample_db\<lparr>
     subscriptionRequests := [(6, sample_request)],
     counters := [(3, \<lparr>c_name = js ''request-2026'', c_value = 1\<rparr>)],
     rateLimits := [(4, \<lparr>rl_key = js ''global'', rl_windowStart = 1768471200000, rl_count = 1\<rparr>),
                    (5, \<lparr>rl_key = js ''email:mike@company.com'', rl_windowStart = 1768471200000,
                         rl_count = 1\<rparr>)],
     next_id := 7\<rparr>"

definition sample_approved :: db where
  "sample_approved = sample_pending\<lparr>
     subscriptions := [(8, \<lparr>sub_referenceNumber = js ''SUB-2026-001'', sub_name = js ''Datadog'',
        sub_description = js ''Monitoring platform'', sub_provider = js ''Datadog'',
        sub_categoryId = 0, sub_cost = Fin 1500, sub_currencyId = 1, sub_billingCycle = js ''monthly'',
        sub_nextRenewalDate = js ''2026-02-15'', sub_paymentMethod = js ''other'',
        sub_status = js ''active'', sub_notificationEnabled = True,
        sub_notificationDaysBefore = Fin 7\<rparr>)],
     subscriptionRequests := [(6, sample_request\<lparr>req_status := js ''approved'',
        req_reviewedBy := Some (js ''admin@company.com''), req_reviewedAt := Some 1768471200000\<rparr>)],
     counters := [(3, \<lparr>c_name = js ''request-2026'', c_value = 1\<rparr>),
                  (7, \<lparr>c_name = js ''subscription-2026'', c_value = 1\<rparr>)],
     next_id := 9\<rparr>"

definition sample_rejected :: db where
  "sample_rejected = sample_pending\<lparr>
     subscriptionRequests := [(6, sample_request\<lparr>req_status := js ''rejected'',
        req_adminNotes := Some (js ''Not in the budget of this quarter''),
        req_reviewedBy := Some (js ''admin@company.com''), req_reviewedAt := Some 1768471200000\<rparr>)]\<rparr>"

text \<open>The period of a billing cycle in months; every cycle but the three named counts one month.\<close>

definition cycle_months :: "jsstring \<Rightarrow> nat" where
  "cycle_months c =
     (if c = js ''quarterly'' then 3 else if c = js ''half-yearly'' then 6
      else if c = js ''yearly'' then 12 else 1)"

definition sample_key :: jsstring where
  "sample_key = js ''0123456789abcdef0123456789abcdef''"

definition sample_iv :: "byte list" where
  "sample_iv = [1, 2, 3, 4, 5, 6, 7, 8, 9, 10, 11, 12, 13, 14, 15, 16]"

text \<open>The approved sample state with a credential for its subscription.\<close>

definition sample_vault :: db where
  "sample_vault = sample_approved\<lparr>
     credentials := [(9, \<lparr>cred_subscriptionId = 8, cred_username = js ''ops@company.com'',
                           cred_password = js ''AQIDBAUGBwgJCgsMDQ4PEFlGX0NUQQM='',
                           cred_notes = None\<rparr>)],
     next_id := 10\<rparr>"

definition sample_reveals :: "reveal_call list" where
  "sample_reveals = [(sample_clock, js ''admin@company.com'', 8, js ''viewed''),
                     (sample_clock, js ''admin@company.com'', 99, js ''viewed''),
                     (sample_clock, js ''admin@company.com'', 8, js ''copied'')]"

text \<open>Readings of the clock on 2026-01-31 and on 2028-02-29, and a pending yearly request.\<close>

definition sample_month_end :: clock where
  "sample_month_end = \<lparr>t_ms = 1769853600000, t_year = 2026, t_month = 0, t_day = 31\<rparr>"

definition sample_leap_day :: clock where
  "sample_leap_day = \<lparr>t_ms = 1835431200000, t_year = 2028, t_month = 1, t_day = 29\<rparr>"

definition sample_pending_yearly :: db where
  "sample_pending_yearly = sample_pending\<lparr>
     subscriptionRequests := [(6, sample_request\<lparr>req_billingCycle := js ''yearly''\<rparr>)]\<rparr>"

section \<open>Clearing the database (\<open>seed.clearDatabase\<close>)\<close>

text \<open>
  An internal mutation, for development: it reads every table and deletes each of its
  documents by id.
\<close>

definition clear :: "'r table \<Rightarrow> 'r table" where
  "clear tb = delete_all tb (map fst tb)"

definition clearDatabase :: "db \<Rightarrow> db \<times> (error + unit)" where
  "clearDatabase d =
     (d\<lparr>auditLogs := clear (auditLogs d),
        credentials := clear (credentials d),
        subscriptionRequests := clear (subscriptionRequests d),
        subscriptions := clear (subscriptions d),
        rateLimits := clear (rateLimits d),
        currencies := clear (currencies d),
        categories := clear (categories d),
        users := clear (users d),
        counters := clear (counters d)\<rparr>,
      Inr ())"

section \<open>The mutations that the model covers\<close>

datatype mutation =
    RequestOp request_op
  | RemoveRequest jsstring id
  | Create clock jsstring subscription_input
  | Update jsstring id subscription_input
  | BulkCreate clock jsstring "subscription_input list"
  | Remove jsstring id
  | Reveal clock jsstring id jsstring
  | CredentialCreate jsstring id jsstring jsstring "jsstring option" "byte list"
  | CredentialUpdate clock jsstring id jsstring jsstring "jsstring option" "byte list"
  | CredentialRemove jsstring id
  | ClearDatabase

text \<open>The database after a mutation, run as a transaction.\<close>

fun run :: "platform \<Rightarrow> db \<Rightarrow> mutation \<Rightarrow> db" where
  "run P d (RequestOp op) = run_request_op P d op"
| "run P d (RemoveRequest adminEmail i) = fst (run_mutation (remove_request P adminEmail i) d)"
| "run P d (Create t adminEmail a) = fst (run_mutation (create P t adminEmail a) d)"
| "run P d (Update adminEmail i a) = fst (run_mutation (update P adminEmail i a) d)"
| "run P d (BulkCreate t adminEmail subs) = fst (run_mutation (bulkCreate P t adminEmail subs) d)"
| "run P d (Remove adminEmail i) = fst (run_mutation (remove P adminEmail i) d)"
| "run P d (Reveal t adminEmail i action) = fst (run_mutation (reveal P t adminEmail i action) d)"
| "run P d (CredentialCreate adminEmail i username password notes iv) =
     fst (run_mutation (credential_create P adminEmail i username password notes iv) d)"
| "run P d (CredentialUpdate t adminEmail i username password notes iv) =
     fst (run_mutation (credential_update P t adminEmail i username password notes iv) d)"
| "run P d (CredentialRemove adminEmail i) = fst (run_mutation (credential_remove P adminEmail i) d)"
| "run P d ClearDatabase = fst (run_mutation clearDatabase d)"

text \<open>The sample vault after its credential was viewed once.\<close>

definition sample_audited :: db where
  "sample_audited = sample_vault\<lparr>
     auditLogs := [(10, \<lparr>al_subscriptionId = 8, al_subscriptionName = js ''Datadog'',
                          al_action = js ''viewed'', al_performedBy = js ''admin@company.com'',
                          al_performedAt = 1768471200000\<rparr>)],
     next_id := 11\<rparr>"

section \<open>Properties of the reference-number generator\<close>

lemma toString_small: "n < 10 \<Longrightarrow> toString n = [digit n]"
  by (subst toString.simps) simp

lemma toString_large: "10 \<le> n \<Longrightarrow> toString n = toString (n div 10) @ [digit (n mod 10)]"
  by (subst toString.simps) simp

lemma length_padStart: "n \<le> length (padStart n c s)"
  by (simp add: padStart_def)

lemma tbl_query_patch:
  assumes "\<And>r. p (f r) = p r"
  shows "tbl_query (tbl_patch t i f) p = tbl_patch (tbl_query t p) i f"
proof (induction t)
  case Nil
  show ?case by (simp add: tbl_query_def tbl_patch_def)
next
  case (Cons a t)
  obtain j r where a: "a = (j, r)" by (cases a)
  from Cons show ?case
    by (simp add: tbl_query_def tbl_patch_def a assms)
qed

lemma generateReferenceNumber_absent:
  assumes "tbl_query (counters d) (\<lambda>r. c_name r = counterName ty year) = []"
  shows "\<exists>d'. generateReferenceNumber year ty d = (d', Inr (format_reference ty year 1))
    \<and> tbl_query (counters d') (\<lambda>r. c_name r = counterName ty year)
        = [(next_id d, \<lparr>c_name = counterName ty year, c_value = 1\<rparr>)]"
  using assms by (simp add: generateReferenceNumber_def tbl_query_def)

lemma generateReferenceNumber_present:
  assumes "tbl_query (counters d) (\<lambda>r. c_name r = counterName ty year) = [(cid, c)]"
  shows "\<exists>d'. generateReferenceNumber year ty d = (d', Inr (format_reference ty year (c_value c + 1)))
    \<and> tbl_query (counters d') (\<lambda>r. c_name r = counterName ty year)
        = [(cid, c\<lparr>c_value := c_value c + 1\<rparr>)]"
  using assms by (simp add: generateReferenceNumber_def tbl_query_patch) (simp add: tbl_patch_def)

lemma allocate_n_present:
  assumes "tbl_query (counters d) (\<lambda>r. c_name r = counterName ty year) = [(cid, c)]"
  shows "\<exists>d'. allocate_n year ty n d
            = (d', Inr (map (format_reference ty year) [c_value c + 1 ..< c_value c + 1 + n]))
    \<and> tbl_query (counters d') (\<lambda>r. c_name r = counterName ty year)
        = [(cid, c\<lparr>c_value := c_value c + n\<rparr>)]"
  using assms
proof (induction n arbitrary: d c)
  case 0
  then show ?case by simp
next
  case (Suc n)
  from generateReferenceNumber_present [OF Suc.prems] obtain d1 where
    g: "generateReferenceNumber year ty d = (d1, Inr (format_reference ty year (c_value c + 1)))"
    and q: "tbl_query (counters d1) (\<lambda>r. c_name r = counterName ty year)
              = [(cid, c\<lparr>c_value := c_value c + 1\<rparr>)]"
    by blast
  from Suc.IH [OF q] obtain d2 where
    a: "allocate_n year ty n d1
          = (d2, Inr (map (format_reference ty year) [c_value c + 1 + 1 ..< c_value c + 1 + 1 + n]))"
    and q2: "tbl_query (counters d2) (\<lambda>r. c_name r = counterName ty year)
               = [(cid, c\<lparr>c_value := c_value c + 1 + n\<rparr>)]"
    by auto
  show ?case using g a q2 by (simp add: upt_rec)
qed

text \<open>
  C7. Starting from a database with no counter row for entity type \<open>ty\<close> and year
  \<open>year\<close>, \<open>n\<close> successive allocations all return, and they return the numbers
  1, 2, ..., n in this order, each formatted as PREFIX-year-NNN, where PREFIX is SUB for
  subscriptions and REQ for requests and NNN is the decimal counter value padded with
  zeros to at least three characters. Afterwards the single counter row of that name
  holds the value \<open>n\<close>.
\<close>

theorem reference_numbers_sequential:
  assumes "tbl_query (counters d) (\<lambda>r. c_name r = counterName ty year) = []"
  shows "\<exists>d'. allocate_n year ty n d =
           (d', Inr (map (\<lambda>k. (if ty = subscription then js ''SUB'' else js ''REQ'') @ js ''-''
                                @ toString year @ js ''-'' @ padStart 3 (digit 0) (toString k))
                      [1 ..< Suc n]))
         \<and> map (\<lambda>(i, r). c_value r) (tbl_query (counters d') (\<lambda>r. c_name r = counterName ty year))
             = (if n = 0 then [] else [n])
         \<and> (\<forall>k. 3 \<le> length (padStart 3 (digit 0) (toString k)))"
proof (cases n)
  case 0
  with assms show ?thesis by (simp add: length_padStart)
next
  case (Suc m)
  from generateReferenceNumber_absent [OF assms] obtain d1 where
    g: "generateReferenceNumber year ty d = (d1, Inr (format_reference ty year 1))"
    and q: "tbl_query (counters d1) (\<lambda>r. c_name r = counterName ty year)
              = [(next_id d, \<lparr>c_name = counterName ty year, c_value = 1\<rparr>)]"
    by blast
  let ?R = "\<lparr>c_name = counterName ty year, c_value = 1\<rparr>"
  from allocate_n_present [OF q, of m] obtain d2 where
    a: "allocate_n year ty m d1
          = (d2, Inr (map (format_reference ty year) [c_value ?R + 1 ..< c_value ?R + 1 + m]))"
    and q2: "tbl_query (counters d2) (\<lambda>r. c_name r = counterName ty year)
               = [(next_id d, ?R\<lparr>c_value := c_value ?R + m\<rparr>)]"
    by blast
  have f: "format_reference ty year = (\<lambda>k. (if ty = subscription then js ''SUB'' else js ''REQ'')
             @ js ''-'' @ toString year @ js ''-'' @ padStart 3 (digit 0) (toString k))"
    by (rule ext) (simp add: format_reference_def ref_prefix_def)
  have u: "[1 ..< Suc (Suc m)] = 1 # [c_value ?R + 1 ..< c_value ?R + 1 + m]"
    by (simp add: upt_conv_Cons del: upt_Suc)
  show ?thesis
    unfolding Suc u using g a q2 by (simp add: f length_padStart del: upt_Suc)
qed

theorem reference_numbers_sequential_witness:
  "tbl_query (counters empty_db) (\<lambda>r. c_name r = counterName request 2026) = []
   \<and> snd (allocate_n 2026 request 3 empty_db)
       = Inr [js ''REQ-2026-001'', js ''REQ-2026-002'', js ''REQ-2026-003'']"
proof -
  have h: "tbl_query (counters empty_db) (\<lambda>r. c_name r = counterName request 2026) = []"
    by (simp add: empty_db_def tbl_query_def)
  have u: "[1 ..< Suc 3] = [1, 2, 3]"
    by (simp add: upt_rec)
  from reference_numbers_sequential [OF h, of 3] show ?thesis
    unfolding u using h
    by (auto simp: js_def padStart_def toString_small toString_large digit_def numeral_2_eq_2)
qed

section \<open>Properties of the public submission\<close>

lemma generateReferenceNumber_throws:
  "generateReferenceNumber y ty d = (d', Inl e) \<Longrightarrow> d' = d"
  by (auto simp: generateReferenceNumber_def Let_def split: sum.splits option.splits prod.splits)

lemma submit_validate_schema: "submit_validate P a = Inr f \<Longrightarrow> schema_accepts f"
  by (auto simp: submit_validate_def schema_accepts_def Let_def
           split: sum.splits option.splits if_splits prod.splits)

lemma submit_write_throws:
  "submit_write t f r k c cost cur bc d = (d', Inl e) \<Longrightarrow> e \<noteq> SchemaValidation \<Longrightarrow> d' = d"
  by (auto simp: submit_write_def Let_def split: sum.splits prod.splits if_splits
           dest: generateReferenceNumber_throws)

lemma submit_write_accepted_throws:
  "submit_write t f r k c cost cur bc d = (d', Inl e) \<Longrightarrow> schema_accepts f \<Longrightarrow> d' = d"
  by (auto simp: submit_write_def Let_def split: sum.splits prod.splits if_splits
           dest: generateReferenceNumber_throws)

lemma submit_throws: "submit P t a d = (d', Inl e) \<Longrightarrow> d' = d"
  by (auto simp: submit_def Let_def split: sum.splits
           dest: submit_write_accepted_throws submit_validate_schema)

lemma submit_optional_throws:
  "submit_optional P t b d = (d', Inl e) \<Longrightarrow> e \<noteq> SchemaValidation \<Longrightarrow> d' = d"
  by (auto simp: submit_optional_def Let_def split: sum.splits dest: submit_write_throws)

lemma run_mutation_throws: "h d = (d', Inl e) \<Longrightarrow> run_mutation h d = (d, Inl e)"
  by (simp add: run_mutation_def)

text \<open>
  C6. When the first submission handler throws, for whatever reason, the database it
  leaves is the database it was called on: no rate-limit counter, no reference-number
  counter and no request has been written before the throw. The same holds of the
  second handler for every throw but one: all its checks (malformed input, a payload
  that is too large, the category, the currency, the rate limits) precede its first
  write, and only the insert of a request that lacks a field required by \<open>schema.ts\<close>
  throws after the counters were written. Every throw of either handler ends the
  mutation, a transaction, with the database as it was before the call.
\<close>

theorem submit_throws_without_writing:
  "(submit P t a d = (d', Inl e) \<longrightarrow>
      d' = d \<and> run_mutation (submit P t a) d = (d, Inl e))
   \<and> (submit_optional P t b d = (d'', Inl e') \<longrightarrow>
        (e' \<noteq> SchemaValidation \<longrightarrow> d'' = d)
      \<and> run_mutation (submit_optional P t b) d = (d, Inl e'))"
  using submit_throws [of P t a d d' e] submit_optional_throws [of P t b d d'' e']
    run_mutation_throws [of "submit P t a" d d' e]
    run_mutation_throws [of "submit_optional P t b" d d'' e']
  by blast

theorem submit_throws_without_writing_witness:
  "submit sample_platform sample_clock (sample_submit\<lparr>sa_cost := Fin 0\<rparr>) sample_db
     = (sample_db, Inl (Error (js ''Cost must be a positive number'')))
   \<and> submit_optional sample_platform sample_clock (sample_submit_opt\<lparr>so_categoryId := 7\<rparr>) sample_db
     = (sample_db, Inl (Error (js ''Invalid category'')))
   \<and> snd (submit_optional sample_platform sample_clock
             (sample_submit_opt\<lparr>so_requestedBy := None\<rparr>) sample_db)
     = Inl SchemaValidation
   \<and> map snd (counters (fst (submit_optional sample_platform sample_clock
                                (sample_submit_opt\<lparr>so_requestedBy := None\<rparr>) sample_db)))
     = [\<lparr>c_name = js ''request-2026'', c_value = 1\<rparr>]
   \<and> counters sample_db = []
   \<and> run_mutation (submit_optional sample_platform sample_clock
                     (sample_submit_opt\<lparr>so_requestedBy := None\<rparr>)) sample_db
     = (sample_db, Inl SchemaValidation)"
proof -
  let ?x = "submit sample_platform sample_clock (sample_submit\<lparr>sa_cost := Fin 0\<rparr>) sample_db"
  let ?y = "submit_optional sample_platform sample_clock (sample_submit_opt\<lparr>so_categoryId := 7\<rparr>)
              sample_db"
  let ?z = "submit_optional sample_platform sample_clock (sample_submit_opt\<lparr>so_requestedBy := None\<rparr>)
              sample_db"
  have x: "snd ?x = Inl (Error (js ''Cost must be a positive number''))"
    by code_simp
  have y: "snd ?y = Inl (Error (js ''Invalid category''))"
    by code_simp
  have z: "snd ?z = Inl SchemaValidation"
    by code_simp
  have c: "map snd (counters (fst ?z)) = [\<lparr>c_name = js ''request-2026'', c_value = 1\<rparr>]"
    by code_simp
  have c0: "counters sample_db = []"
    by (simp add: sample_db_def empty_db_def)
  have x': "?x = (fst ?x, Inl (Error (js ''Cost must be a positive number'')))"
    using x by (simp add: prod_eq_iff)
  have y': "?y = (fst ?y, Inl (Error (js ''Invalid category'')))"
    using y by (simp add: prod_eq_iff)
  have z': "?z = (fst ?z, Inl SchemaValidation)"
    using z by (simp add: prod_eq_iff)
  from submit_throws_without_writing
         [of sample_platform sample_clock "sample_submit\<lparr>sa_cost := Fin 0\<rparr>" sample_db "fst ?x"
             "Error (js ''Cost must be a positive number'')"
             "sample_submit_opt\<lparr>so_categoryId := 7\<rparr>" "fst ?y" "Error (js ''Invalid category'')"]
       x' y'
  have one: "fst ?x = sample_db \<and> fst ?y = sample_db"
    by blast
  from submit_throws_without_writing
         [of sample_platform sample_clock "sample_submit\<lparr>sa_cost := Fin 0\<rparr>" sample_db "fst ?x"
             "Error (js ''Cost must be a positive number'')"
             "sample_submit_opt\<lparr>so_requestedBy := None\<rparr>" "fst ?z" SchemaValidation]
       z'
  have two: "run_mutation (submit_optional sample_platform sample_clock
                            (sample_submit_opt\<lparr>so_requestedBy := None\<rparr>)) sample_db
             = (sample_db, Inl SchemaValidation)"
    by blast
  from one two x' y' z c c0 show ?thesis by simp
qed

section \<open>The rate limiter\<close>

lemma distinct_filter_unique:
  "distinct (map f xs) \<Longrightarrow> filter (\<lambda>x. f x = v) xs = [] \<or> (\<exists>x. filter (\<lambda>x. f x = v) xs = [x])"
proof (induction xs)
  case Nil
  then show ?case by simp
next
  case (Cons a xs)
  show ?case
  proof (cases "f a = v")
    case True
    with Cons.prems have "v \<notin> f ` set xs" by auto
    then have "filter (\<lambda>x. f x = v) xs = []"
      by (auto simp: filter_empty_conv)
    with True show ?thesis by simp
  next
    case False
    with Cons show ?thesis by simp
  qed
qed

lemma unique_counter:
  assumes "counters_ok d"
  shows "tbl_query (counters d) (\<lambda>r. c_name r = n) = []
         \<or> (\<exists>i c. tbl_query (counters d) (\<lambda>r. c_name r = n) = [(i, c)])"
proof -
  have e: "tbl_query (counters d) (\<lambda>r. c_name r = n) = filter (\<lambda>x. (\<lambda>(i, r). c_name r) x = n) (counters d)"
    by (simp add: tbl_query_def case_prod_unfold)
  from distinct_filter_unique [OF assms [unfolded counters_ok_def], of n]
  show ?thesis unfolding e by auto
qed

lemma names_patch:
  assumes "\<And>r. c_name (f r) = c_name r"
  shows "map (\<lambda>(i, r). c_name r) (tbl_patch t i f) = map (\<lambda>(i, r). c_name r) t"
  by (induction t) (simp_all add: tbl_patch_def assms case_prod_unfold)

lemma generateReferenceNumber_ok:
  assumes "counters_ok d"
  shows "\<exists>d1 ref. generateReferenceNumber y ty d = (d1, Inr ref)
     \<and> counters_ok d1 \<and> rateLimits d1 = rateLimits d \<and> categories d1 = categories d
     \<and> currencies d1 = currencies d \<and> subscriptions d1 = subscriptions d
     \<and> subscriptionRequests d1 = subscriptionRequests d \<and> auditLogs d1 = auditLogs d
     \<and> credentials d1 = credentials d \<and> users d1 = users d"
proof -
  let ?n = "counterName ty y"
  from unique_counter [OF assms, of ?n] consider
    (absent) "tbl_query (counters d) (\<lambda>r. c_name r = ?n) = []"
    | (present) i c where "tbl_query (counters d) (\<lambda>r. c_name r = ?n) = [(i, c)]"
    by blast
  then show ?thesis
  proof cases
    case absent
    then have "?n \<notin> set (map (\<lambda>(i, r). c_name r) (counters d))"
      by (auto simp: tbl_query_def filter_empty_conv)
    with assms absent show ?thesis
      by (simp add: generateReferenceNumber_def counters_ok_def)
  next
    case present
    with assms show ?thesis
      by (simp add: generateReferenceNumber_def counters_ok_def names_patch)
  qed
qed













section \<open>Cost validation\<close>

lemma submit_validate_cost:
  "js_le c (Fin 0) \<Longrightarrow> \<exists>e. submit_validate P (a\<lparr>sa_cost := c\<rparr>) = Inl e"
  by (auto simp: submit_validate_def Let_def split: sum.splits option.splits prod.splits)

lemma submit_optional_validate_cost:
  "js_le c (Fin 0) \<Longrightarrow> \<exists>e. submit_optional_validate P (b\<lparr>so_cost := c\<rparr>) = Inl e"
  by (auto simp: submit_optional_validate_def Let_def split: sum.splits option.splits prod.splits)

lemma validateCost_iff:
  "validateCost c = None \<longleftrightarrow> (\<exists>r. c = Fin r \<and> 0 \<le> r \<and> r \<le> 100000000)"
  by (cases c) (auto simp: validateCost_def validatePositiveNumber_def isNaN_def js_ge_def)

lemma validateCost_zero: "validateCost (Fin 0) = None"
  by (simp add: validateCost_iff)

lemma create_cost_zero:
  assumes "create P t adm s d = (d', Inr x)"
  shows "\<exists>d'' y. create P t adm (s\<lparr>si_cost := Fin 0\<rparr>) d = (d'', Inr y)"
  using assms
  by (auto simp: create_def validateCost_zero split: sum.splits option.splits prod.splits if_splits)

lemma bulk_row_check_cost_zero:
  assumes "bulk_row_check P vc vcu sub = Inr x"
  shows "bulk_row_check P vc vcu (sub\<lparr>si_cost := Fin 0\<rparr>) = Inr x"
  using assms
  by (auto simp: bulk_row_check_def validateCost_zero split: sum.splits option.splits prod.splits if_splits)

text \<open>
  C10. The two public submission handlers throw for every cost that is at most 0, and
  write nothing. The validator shared by the admin operations, \<open>validateCost\<close>, accepts
  exactly the finite costs from 0 to 100000000: whenever \<open>create\<close> accepts an input it
  also accepts the same input with cost 0, and so does a row of \<open>bulkCreate\<close>.
\<close>

theorem cost_validation_asymmetric:
  "(js_le c (Fin 0) \<longrightarrow>
      (\<exists>e. submit P t (a\<lparr>sa_cost := c\<rparr>) d = (d, Inl e))
    \<and> (\<exists>e. submit_optional P t (b\<lparr>so_cost := c\<rparr>) d = (d, Inl e)))
   \<and> (validateCost c = None \<longleftrightarrow> (\<exists>r. c = Fin r \<and> 0 \<le> r \<and> r \<le> 100000000))
   \<and> ((\<exists>d' x. create P t adm s d = (d', Inr x))
        \<longrightarrow> (\<exists>d' x. create P t adm (s\<lparr>si_cost := Fin 0\<rparr>) d = (d', Inr x)))
   \<and> (br_success (snd (bulk_row P t vc vcu i s d))
        \<longrightarrow> br_success (snd (bulk_row P t vc vcu i (s\<lparr>si_cost := Fin 0\<rparr>) d)))"
proof (intro conjI impI)
  assume c: "js_le c (Fin 0)"
  from submit_validate_cost [OF c] obtain e where "submit_validate P (a\<lparr>sa_cost := c\<rparr>) = Inl e"
    by blast
  then show "\<exists>e. submit P t (a\<lparr>sa_cost := c\<rparr>) d = (d, Inl e)"
    by (simp add: submit_def)
  from submit_optional_validate_cost [OF c] obtain e where
    "submit_optional_validate P (b\<lparr>so_cost := c\<rparr>) = Inl e"
    by blast
  then show "\<exists>e. submit_optional P t (b\<lparr>so_cost := c\<rparr>) d = (d, Inl e)"
    by (simp add: submit_optional_def)
next
  show "validateCost c = None \<longleftrightarrow> (\<exists>r. c = Fin r \<and> 0 \<le> r \<and> r \<le> 100000000)"
    by (rule validateCost_iff)
next
  assume "\<exists>d' x. create P t adm s d = (d', Inr x)"
  then show "\<exists>d' x. create P t adm (s\<lparr>si_cost := Fin 0\<rparr>) d = (d', Inr x)"
    using create_cost_zero by blast
next
  assume b: "br_success (snd (bulk_row P t vc vcu i s d))"
  then obtain x where x: "bulk_row_check P vc vcu s = Inr x"
    by (cases "bulk_row_check P vc vcu s") (auto simp: bulk_row_def)
  from b x show "br_success (snd (bulk_row P t vc vcu i (s\<lparr>si_cost := Fin 0\<rparr>) d))"
    by (auto simp: bulk_row_def bulk_row_check_cost_zero split: prod.splits sum.splits)
qed


theorem cost_validation_asymmetric_witness:
  "js_le (Fin 0) (Fin 0)
   \<and> snd (submit sample_platform sample_clock (sample_submit\<lparr>sa_cost := Fin 0\<rparr>) sample_db)
       = Inl (Error (js ''Cost must be a positive number''))
   \<and> snd (create sample_platform sample_clock (js ''admin@company.com'') sample_subscription sample_db)
       = Inr 4
   \<and> (\<exists>d' x. create sample_platform sample_clock (js ''admin@company.com'')
                  (sample_subscription\<lparr>si_cost := Fin 0\<rparr>) sample_db = (d', Inr x))
   \<and> br_success (snd (bulk_row sample_platform sample_clock [0] [1] 0 sample_subscription sample_db))
   \<and> br_success (snd (bulk_row sample_platform sample_clock [0] [1] 0
                           (sample_subscription\<lparr>si_cost := Fin 0\<rparr>) sample_db))"
proof -
  let ?c = "create sample_platform sample_clock (js ''admin@company.com'') sample_subscription sample_db"
  have z: "js_le (Fin 0) (Fin 0)"
    by simp
  have s: "snd (submit sample_platform sample_clock (sample_submit\<lparr>sa_cost := Fin 0\<rparr>) sample_db)
       = Inl (Error (js ''Cost must be a positive number''))"
    by code_simp
  have c: "snd ?c = Inr 4"
    by code_simp
  then have c': "\<exists>d' x. ?c = (d', Inr x)"
    by (metis prod.collapse)
  have b: "br_success (snd (bulk_row sample_platform sample_clock [0] [1] 0 sample_subscription sample_db))"
    by code_simp
  from cost_validation_asymmetric
         [of "Fin 0" sample_platform sample_clock sample_submit sample_db sample_submit_opt
             "js ''admin@company.com''" sample_subscription "[0]" "[1]" 0] z c' b
  have "(\<exists>d' x. create sample_platform sample_clock (js ''admin@company.com'')
                  (sample_subscription\<lparr>si_cost := Fin 0\<rparr>) sample_db = (d', Inr x))
      \<and> br_success (snd (bulk_row sample_platform sample_clock [0] [1] 0
                           (sample_subscription\<lparr>si_cost := Fin 0\<rparr>) sample_db))"
    by blast
  with z s c b show ?thesis by blast
qed

section \<open>Bulk creation\<close>

lemma bulk_row_props:
  assumes "counters_ok d" and "bulk_row P t vc vcu i sub d = (d', r)"
  shows "br_index r = i \<and> br_success r = (\<not> isl (bulk_row_check P vc vcu sub))
     \<and> (br_error r = None) = br_success r
     \<and> counters_ok d' \<and> categories d' = categories d \<and> currencies d' = currencies d
     \<and> length (subscriptions d') = length (subscriptions d) + (if br_success r then 1 else 0)"
proof (cases "bulk_row_check P vc vcu sub")
  case (Inl e)
  with assms show ?thesis by (auto simp: bulk_row_def)
next
  case (Inr x)
  from generateReferenceNumber_ok [OF assms(1), of "t_year t" subscription] obtain d1 ref where
    g: "generateReferenceNumber (t_year t) subscription d = (d1, Inr ref)"
    and d1: "counters_ok d1" "categories d1 = categories d" "currencies d1 = currencies d"
            "subscriptions d1 = subscriptions d"
    by blast
  from assms(2) Inr g d1 show ?thesis
    by (auto simp: bulk_row_def insert_subscription_def counters_ok_def split: prod.splits)
qed

lemma bulk_loop_props:
  assumes "counters_ok d" and "bulk_loop P t vc vcu i subs d = (d', rs)"
  shows "map br_index rs = [i ..< i + length subs]
     \<and> map br_success rs = map (\<lambda>s. \<not> isl (bulk_row_check P vc vcu s)) subs
     \<and> (\<forall>r \<in> set rs. (br_error r = None) = br_success r)
     \<and> length (subscriptions d') = length (subscriptions d) + length (filter br_success rs)"
  using assms
proof (induction subs arbitrary: i d d' rs)
  case Nil
  then show ?case by simp
next
  case (Cons sub subs)
  obtain d1 r where r: "bulk_row P t vc vcu i sub d = (d1, r)"
    by (cases "bulk_row P t vc vcu i sub d")
  obtain d2 rs' where l: "bulk_loop P t vc vcu (i + 1) subs d1 = (d2, rs')"
    by (cases "bulk_loop P t vc vcu (i + 1) subs d1")
  from Cons.prems(2) r l have e: "d' = d2" "rs = r # rs'"
    by simp_all
  note p = bulk_row_props [OF Cons.prems(1) r]
  from p have c1: "counters_ok d1" by blast
  note ih = Cons.IH [OF c1 l]
  have u: "[i ..< i + length (sub # subs)] = i # [i + 1 ..< i + 1 + length subs]"
    by (simp add: upt_conv_Cons del: upt_Suc)
  show ?case
    unfolding e u using p ih by (simp del: upt_Suc)
qed

lemma bulk_check_acceptable:
  assumes "sub \<in> set subs"
  shows "(\<not> isl (bulk_row_check P
            (filter (\<lambda>i. tbl_get (categories d) i \<noteq> None) (remdups (map si_categoryId subs)))
            (filter (\<lambda>i. case tbl_get (currencies d) i of None \<Rightarrow> False | Some c \<Rightarrow> cur_isActive c)
               (remdups (map si_currencyId subs))) sub))
         = row_acceptable P d sub"
  using assms
  by (auto simp: bulk_row_check_def row_acceptable_def split: sum.splits option.splits)


lemma length_filter_partition:
  "length (filter p xs) + length (filter (\<lambda>x. \<not> p x) xs) = length xs"
  by (induction xs) simp_all

text \<open>
  C9. \<open>bulkCreate\<close> throws when it is given more than 100 rows, and writes nothing.
  Given at most 100 rows, an admin and well-formed counters, it returns a summary with
  \<open>total\<close> the number of rows, \<open>succeeded + failed = total\<close>, and one result per row, in
  order and carrying the row's index. The result of a row reports success exactly when
  that row passes its own checks, whatever the other rows are; a failed row carries an
  error; and the subscriptions table has grown by one row per success.
\<close>

theorem bulkCreate_rows_independent:
  "(length subs > 100 \<longrightarrow> (\<exists>e. bulkCreate P t adm subs d = (d, Inl e)))
   \<and> (length subs \<le> 100 \<and> requireAdmin P d adm = Inr u \<and> counters_ok d \<longrightarrow>
       (\<exists>d' sm. bulkCreate P t adm subs d = (d', Inr sm)
          \<and> bs_total sm = length subs
          \<and> bs_succeeded sm + bs_failed sm = bs_total sm
          \<and> length (bs_results sm) = length subs
          \<and> map br_index (bs_results sm) = [0 ..< length subs]
          \<and> (\<forall>i < length subs. br_success (bs_results sm ! i) = row_acceptable P d (subs ! i))
          \<and> (\<forall>r \<in> set (bs_results sm). (br_error r = None) = br_success r)
          \<and> length (subscriptions d') = length (subscriptions d) + bs_succeeded sm))"
proof (intro conjI impI)
  assume "length subs > 100"
  then show "\<exists>e. bulkCreate P t adm subs d = (d, Inl e)"
    by (cases "requireAdmin P d adm") (simp_all add: bulkCreate_def)
next
  assume a: "length subs \<le> 100 \<and> requireAdmin P d adm = Inr u \<and> counters_ok d"
  let ?vc = "filter (\<lambda>i. tbl_get (categories d) i \<noteq> None) (remdups (map si_categoryId subs))"
  let ?vcu = "filter (\<lambda>i. case tbl_get (currencies d) i of None \<Rightarrow> False | Some c \<Rightarrow> cur_isActive c)
                (remdups (map si_currencyId subs))"
  obtain d' rs where l: "bulk_loop P t ?vc ?vcu 0 subs d = (d', rs)"
    by (cases "bulk_loop P t ?vc ?vcu 0 subs d")
  from a have co: "counters_ok d" by blast
  note p = bulk_loop_props [OF co l]
  from p have ix: "map br_index rs = [0 ..< length subs]" by simp
  then have len: "length rs = length subs"
    by (metis length_map length_upt minus_nat.diff_0)
  from p have su: "map br_success rs = map (\<lambda>s. \<not> isl (bulk_row_check P ?vc ?vcu s)) subs"
    by blast
  have acc: "br_success (rs ! i) = row_acceptable P d (subs ! i)" if i: "i < length subs" for i
  proof -
    from i len have "br_success (rs ! i) = map br_success rs ! i" by simp
    also have "\<dots> = (\<not> isl (bulk_row_check P ?vc ?vcu (subs ! i)))"
      unfolding su using i by simp
    also have "\<dots> = row_acceptable P d (subs ! i)"
      using i by (intro bulk_check_acceptable) simp
    finally show ?thesis .
  qed
  have b: "bulkCreate P t adm subs d =
      (d', Inr \<lparr>bs_total = length subs, bs_succeeded = length (filter br_success rs),
                bs_failed = length (filter (\<lambda>r. \<not> br_success r) rs), bs_results = rs\<rparr>)"
    using a l by (simp add: bulkCreate_def Let_def)
  show "\<exists>d' sm. bulkCreate P t adm subs d = (d', Inr sm)
          \<and> bs_total sm = length subs
          \<and> bs_succeeded sm + bs_failed sm = bs_total sm
          \<and> length (bs_results sm) = length subs
          \<and> map br_index (bs_results sm) = [0 ..< length subs]
          \<and> (\<forall>i < length subs. br_success (bs_results sm ! i) = row_acceptable P d (subs ! i))
          \<and> (\<forall>r \<in> set (bs_results sm). (br_error r = None) = br_success r)
          \<and> length (subscriptions d') = length (subscriptions d) + bs_succeeded sm"
    unfolding b using p ix len acc by (simp add: length_filter_partition)
qed

theorem bulkCreate_rows_independent_witness:
  "length (replicate 101 sample_subscription) > 100
   \<and> (\<exists>e. bulkCreate sample_platform sample_clock (js ''admin@company.com'')
              (replicate 101 sample_subscription) sample_db = (sample_db, Inl e))
   \<and> length sample_rows \<le> 100 \<and> counters_ok sample_db
   \<and> requireAdmin sample_platform sample_db (js ''admin@company.com'')
       = Inr (the (tbl_get (users sample_db) 2))
   \<and> (\<exists>d' sm. bulkCreate sample_platform sample_clock (js ''admin@company.com'') sample_rows sample_db
                 = (d', Inr sm)
          \<and> bs_total sm = 3 \<and> bs_succeeded sm + bs_failed sm = 3
          \<and> br_success (bs_results sm ! 0) \<and> \<not> br_success (bs_results sm ! 1)
          \<and> br_success (bs_results sm ! 2))"
proof -
  let ?adm = "js ''admin@company.com''"
  have big: "length (replicate 101 sample_subscription) > 100"
    by simp
  have len: "length sample_rows = 3"
    by (simp add: sample_rows_def)
  have co: "counters_ok sample_db"
    by code_simp
  have adm: "requireAdmin sample_platform sample_db ?adm = Inr (the (tbl_get (users sample_db) 2))"
    by code_simp
  have r0: "row_acceptable sample_platform sample_db (sample_rows ! 0)"
    by code_simp
  have r1: "\<not> row_acceptable sample_platform sample_db (sample_rows ! 1)"
    by code_simp
  have r2: "row_acceptable sample_platform sample_db (sample_rows ! 2)"
    by code_simp
  from bulkCreate_rows_independent
         [of "replicate 101 sample_subscription" sample_platform sample_clock ?adm sample_db] big
  have one: "\<exists>e. bulkCreate sample_platform sample_clock ?adm (replicate 101 sample_subscription) sample_db
                = (sample_db, Inl e)"
    by blast
  from bulkCreate_rows_independent
         [of sample_rows sample_platform sample_clock ?adm sample_db "the (tbl_get (users sample_db) 2)"]
       len co adm
  obtain d' sm where
    b: "bulkCreate sample_platform sample_clock ?adm sample_rows sample_db = (d', Inr sm)"
    and t: "bs_total sm = 3" "bs_succeeded sm + bs_failed sm = bs_total sm"
    and a: "\<forall>i < 3. br_success (bs_results sm ! i) = row_acceptable sample_platform sample_db (sample_rows ! i)"
    by auto
  from a r0 r1 r2 have "br_success (bs_results sm ! 0) \<and> \<not> br_success (bs_results sm ! 1)
      \<and> br_success (bs_results sm ! 2)"
    by simp
  with b t have two: "\<exists>d' sm. bulkCreate sample_platform sample_clock ?adm sample_rows sample_db
                 = (d', Inr sm)
          \<and> bs_total sm = 3 \<and> bs_succeeded sm + bs_failed sm = 3
          \<and> br_success (bs_results sm ! 0) \<and> \<not> br_success (bs_results sm ! 1)
          \<and> br_success (bs_results sm ! 2)"
    by auto
  from big one len co adm two show ?thesis by simp
qed

section \<open>Properties of the review of requests\<close>

lemma tbl_get_patch_other: "i \<noteq> j \<Longrightarrow> tbl_get (tbl_patch tb j f) i = tbl_get tb i"
  by (induction tb) (auto simp: tbl_get_def tbl_patch_def)

lemma tbl_get_patch_same: "tbl_get tb i = Some r \<Longrightarrow> tbl_get (tbl_patch tb i f) i = Some (f r)"
proof (induction tb)
  case Nil
  then show ?case by (simp add: tbl_get_def)
next
  case (Cons a tb)
  obtain j x where a: "a = (j, x)" by (cases a)
  from Cons show ?case
    by (cases "j = i") (simp_all add: tbl_get_def tbl_patch_def a)
qed

lemma tbl_get_append: "tbl_get tb i = Some r \<Longrightarrow> tbl_get (tb @ xs) i = Some r"
  by (simp add: tbl_get_def)

lemma generateReferenceNumber_frame:
  assumes "generateReferenceNumber y ty d = (d', x)"
  shows "subscriptionRequests d' = subscriptionRequests d \<and> subscriptions d' = subscriptions d
     \<and> auditLogs d' = auditLogs d \<and> credentials d' = credentials d \<and> users d' = users d
     \<and> rateLimits d' = rateLimits d \<and> categories d' = categories d \<and> currencies d' = currencies d"
  using assms
  by (auto simp: generateReferenceNumber_def Let_def split: sum.splits option.splits prod.splits)

lemma updateRateLimit_frame:
  "subscriptionRequests (updateRateLimit n k l d) = subscriptionRequests d
   \<and> subscriptions (updateRateLimit n k l d) = subscriptions d
   \<and> auditLogs (updateRateLimit n k l d) = auditLogs d
   \<and> credentials (updateRateLimit n k l d) = credentials d
   \<and> users (updateRateLimit n k l d) = users d"
  by (auto simp: updateRateLimit_def split: option.splits)

lemma submit_write_pending:
  assumes "submit_write t f r k c cost cu bc d = (d', Inr (rid, ref))"
  shows "\<exists>row. subscriptionRequests d' = subscriptionRequests d @ [(rid, row)]
           \<and> req_status row = js ''pending''"
proof -
  obtain d1 x where g: "generateReferenceNumber (t_year t) request d = (d1, x)"
    by (cases "generateReferenceNumber (t_year t) request d")
  note fr = generateReferenceNumber_frame [OF g]
  from assms g fr show ?thesis
    by (cases x)
       (auto simp: submit_write_def Let_def updateRateLimit_frame split: option.splits if_splits)
qed

lemma submit_pending:
  assumes "submit P t a d = (d', Inr (rid, ref))"
  shows "\<exists>row. subscriptionRequests d' = subscriptionRequests d @ [(rid, row)]
           \<and> req_status row = js ''pending''"
  using assms
  by (auto simp: submit_def Let_def split: sum.splits dest: submit_write_pending)

lemma submit_optional_pending:
  assumes "submit_optional P t a d = (d', Inr (rid, ref))"
  shows "\<exists>row. subscriptionRequests d' = subscriptionRequests d @ [(rid, row)]
           \<and> req_status row = js ''pending''"
  using assms
  by (auto simp: submit_optional_def Let_def split: sum.splits dest: submit_write_pending)

lemma approve_not_pending:
  assumes "tbl_get (subscriptionRequests d) i = Some req" "req_status req \<noteq> js ''pending''"
  shows "\<exists>e. approve P t adm i notes d = (d, Inl e)"
  using assms by (auto simp: approve_def Let_def split: sum.splits)

lemma reject_not_pending:
  assumes "tbl_get (subscriptionRequests d) i = Some req" "req_status req \<noteq> js ''pending''"
  shows "\<exists>e. reject P t adm i notes d = (d, Inl e)"
  using assms by (auto simp: reject_def Let_def split: sum.splits)

lemma approve_success:
  assumes "approve P t adm i notes d = (d', Inr x)"
  shows "(\<exists>req. tbl_get (subscriptionRequests d) i = Some req \<and> req_status req = js ''pending'')
     \<and> (\<exists>req'. tbl_get (subscriptionRequests d') i = Some req' \<and> req_status req' = js ''approved'')
     \<and> (\<forall>j. j \<noteq> i \<longrightarrow> tbl_get (subscriptionRequests d') j = tbl_get (subscriptionRequests d) j)"
proof -
  obtain d1 y where g: "generateReferenceNumber (t_year t) subscription d = (d1, y)"
    by (cases "generateReferenceNumber (t_year t) subscription d")
  note fr = generateReferenceNumber_frame [OF g]
  from assms g fr show ?thesis
    by (cases y)
       (auto simp: approve_def Let_def insert_subscription_def tbl_get_patch_same tbl_get_patch_other
             split: sum.splits option.splits if_splits)
qed

lemma reject_success:
  assumes "reject P t adm i notes d = (d', Inr x)"
  shows "(\<exists>req. tbl_get (subscriptionRequests d) i = Some req \<and> req_status req = js ''pending'')
     \<and> (\<exists>req'. tbl_get (subscriptionRequests d') i = Some req' \<and> req_status req' = js ''rejected'')
     \<and> (\<forall>j. j \<noteq> i \<longrightarrow> tbl_get (subscriptionRequests d') j = tbl_get (subscriptionRequests d) j)"
  using assms
  by (auto simp: reject_def Let_def tbl_get_patch_same tbl_get_patch_other
           split: sum.splits option.splits if_splits)


lemma run_request_op_keeps:
  assumes r: "tbl_get (subscriptionRequests d) i = Some req" and n: "req_status req \<noteq> js ''pending''"
  shows "tbl_get (subscriptionRequests (run_request_op P d op)) i = Some req"
proof (cases op)
  case (Submit t a)
  obtain d' x where s: "submit P t a d = (d', x)"
    by (cases "submit P t a d")
  show ?thesis
  proof (cases x)
    case (Inl e)
    with Submit s r show ?thesis by (simp add: run_mutation_def)
  next
    case (Inr y)
    obtain rid ref where y: "y = (rid, ref)" by (cases y)
    from submit_pending [OF s [unfolded Inr y]] r Submit s Inr show ?thesis
      by (auto simp: run_mutation_def tbl_get_append)
  qed
next
  case (SubmitOptional t a)
  obtain d' x where s: "submit_optional P t a d = (d', x)"
    by (cases "submit_optional P t a d")
  show ?thesis
  proof (cases x)
    case (Inl e)
    with SubmitOptional s r show ?thesis by (simp add: run_mutation_def)
  next
    case (Inr y)
    obtain rid ref where y: "y = (rid, ref)" by (cases y)
    from submit_optional_pending [OF s [unfolded Inr y]] r SubmitOptional s Inr show ?thesis
      by (auto simp: run_mutation_def tbl_get_append)
  qed
next
  case (Approve t adm j nts)
  obtain d' x where s: "approve P t adm j nts d = (d', x)"
    by (cases "approve P t adm j nts d")
  show ?thesis
  proof (cases x)
    case (Inl e)
    with Approve s r show ?thesis by (simp add: run_mutation_def)
  next
    case (Inr y)
    have ji: "j \<noteq> i"
    proof
      assume "j = i"
      with approve_not_pending [OF r n, of P t adm nts] s Inr show False by auto
    qed
    with approve_success [OF s [unfolded Inr]]
    have "tbl_get (subscriptionRequests d') i = tbl_get (subscriptionRequests d) i"
      by auto
    with Approve s Inr r show ?thesis by (simp add: run_mutation_def)
  qed
next
  case (Reject t adm j nts)
  obtain d' x where s: "reject P t adm j nts d = (d', x)"
    by (cases "reject P t adm j nts d")
  show ?thesis
  proof (cases x)
    case (Inl e)
    with Reject s r show ?thesis by (simp add: run_mutation_def)
  next
    case (Inr y)
    have ji: "j \<noteq> i"
    proof
      assume "j = i"
      with reject_not_pending [OF r n, of P t adm nts] s Inr show False by auto
    qed
    with reject_success [OF s [unfolded Inr]]
    have "tbl_get (subscriptionRequests d') i = tbl_get (subscriptionRequests d) i"
      by auto
    with Reject s Inr r show ?thesis by (simp add: run_mutation_def)
  qed
qed

lemma run_request_ops_keeps:
  assumes "tbl_get (subscriptionRequests d) i = Some req" and "req_status req \<noteq> js ''pending''"
  shows "tbl_get (subscriptionRequests (run_request_ops P ops d)) i = Some req"
  using assms
proof (induction ops arbitrary: d)
  case Nil
  then show ?case by (simp add: run_request_ops_def)
next
  case (Cons op ops)
  from Cons.IH [OF run_request_op_keeps [OF Cons.prems, of P op] Cons.prems(2)]
  show ?case by (simp add: run_request_ops_def)
qed

text \<open>
  C3. Both submission handlers store a new request with status \<open>pending\<close>. \<open>approve\<close>
  and \<open>reject\<close> throw, and write nothing, when the request's status is not
  \<open>pending\<close>; when they succeed the status was \<open>pending\<close> and is \<open>approved\<close>,
  respectively \<open>rejected\<close>, afterwards. Hence a request that is no longer pending stays
  as it is through every sequence of submissions, approvals and rejections.
\<close>

theorem request_status_lifecycle:
  "(submit P t a d = (d1, Inr (rid, ref)) \<longrightarrow>
      (\<exists>row. subscriptionRequests d1 = subscriptionRequests d @ [(rid, row)]
             \<and> req_status row = js ''pending''))
   \<and> (submit_optional P t b d = (d2, Inr (rid2, ref2)) \<longrightarrow>
      (\<exists>row. subscriptionRequests d2 = subscriptionRequests d @ [(rid2, row)]
             \<and> req_status row = js ''pending''))
   \<and> (tbl_get (subscriptionRequests d) i = Some req \<and> req_status req \<noteq> js ''pending'' \<longrightarrow>
        (\<exists>e. approve P t adm i notes d = (d, Inl e))
      \<and> (\<exists>e. reject P t adm i reason d = (d, Inl e))
      \<and> tbl_get (subscriptionRequests (run_request_ops P ops d)) i = Some req)
   \<and> (approve P t adm i notes d = (d3, Inr x) \<longrightarrow>
        (\<exists>r. tbl_get (subscriptionRequests d) i = Some r \<and> req_status r = js ''pending'')
      \<and> (\<exists>r. tbl_get (subscriptionRequests d3) i = Some r \<and> req_status r = js ''approved''))
   \<and> (reject P t adm i reason d = (d4, Inr y) \<longrightarrow>
        (\<exists>r. tbl_get (subscriptionRequests d) i = Some r \<and> req_status r = js ''pending'')
      \<and> (\<exists>r. tbl_get (subscriptionRequests d4) i = Some r \<and> req_status r = js ''rejected''))"
  using submit_pending [of P t a d d1 rid ref] submit_optional_pending [of P t b d d2 rid2 ref2]
    approve_not_pending [of d i req P t adm "notes"] reject_not_pending [of d i req P t adm reason]
    run_request_ops_keeps [of d i req P ops]
    approve_success [of P t adm i "notes" d d3 x] reject_success [of P t adm i reason d d4 y]
  by blast



theorem request_status_lifecycle_witness:
  "submit sample_platform sample_clock sample_submit sample_db
     = (sample_pending, Inr (6, js ''REQ-2026-001''))
   \<and> (\<exists>row. subscriptionRequests sample_pending = subscriptionRequests sample_db @ [(6, row)]
             \<and> req_status row = js ''pending'')
   \<and> (\<exists>d2 row. submit_optional sample_platform sample_clock sample_submit_opt sample_db
                 = (d2, Inr (6, js ''REQ-2026-001''))
             \<and> subscriptionRequests d2 = subscriptionRequests sample_db @ [(6, row)]
             \<and> req_status row = js ''pending'')
   \<and> approve sample_platform sample_clock (js ''admin@company.com'') 6 None sample_pending
     = (sample_approved, Inr (6, 8))
   \<and> (\<exists>r. tbl_get (subscriptionRequests sample_approved) 6 = Some r \<and> req_status r = js ''approved'')
   \<and> reject sample_platform sample_clock (js ''admin@company.com'') 6
         (js ''Not in the budget of this quarter'') sample_pending
     = (sample_rejected, Inr 6)
   \<and> (\<exists>r. tbl_get (subscriptionRequests sample_rejected) 6 = Some r \<and> req_status r = js ''rejected'')
   \<and> (\<exists>e. approve sample_platform sample_clock (js ''admin@company.com'') 6 None sample_approved
            = (sample_approved, Inl e))
   \<and> (\<exists>e. reject sample_platform sample_clock (js ''admin@company.com'') 6
              (js ''Not in the budget of this quarter'') sample_approved
            = (sample_approved, Inl e))
   \<and> tbl_get (subscriptionRequests
         (run_request_ops sample_platform
            [Reject sample_clock (js ''admin@company.com'') 6 (js ''Not in the budget of this quarter''),
             Submit sample_clock sample_submit,
             Approve sample_clock (js ''admin@company.com'') 6 None] sample_approved)) 6
     = tbl_get (subscriptionRequests sample_approved) 6"
proof -
  let ?adm = "js ''admin@company.com''"
  let ?why = "js ''Not in the budget of this quarter''"
  let ?ops = "[Reject sample_clock ?adm 6 ?why, Submit sample_clock sample_submit,
               Approve sample_clock ?adm 6 None]"
  let ?o = "submit_optional sample_platform sample_clock sample_submit_opt sample_db"
  let ?req = "the (tbl_get (subscriptionRequests sample_approved) 6)"
  have s: "submit sample_platform sample_clock sample_submit sample_db
      = (sample_pending, Inr (6, js ''REQ-2026-001''))"
    by code_simp
  have "snd ?o = Inr (6, js ''REQ-2026-001'')"
    by code_simp
  then have o: "?o = (fst ?o, Inr (6, js ''REQ-2026-001''))"
    by (simp add: prod_eq_iff)
  have a: "approve sample_platform sample_clock ?adm 6 None sample_pending = (sample_approved, Inr (6, 8))"
    by code_simp
  have r: "reject sample_platform sample_clock ?adm 6 ?why sample_pending = (sample_rejected, Inr 6)"
    by code_simp
  have q: "tbl_get (subscriptionRequests sample_approved) 6 = Some ?req"
    by code_simp
  have n: "req_status ?req \<noteq> js ''pending''"
    by code_simp
  from request_status_lifecycle
         [of sample_platform sample_clock sample_submit sample_db sample_pending 6 "js ''REQ-2026-001''"
             sample_submit_opt "fst ?o" 6 "js ''REQ-2026-001''" 0 undefined ?adm None ?why "[]"
             undefined undefined undefined undefined] s o
  have one: "(\<exists>row. subscriptionRequests sample_pending = subscriptionRequests sample_db @ [(6, row)]
             \<and> req_status row = js ''pending'')
     \<and> (\<exists>row. subscriptionRequests (fst ?o) = subscriptionRequests sample_db @ [(6, row)]
             \<and> req_status row = js ''pending'')"
    by blast
  from request_status_lifecycle
         [of sample_platform sample_clock sample_submit sample_pending undefined 0 undefined
             sample_submit_opt undefined 0 undefined 6 undefined ?adm None ?why "[]"
             sample_approved "(6, 8)" sample_rejected 6] a r
  have two: "(\<exists>r. tbl_get (subscriptionRequests sample_approved) 6 = Some r \<and> req_status r = js ''approved'')
     \<and> (\<exists>r. tbl_get (subscriptionRequests sample_rejected) 6 = Some r \<and> req_status r = js ''rejected'')"
    by blast
  from request_status_lifecycle
         [of sample_platform sample_clock sample_submit sample_approved undefined 0 undefined
             sample_submit_opt undefined 0 undefined 6 ?req ?adm None ?why ?ops
             undefined undefined undefined undefined] q n
  have three: "(\<exists>e. approve sample_platform sample_clock ?adm 6 None sample_approved = (sample_approved, Inl e))
     \<and> (\<exists>e. reject sample_platform sample_clock ?adm 6 ?why sample_approved = (sample_approved, Inl e))
     \<and> tbl_get (subscriptionRequests (run_request_ops sample_platform ?ops sample_approved)) 6
         = tbl_get (subscriptionRequests sample_approved) 6"
    by simp
  from s o a r one two three show ?thesis
    by (metis (no_types, lifting))
qed


lemma days_in_month_ge: "28 \<le> days_in_month y m"
  by (simp add: days_in_month_def)

lemma roll_days_small: "d \<le> 28 \<Longrightarrow> roll_days y m d = (y, m, d)"
  using days_in_month_ge [of y m] by (subst roll_days.simps) simp

lemma nextRenewalDate_months:
  assumes "t_month t < 12"
  shows "nextRenewalDate t c
     = roll_days (t_year t + (t_month t + cycle_months c) div 12)
         ((t_month t + cycle_months c) mod 12) (t_day t)"
  using assms
  by (simp add: nextRenewalDate_def cycle_months_def setMonth_def setFullYear_def js_def)

lemma roll_days_once:
  assumes "m < 12" and "d \<le> 31"
  shows "roll_days y m d =
     (if d \<le> days_in_month y m then (y, m, d) else (y, m + 1, d - days_in_month y m))"
proof (cases "d \<le> days_in_month y m")
  case True
  then show ?thesis by (subst roll_days.simps) simp
next
  case False
  with assms(2) have "days_in_month y m < 31"
    by simp
  then have m: "m \<noteq> 11"
    by (auto simp: days_in_month_def)
  with assms(1) have m': "\<not> m \<ge> 11"
    by simp
  from assms(2) days_in_month_ge [of y m] have "d - days_in_month y m \<le> 28"
    by simp
  from roll_days_small [OF this] False m' show ?thesis
    by (subst roll_days.simps) simp
qed

lemma days_in_month_explicit:
  "days_in_month y m =
     (if m = 1 then (if y mod 4 = 0 \<and> (y mod 100 \<noteq> 0 \<or> y mod 400 = 0) then 29 else 28)
      else if m \<in> {3, 5, 8, 10} then 30 else 31)"
  by (simp add: days_in_month_def is_leap_def)

text \<open>
  C4, as amended. When an admin approves a pending request (with admin notes of at most
  1000 characters and well-formed counters), \<open>approve\<close> returns and appends one
  subscription. The descriptive fields are those of the request, and paymentMethod,
  status, notificationEnabled and notificationDaysBefore are \<open>other\<close>, \<open>active\<close>,
  true and 7. Its nextRenewalDate is the ISO date found as follows: the month of the
  approval day is moved forward by the months of the billing cycle (1 for monthly and
  for any unnamed cycle, 3 for quarterly, 6 for half-yearly, 12 for yearly), into the
  following years when it passes December; the day of the month is kept when the target
  month has that day; otherwise (an approval on the 29th, 30th or 31st) the date is in
  the month after the target month, on the day that is the approval day less the length
  of the target month.
\<close>

theorem approve_creates_subscription:
  assumes adm: "requireAdmin P d adminEmail = Inr admin"
    and nt: "\<not> (truthy (when_truthy adminNotes sanitizeString)
                \<and> length (the (when_truthy adminNotes sanitizeString)) > 1000)"
    and rq: "tbl_get (subscriptionRequests d) i = Some req" "req_status req = js ''pending''"
    and co: "counters_ok d"
    and mo: "t_month t < 12" and da: "1 \<le> t_day t" "t_day t \<le> 31"
    and y: "y = t_year t + (t_month t + cycle_months (req_billingCycle req)) div 12"
    and m: "m = (t_month t + cycle_months (req_billingCycle req)) mod 12"
    and len: "len = (if m = 1 then (if y mod 4 = 0 \<and> (y mod 100 \<noteq> 0 \<or> y mod 400 = 0) then 29 else 28)
                     else if m \<in> {3, 5, 8, 10} then 30 else 31)"
  shows "\<exists>d' sid ref. approve P t adminEmail i adminNotes d = (d', Inr (i, sid))
     \<and> subscriptions d' = subscriptions d @
           [(sid, \<lparr>sub_referenceNumber = ref,
                   sub_name = req_name req,
                   sub_description = req_description req,
                   sub_provider = or_empty (req_provider req),
                   sub_categoryId = req_categoryId req,
                   sub_cost = req_cost req,
                   sub_currencyId = req_currencyId req,
                   sub_billingCycle = req_billingCycle req,
                   sub_nextRenewalDate =
                     isoDate (if t_day t \<le> len then (y, m, t_day t) else (y, m + 1, t_day t - len)),
                   sub_paymentMethod = js ''other'',
                   sub_status = js ''active'',
                   sub_notificationEnabled = True,
                   sub_notificationDaysBefore = Fin 7\<rparr>)]"
proof -
  from generateReferenceNumber_ok [OF co, of "t_year t" subscription] obtain d1 ref where
    g: "generateReferenceNumber (t_year t) subscription d = (d1, Inr ref)"
    and d1: "subscriptions d1 = subscriptions d"
    by blast
  have l: "len = days_in_month y m"
    unfolding len by (simp only: days_in_month_explicit)
  have m12: "m < 12"
    unfolding m by simp
  have n: "nextRenewalDate t (req_billingCycle req)
      = (if t_day t \<le> len then (y, m, t_day t) else (y, m + 1, t_day t - len))"
    unfolding nextRenewalDate_months [OF mo] l y [symmetric] m [symmetric]
    by (rule roll_days_once [OF m12 da(2)])
  show ?thesis
    using adm nt rq g d1
    by (simp add: approve_def Let_def insert_subscription_def n)
qed


theorem approve_creates_subscription_witness:
  "requireAdmin sample_platform sample_pending (js ''admin@company.com'')
     = Inr (the (tbl_get (users sample_db) 2))
   \<and> tbl_get (subscriptionRequests sample_pending) 6 = Some sample_request
   \<and> req_status sample_request = js ''pending'' \<and> req_billingCycle sample_request = js ''monthly''
   \<and> counters_ok sample_pending
   \<and> (\<exists>d' sid. approve sample_platform sample_clock (js ''admin@company.com'') 6 None sample_pending
                  = (d', Inr (6, sid))
          \<and> map (sub_nextRenewalDate \<circ> snd) (subscriptions d') = [js ''2026-02-15''])
   \<and> (\<exists>d' sid. approve sample_platform sample_month_end (js ''admin@company.com'') 6 None sample_pending
                  = (d', Inr (6, sid))
          \<and> map (sub_nextRenewalDate \<circ> snd) (subscriptions d') = [js ''2026-03-03''])
   \<and> (\<exists>d' sid. approve sample_platform sample_leap_day (js ''admin@company.com'') 6 None
                    sample_pending_yearly
                  = (d', Inr (6, sid))
          \<and> map (sub_nextRenewalDate \<circ> snd) (subscriptions d') = [js ''2029-03-01''])"
proof -
  let ?adm = "js ''admin@company.com''"
  let ?yearly = "sample_request\<lparr>req_billingCycle := js ''yearly''\<rparr>"
  have adm: "requireAdmin sample_platform sample_pending ?adm = Inr (the (tbl_get (users sample_db) 2))"
    by code_simp
  have adm': "requireAdmin sample_platform sample_pending_yearly ?adm
      = Inr (the (tbl_get (users sample_db) 2))"
    by code_simp
  have nt: "\<not> (truthy (when_truthy None sanitizeString)
                \<and> length (the (when_truthy None sanitizeString)) > 1000)"
    by (simp add: when_truthy_def truthy_def)
  have rq: "tbl_get (subscriptionRequests sample_pending) 6 = Some sample_request"
    by code_simp
  have rq': "tbl_get (subscriptionRequests sample_pending_yearly) 6 = Some ?yearly"
    by code_simp
  have st: "req_status sample_request = js ''pending''" "req_billingCycle sample_request = js ''monthly''"
    by (simp_all add: sample_request_def)
  have st': "req_status ?yearly = js ''pending''"
    by (simp add: sample_request_def)
  have co: "counters_ok sample_pending"
    by code_simp
  have co': "counters_ok sample_pending_yearly"
    by code_simp
  have su: "subscriptions sample_pending = []" "subscriptions sample_pending_yearly = []"
    by (simp_all add: sample_pending_yearly_def sample_pending_def sample_db_def empty_db_def)
  have cm: "cycle_months (js ''monthly'') = 1" "cycle_months (js ''yearly'') = 12"
    by (simp_all add: cycle_months_def js_def)
  have dt: "isoDate (2026, Suc 0, 15) = js ''2026-02-15''"
    "isoDate (2026, Suc (Suc 0), 3) = js ''2026-03-03''" "isoDate (2026, 2, 3) = js ''2026-03-03''"
    "isoDate (2029, Suc (Suc 0), Suc 0) = js ''2029-03-01''"
    "isoDate (2029, 2, Suc 0) = js ''2029-03-01''"
    by (simp_all add: isoDate_def padStart_def toString_small toString_large digit_def js_def
          numeral_2_eq_2)
  from approve_creates_subscription [OF adm nt rq st(1) co _ _ _ refl refl refl, of sample_clock]
  have one: "\<exists>d' sid. approve sample_platform sample_clock ?adm 6 None sample_pending = (d', Inr (6, sid))
          \<and> map (sub_nextRenewalDate \<circ> snd) (subscriptions d') = [js ''2026-02-15'']"
    by (auto simp: st su cm dt sample_clock_def)
  from approve_creates_subscription [OF adm nt rq st(1) co _ _ _ refl refl refl, of sample_month_end]
  have two: "\<exists>d' sid. approve sample_platform sample_month_end ?adm 6 None sample_pending
                  = (d', Inr (6, sid))
          \<and> map (sub_nextRenewalDate \<circ> snd) (subscriptions d') = [js ''2026-03-03'']"
    by (auto simp: st su cm dt sample_month_end_def)
  from approve_creates_subscription [OF adm' nt rq' st' co' _ _ _ refl refl refl, of sample_leap_day]
  have three: "\<exists>d' sid. approve sample_platform sample_leap_day ?adm 6 None sample_pending_yearly
                  = (d', Inr (6, sid))
          \<and> map (sub_nextRenewalDate \<circ> snd) (subscriptions d') = [js ''2029-03-01'']"
    by (auto simp: su cm dt sample_leap_day_def)
  from adm rq st co one two three show ?thesis by blast
qed

text \<open>
  The claim as stated fails for an approval on a day that the target month does not
  have: a monthly request approved on 2026-01-31 is renewed on 2026-03-03, which is not
  in the month after January, and a yearly request approved on 2028-02-29 is renewed on
  2029-03-01.
\<close>

theorem approve_creates_subscription_counterexample:
  "req_billingCycle sample_request = js ''monthly''
   \<and> snd (approve sample_platform sample_month_end (js ''admin@company.com'') 6 None sample_pending)
       = Inr (6, 8)
   \<and> map (sub_nextRenewalDate \<circ> snd)
         (subscriptions (fst (approve sample_platform sample_month_end (js ''admin@company.com'') 6
                                None sample_pending)))
       = [js ''2026-03-03'']
   \<and> snd (approve sample_platform sample_leap_day (js ''admin@company.com'') 6 None
             sample_pending_yearly)
       = Inr (6, 8)
   \<and> map (sub_nextRenewalDate \<circ> snd)
         (subscriptions (fst (approve sample_platform sample_leap_day (js ''admin@company.com'') 6
                                None sample_pending_yearly)))
       = [js ''2029-03-01'']"
proof (intro conjI)
  show "req_billingCycle sample_request = js ''monthly''"
    by (simp add: sample_request_def)
  show "snd (approve sample_platform sample_month_end (js ''admin@company.com'') 6 None sample_pending)
       = Inr (6, 8)"
    by code_simp
  show "map (sub_nextRenewalDate \<circ> snd)
         (subscriptions (fst (approve sample_platform sample_month_end (js ''admin@company.com'') 6
                                None sample_pending)))
       = [js ''2026-03-03'']"
    by code_simp
  show "snd (approve sample_platform sample_leap_day (js ''admin@company.com'') 6 None
             sample_pending_yearly)
       = Inr (6, 8)"
    by code_simp
  show "map (sub_nextRenewalDate \<circ> snd)
         (subscriptions (fst (approve sample_platform sample_leap_day (js ''admin@company.com'') 6
                                None sample_pending_yearly)))
       = [js ''2029-03-01'']"
    by code_simp
qed

section \<open>Properties of the credential cipher\<close>

(*THMS*)
declare utf8_decode.simps [simp del]

lemma dec_lead1: "b \<le> 127 \<Longrightarrow> utf8_decode 0 cp lo hi (b # bs) = b # utf8_decode 0 0 128 191 bs"
  by (subst utf8_decode.simps) simp

lemma dec_lead2:
  "194 \<le> b \<Longrightarrow> b \<le> 223 \<Longrightarrow> utf8_decode 0 cp lo hi (b # bs) = utf8_decode 1 (b mod 32) 128 191 bs"
  by (subst utf8_decode.simps) simp

lemma dec_lead3:
  "224 \<le> b \<Longrightarrow> b \<le> 239 \<Longrightarrow>
   utf8_decode 0 cp lo hi (b # bs)
     = utf8_decode 2 (b mod 16) (if b = 224 then 160 else 128) (if b = 237 then 159 else 191) bs"
  by (subst utf8_decode.simps) simp

lemma dec_lead4:
  "240 \<le> b \<Longrightarrow> b \<le> 244 \<Longrightarrow>
   utf8_decode 0 cp lo hi (b # bs)
     = utf8_decode 3 (b mod 8) (if b = 240 then 144 else 128) (if b = 244 then 143 else 191) bs"
  by (subst utf8_decode.simps) simp

lemma dec_last:
  "lo \<le> b \<Longrightarrow> b \<le> hi \<Longrightarrow>
   utf8_decode 1 cp lo hi (b # bs) = (cp * 64 + b mod 64) # utf8_decode 0 0 128 191 bs"
  by (subst utf8_decode.simps) simp

lemma dec_cont:
  "lo \<le> b \<Longrightarrow> b \<le> hi \<Longrightarrow> 1 < need \<Longrightarrow>
   utf8_decode need cp lo hi (b # bs) = utf8_decode (need - 1) (cp * 64 + b mod 64) 128 191 bs"
  by (subst utf8_decode.simps) simp


lemma utf8_one:
  assumes "cp < 0x80"
  shows "utf8_decode 0 0 128 191 (utf8_bytes cp @ rest) = cp # utf8_decode 0 0 128 191 rest"
  using assms by (simp add: utf8_bytes_def dec_lead1)

lemma mod_lead: "q < n \<Longrightarrow> (n * k + q) mod n = (q::nat)"
  by simp

lemma div_4096: "(cp::nat) div 4096 = cp div 64 div 64"
  using div_mult2_eq [of cp 64 64] by simp

lemma div_262144: "(cp::nat) div 262144 = cp div 64 div 64 div 64"
  using div_mult2_eq [of cp 4096 64] by (simp add: div_4096)

lemma utf8_two:
  assumes "0x80 \<le> cp" "cp < 0x800"
  shows "utf8_decode 0 0 128 191 (utf8_bytes cp @ rest) = cp # utf8_decode 0 0 128 191 rest"
proof -
  define q where "q = cp div 64"
  define r where "r = cp mod 64"
  have cp: "q * 64 + r = cp" by (simp add: q_def r_def)
  have r: "r < 64" by (simp add: r_def)
  have q: "2 \<le> q" "q < 32" using assms cp r by linarith+
  have b1: "(192 + q) mod 32 = q" using mod_lead [of q 32 6] q by simp
  have b2: "(128 + r) mod 64 = r" using mod_lead [of r 64 2] r by simp
  have l1: "194 \<le> 192 + q" "192 + q \<le> 223" using q by simp_all
  have l2: "128 \<le> 128 + r" "128 + r \<le> 191" using r by simp_all
  have "utf8_bytes cp = [192 + q, 128 + r]"
    using assms by (simp add: utf8_bytes_def q_def r_def)
  then have "utf8_decode 0 0 128 191 (utf8_bytes cp @ rest)
      = utf8_decode 0 0 128 191 ((192 + q) # (128 + r) # rest)"
    by simp
  also have "\<dots> = utf8_decode 1 q 128 191 ((128 + r) # rest)"
    by (simp only: dec_lead2 [OF l1] b1)
  also have "\<dots> = (q * 64 + r) # utf8_decode 0 0 128 191 rest"
    by (simp only: dec_last [OF l2] b2)
  finally show ?thesis by (simp only: cp)
qed

lemma utf8_three:
  assumes "0x800 \<le> cp" "cp < 0x10000" "cp < 0xD800 \<or> 0xE000 \<le> cp"
  shows "utf8_decode 0 0 128 191 (utf8_bytes cp @ rest) = cp # utf8_decode 0 0 128 191 rest"
proof -
  define u where "u = cp div 64"
  define r where "r = cp mod 64"
  define a where "a = u div 64"
  define m where "m = u mod 64"
  have e1: "u * 64 + r = cp" by (simp add: u_def r_def)
  have e2: "a * 64 + m = u" by (simp add: a_def m_def)
  have cp: "(a * 64 + m) * 64 + r = cp" by (simp only: e1 e2)
  have r: "r < 64" by (simp add: r_def)
  have m: "m < 64" by (simp add: m_def)
  have a: "a < 16" using assms e1 e2 r m by linarith
  have a0: "32 \<le> m" if "a = 0" using that assms e1 e2 r m by linarith
  have a13: "m < 32" if "a = 13" using that assms e1 e2 r m by linarith
  have b1: "(224 + a) mod 16 = a" using mod_lead [of a 16 14] a by simp
  have b2: "(128 + m) mod 64 = m" using mod_lead [of m 64 2] m by simp
  have b3: "(128 + r) mod 64 = r" using mod_lead [of r 64 2] r by simp
  have l1: "224 \<le> 224 + a" "224 + a \<le> 239" using a by simp_all
  have l2: "(if 224 + a = 224 then 160 else 128) \<le> 128 + m"
    "128 + m \<le> (if 224 + a = 237 then 159 else 191)"
    using a0 a13 m by auto
  have l3: "128 \<le> 128 + r" "128 + r \<le> 191" using r by simp_all
  have "utf8_bytes cp = [224 + a, 128 + m, 128 + r]"
    using assms by (simp add: utf8_bytes_def a_def m_def r_def u_def div_4096)
  then have "utf8_decode 0 0 128 191 (utf8_bytes cp @ rest)
      = utf8_decode 0 0 128 191 ((224 + a) # (128 + m) # (128 + r) # rest)"
    by simp
  also have "\<dots> = utf8_decode 2 a (if 224 + a = 224 then 160 else 128)
                       (if 224 + a = 237 then 159 else 191) ((128 + m) # (128 + r) # rest)"
    by (simp only: dec_lead3 [OF l1] b1)
  also have "\<dots> = utf8_decode 1 (a * 64 + m) 128 191 ((128 + r) # rest)"
    using dec_cont [OF l2, of 2 a "(128 + r) # rest"] by (simp only: b2) simp
  also have "\<dots> = ((a * 64 + m) * 64 + r) # utf8_decode 0 0 128 191 rest"
    by (simp only: dec_last [OF l3] b3)
  finally show ?thesis by (simp only: cp)
qed

lemma utf8_four:
  assumes "0x10000 \<le> cp" "cp \<le> 0x10FFFF"
  shows "utf8_decode 0 0 128 191 (utf8_bytes cp @ rest) = cp # utf8_decode 0 0 128 191 rest"
proof -
  define u where "u = cp div 64"
  define r where "r = cp mod 64"
  define v where "v = u div 64"
  define m where "m = u mod 64"
  define a where "a = v div 64"
  define n where "n = v mod 64"
  have e1: "u * 64 + r = cp" by (simp add: u_def r_def)
  have e2: "v * 64 + m = u" by (simp add: v_def m_def)
  have e3: "a * 64 + n = v" by (simp add: a_def n_def)
  have cp: "((a * 64 + n) * 64 + m) * 64 + r = cp" by (simp only: e1 e2 e3)
  have r: "r < 64" by (simp add: r_def)
  have m: "m < 64" by (simp add: m_def)
  have n: "n < 64" by (simp add: n_def)
  have a: "a \<le> 4" using assms e1 e2 e3 r m n by linarith
  have a0: "16 \<le> n" if "a = 0" using that assms e1 e2 e3 r m n by linarith
  have a4: "n < 16" if "a = 4" using that assms e1 e2 e3 r m n by linarith
  have b1: "(240 + a) mod 8 = a" using mod_lead [of a 8 30] a by simp
  have b2: "(128 + n) mod 64 = n" using mod_lead [of n 64 2] n by simp
  have b3: "(128 + m) mod 64 = m" using mod_lead [of m 64 2] m by simp
  have b4: "(128 + r) mod 64 = r" using mod_lead [of r 64 2] r by simp
  have l1: "240 \<le> 240 + a" "240 + a \<le> 244" using a by simp_all
  have l2: "(if 240 + a = 240 then 144 else 128) \<le> 128 + n"
    "128 + n \<le> (if 240 + a = 244 then 143 else 191)"
    using a0 a4 n by auto
  have l3: "128 \<le> 128 + m" "128 + m \<le> 191" using m by simp_all
  have l4: "128 \<le> 128 + r" "128 + r \<le> 191" using r by simp_all
  have "utf8_bytes cp = [240 + a, 128 + n, 128 + m, 128 + r]"
    using assms
    by (simp add: utf8_bytes_def a_def n_def m_def r_def u_def v_def div_4096 div_262144)
  then have "utf8_decode 0 0 128 191 (utf8_bytes cp @ rest)
      = utf8_decode 0 0 128 191 ((240 + a) # (128 + n) # (128 + m) # (128 + r) # rest)"
    by simp
  also have "\<dots> = utf8_decode 3 a (if 240 + a = 240 then 144 else 128)
                       (if 240 + a = 244 then 143 else 191) ((128 + n) # (128 + m) # (128 + r) # rest)"
    by (simp only: dec_lead4 [OF l1] b1)
  also have "\<dots> = utf8_decode 2 (a * 64 + n) 128 191 ((128 + m) # (128 + r) # rest)"
    using dec_cont [OF l2, of 3 a "(128 + m) # (128 + r) # rest"] by (simp only: b2) simp
  also have "\<dots> = utf8_decode 1 ((a * 64 + n) * 64 + m) 128 191 ((128 + r) # rest)"
    using dec_cont [OF l3, of 2 "a * 64 + n" "(128 + r) # rest"] by (simp only: b3) simp
  also have "\<dots> = (((a * 64 + n) * 64 + m) * 64 + r) # utf8_decode 0 0 128 191 rest"
    by (simp only: dec_last [OF l4] b4)
  finally show ?thesis by (simp only: cp)
qed

lemma utf8_scalar:
  assumes "is_scalar cp"
  shows "utf8_decode 0 0 128 191 (utf8_bytes cp @ rest) = cp # utf8_decode 0 0 128 191 rest"
proof -
  consider "cp < 0x80" | "0x80 \<le> cp" "cp < 0x800" | "0x800 \<le> cp" "cp < 0x10000"
    | "0x10000 \<le> cp"
    by linarith
  then show ?thesis
  proof cases
    case 1 then show ?thesis by (rule utf8_one)
  next
    case 2 then show ?thesis by (rule utf8_two)
  next
    case 3 with assms show ?thesis by (intro utf8_three) (auto simp: is_scalar_def)
  next
    case 4 with assms show ?thesis by (intro utf8_four) (auto simp: is_scalar_def)
  qed
qed

lemma utf8_roundtrip:
  assumes "\<forall>cp \<in> set cps. is_scalar cp"
  shows "utf8_decode 0 0 128 191 (concat (map utf8_bytes cps)) = cps"
  using assms
proof (induction cps)
  case Nil
  show ?case by (simp add: utf8_decode.simps)
next
  case (Cons cp cps)
  then show ?case by (simp add: utf8_scalar)
qed


lemma unat16_bound: "unat (c::16 word) < 65536"
  using unsigned_less [of c, where ?'a = nat] by simp

lemma scalar_unit:
  assumes "\<not> is_high c" "\<not> is_low c"
  shows "is_scalar (scalar c)" "code_units (scalar c) = [c]"
  using assms unat16_bound [of c]
  by (auto simp: is_scalar_def scalar_def is_high_def is_low_def code_units_def)

lemma divmod_1024: "r < 1024 \<Longrightarrow> (q * 1024 + r) div 1024 = (q::nat) \<and> (q * 1024 + r) mod 1024 = r"
  by simp

lemma scalar_pair:
  assumes "is_high c" "is_low c'"
  shows "is_scalar (0x10000 + (unat c - 0xD800) * 0x400 + (unat c' - 0xDC00))"
    "code_units (0x10000 + (unat c - 0xD800) * 0x400 + (unat c' - 0xDC00)) = [c, c']"
proof -
  define q where "q = unat c - 0xD800"
  define r where "r = unat c' - 0xDC00"
  have q: "q < 1024" "0xD800 + q = unat c" using assms(1) by (auto simp: q_def is_high_def)
  have r: "r < 1024" "0xDC00 + r = unat c'" using assms(2) by (auto simp: r_def is_low_def)
  have cp: "0x10000 + (unat c - 0xD800) * 0x400 + (unat c' - 0xDC00) = 0x10000 + (q * 1024 + r)"
    by (simp add: q_def r_def)
  show "is_scalar (0x10000 + (unat c - 0xD800) * 0x400 + (unat c' - 0xDC00))"
    unfolding cp using q(1) r(1) by (simp add: is_scalar_def)
  have "code_units (0x10000 + (q * 1024 + r)) = [of_nat (0xD800 + q), of_nat (0xDC00 + r)]"
    using divmod_1024 [OF r(1), of q] by (simp add: code_units_def)
  then show "code_units (0x10000 + (unat c - 0xD800) * 0x400 + (unat c' - 0xDC00)) = [c, c']"
    unfolding cp by (simp only: q(2) r(2)) simp
qed

lemma code_points_scalar: "well_formed s \<Longrightarrow> \<forall>cp \<in> set (code_points s). is_scalar cp"
  by (induction s rule: code_points.induct) (auto simp: scalar_unit scalar_pair split: if_splits)

lemma code_units_code_points: "well_formed s \<Longrightarrow> concat (map code_units (code_points s)) = s"
  by (induction s rule: code_points.induct) (auto simp: scalar_unit scalar_pair split: if_splits)

lemma utf8_bytes_bound: "is_scalar cp \<Longrightarrow> \<forall>b \<in> set (utf8_bytes cp). b < 256"
proof -
  assume s: "is_scalar cp"
  define u where "u = cp div 64"
  define v where "v = u div 64"
  define a where "a = v div 64"
  have e: "u * 64 + cp mod 64 = cp" "v * 64 + u mod 64 = u" "a * 64 + v mod 64 = v"
    by (simp_all add: u_def v_def a_def)
  have b: "cp mod 64 < 64" "u mod 64 < 64" "v mod 64 < 64" by simp_all
  have 1: "cp < 0x800 \<Longrightarrow> u < 32" using e b by linarith
  have 2: "cp < 0x10000 \<Longrightarrow> v < 16" using e b by linarith
  have 3: "a \<le> 4" using s e b unfolding is_scalar_def by linarith
  show ?thesis
    using 1 2 3 b by (auto simp: utf8_bytes_def div_4096 div_262144 u_def [symmetric] v_def [symmetric] a_def [symmetric])
qed

lemma unat_of_nat_bytes:
  assumes "\<forall>b \<in> set bs. b < 256"
  shows "map unat (map of_nat bs :: byte list) = bs"
  using assms by (induction bs) (simp_all add: unat_of_nat)

lemma encode_bytes:
  assumes "well_formed s"
  shows "map unat (TextEncoder_encode s) = concat (map utf8_bytes (code_points s))"
  unfolding TextEncoder_encode_def
  using code_points_scalar [OF assms] utf8_bytes_bound
  by (intro unat_of_nat_bytes) auto


lemma unat8_bound: "unat (c::8 word) < 256"
  using unsigned_less [of c, where ?'a = nat] by simp

lemma btoa_sextets: "btoa bs = map b64_char (sextets bs) @ padding bs"
  by (induction bs rule: sextets.induct) simp_all

lemma sextets_bound: "\<forall>v \<in> set (sextets bs). v < 64"
proof (induction bs rule: sextets.induct)
  case 1
  show ?case by simp
next
  case (2 a)
  show ?case using unat8_bound [of a] by auto
next
  case (3 a b)
  show ?case using unat8_bound [of a] unat8_bound [of b] by auto
next
  case (4 a b c bs)
  then show ?case using unat8_bound [of a] unat8_bound [of b] unat8_bound [of c] by auto
qed

lemma divmod_gen: "r < n \<Longrightarrow> (q * n + r) div n = (q::nat) \<and> (q * n + r) mod n = r"
  by simp

lemma regroup:
  fixes a b c :: nat
  assumes "a < 256" "b < 256" "c < 256"
  shows "a div 4 * 4 + (a mod 4 * 16 + b div 16) div 16 = a"
    "(a mod 4 * 16 + b div 16) mod 16 * 16 + (b mod 16 * 4 + c div 64) div 4 = b"
    "(b mod 16 * 4 + c div 64) mod 4 * 64 + c mod 64 = c"
    "(a mod 4 * 16) div 16 = a mod 4"
    "(a mod 4 * 16 + b div 16) mod 16 * 16 + (b mod 16 * 4) div 4 = b"
proof -
  have b: "b div 16 < 16" using assms(2) by simp
  have c: "c div 64 < 4" using assms(3) by simp
  show "a div 4 * 4 + (a mod 4 * 16 + b div 16) div 16 = a"
    using divmod_gen [OF b, of "a mod 4"] by simp
  show "(a mod 4 * 16 + b div 16) mod 16 * 16 + (b mod 16 * 4 + c div 64) div 4 = b"
    using divmod_gen [OF b, of "a mod 4"] divmod_gen [OF c, of "b mod 16"] by simp
  show "(b mod 16 * 4 + c div 64) mod 4 * 64 + c mod 64 = c"
    using divmod_gen [OF c, of "b mod 16"] by simp
  show "(a mod 4 * 16) div 16 = a mod 4"
    by simp
  show "(a mod 4 * 16 + b div 16) mod 16 * 16 + (b mod 16 * 4) div 4 = b"
    using divmod_gen [OF b, of "a mod 4"] by simp
qed

lemma decode_sextets: "b64_decode (sextets bs) = map unat bs"
proof (induction bs rule: sextets.induct)
  case 1
  show ?case by simp
next
  case (2 a)
  show ?case using regroup(4) [of "unat a"] by simp
next
  case (3 a b)
  show ?case
    using regroup(1,5) [OF unat8_bound [of a] unat8_bound [of b] unat8_bound [of b]] by simp
next
  case (4 a b c bs)
  then show ?case
    using regroup(1,2,3) [OF unat8_bound [of a] unat8_bound [of b] unat8_bound [of c]] by simp
qed





lemma unat16_of_nat: "n < 65536 \<Longrightarrow> unat (of_nat n :: 16 word) = n"
  by (simp add: unat_of_nat)

lemma b64_value_char: "n < 64 \<Longrightarrow> b64_value (b64_char n) = Some n"
proof -
  assume n: "n < 64"
  consider "n < 26" | "26 \<le> n" "n < 52" | "52 \<le> n" "n < 62" | "n = 62" | "n = 63"
    using n by linarith
  then show ?thesis
  proof cases
    case 1
    then have "unat (b64_char n) = 65 + n"
      using unat16_of_nat [of "65 + n"] by (simp add: b64_char_def)
    with 1 show ?thesis by (simp add: b64_value_def Let_def; linarith)
  next
    case 2
    then have "unat (b64_char n) = 97 + (n - 26)"
      using unat16_of_nat [of "97 + (n - 26)"] by (simp add: b64_char_def)
    with 2 show ?thesis by (simp add: b64_value_def Let_def; linarith)
  next
    case 3
    then have "unat (b64_char n) = 48 + (n - 52)"
      using unat16_of_nat [of "48 + (n - 52)"] by (simp add: b64_char_def)
    with 3 show ?thesis by (simp add: b64_value_def Let_def; linarith)
  next
    case 4
    then show ?thesis by (simp add: b64_char_def b64_value_def)
  next
    case 5
    then show ?thesis by (simp add: b64_char_def b64_value_def)
  qed
qed

lemma b64_value_pad: "b64_value 0x3D = None"
  by (simp add: b64_value_def)

lemma b64_value_space: "ascii_whitespace c \<Longrightarrow> b64_value c = None"
  by (auto simp: ascii_whitespace_def b64_value_def)

lemma b64_char_props:
  assumes "n < 64"
  shows "b64_char n \<noteq> 0x3D" "\<not> ascii_whitespace (b64_char n)"
  using b64_value_char [OF assms] b64_value_pad b64_value_space [of "b64_char n"] by auto

lemma padding_cases: "padding bs = [] \<or> padding bs = [0x3D] \<or> padding bs = [0x3D, 0x3D]"
  by (induction bs rule: padding.induct) simp_all

lemma length_btoa: "(length (sextets bs) + length (padding bs)) mod 4 = 0"
  by (induction bs rule: sextets.induct) simp_all

lemma length_sextets: "length (sextets bs) mod 4 \<noteq> 1"
  by (induction bs rule: sextets.induct) simp_all

lemma filter_btoa: "filter (\<lambda>c. \<not> ascii_whitespace c) (btoa bs) = btoa bs"
proof -
  have "\<not> ascii_whitespace c" if "c \<in> set (padding bs)" for c
    using that padding_cases [of bs] by (auto simp: ascii_whitespace_def)
  moreover have "\<not> ascii_whitespace c" if "c \<in> set (map b64_char (sextets bs))" for c
    using that sextets_bound [of bs] b64_char_props(2) by auto
  ultimately show ?thesis
    unfolding btoa_sextets by (intro filter_True) auto
qed

lemma strip_padding_btoa: "strip_padding (btoa bs) = map b64_char (sextets bs)"
proof -
  let ?cs = "map b64_char (sextets bs)"
  have l: "?cs \<noteq> [] \<Longrightarrow> last ?cs \<noteq> 0x3D"
    using sextets_bound [of bs] b64_char_props(1) last_in_set [of ?cs] by auto
  have n: "length (?cs @ padding bs) mod 4 = 0"
    using length_btoa [of bs] by simp
  from padding_cases [of bs] consider "padding bs = []" | "padding bs = [0x3D]"
    | "padding bs = [0x3D, 0x3D]" by blast
  then show ?thesis
  proof cases
    case 1
    with l show ?thesis by (auto simp: btoa_sextets strip_padding_def)
  next
    case 2
    with l n show ?thesis by (auto simp: btoa_sextets strip_padding_def)
  next
    case 3
    with l n show ?thesis by (auto simp: btoa_sextets strip_padding_def butlast_append)
  qed
qed

lemma atob_btoa: "atob (btoa bs) = Inr bs"
proof -
  let ?cs = "map b64_char (sextets bs)"
  have v: "map (\<lambda>c. the (b64_value c)) ?cs = sextets bs"
    using sextets_bound [of bs] by (intro nth_equalityI) (auto simp: b64_value_char)
  have ok: "\<not> list_ex (\<lambda>c. b64_value c = None) ?cs"
    using sextets_bound [of bs] by (auto simp: list_ex_iff b64_value_char)
  have len: "length ?cs mod 4 \<noteq> 1"
    using length_sextets [of bs] by simp
  have "map of_nat (map unat bs) = bs"
    by (induction bs) simp_all
  then show ?thesis
    using ok len
    by (simp add: atob_def filter_btoa strip_padding_btoa v decode_sextets del: map_map)
qed

lemma xor_mask_length: "length (xor_mask bs k iv) = length bs"
  by (simp add: xor_mask_def)

lemma xor_mask_involution: "xor_mask (xor_mask bs k iv) k iv = bs"
  by (intro nth_equalityI) (simp_all add: xor_mask_def xor.assoc)



lemma first_bytes_not_bom:
  assumes "is_scalar cp" "cp \<noteq> 0xFEFF"
  shows "take 3 (utf8_bytes cp @ rest) \<noteq> [239, 187, 191]"
proof -
  define u where "u = cp div 64"
  define r where "r = cp mod 64"
  define a where "a = u div 64"
  define m where "m = u mod 64"
  have e1: "u * 64 + r = cp" by (simp add: u_def r_def)
  have e2: "a * 64 + m = u" by (simp add: a_def m_def)
  have r: "r < 64" by (simp add: r_def)
  have m: "m < 64" by (simp add: m_def)
  consider "cp < 0x80" | "0x80 \<le> cp" "cp < 0x800" | "0x800 \<le> cp" "cp < 0x10000"
    | "0x10000 \<le> cp"
    by linarith
  then show ?thesis
  proof cases
    case 1
    then show ?thesis by (simp add: utf8_bytes_def)
  next
    case 2
    then have "u < 32" using e1 r by linarith
    with 2 show ?thesis by (simp add: utf8_bytes_def u_def)
  next
    case 3
    have "\<not> (a = 15 \<and> m = 59 \<and> r = 63)"
      using assms(2) e1 e2 by auto
    with 3 show ?thesis
      by (auto simp: utf8_bytes_def div_4096 u_def [symmetric] a_def [symmetric] m_def [symmetric]
                     r_def [symmetric])
  next
    case 4
    then show ?thesis by (simp add: utf8_bytes_def)
  qed
qed

lemma code_points_head:
  assumes "well_formed (c # s)" "c \<noteq> 0xFEFF"
  shows "\<exists>cp cps. code_points (c # s) = cp # cps \<and> is_scalar cp \<and> cp \<noteq> 0xFEFF"
proof (cases s)
  have u: "unat c \<noteq> 0xFEFF"
    using assms(2) by (simp add: word_unat_eq_iff)
  case Nil
  with assms u show ?thesis
    using scalar_unit(1) [of c] by (auto simp: scalar_def)
next
  case (Cons c' s')
  show ?thesis
  proof (cases "is_high c \<and> is_low c'")
    case True
    then have "is_scalar (0x10000 + (unat c - 0xD800) * 0x400 + (unat c' - 0xDC00))"
      using scalar_pair(1) by blast
    with True Cons show ?thesis by simp
  next
    case False
    have u: "unat c \<noteq> 0xFEFF"
      using assms(2) by (simp add: word_unat_eq_iff)
    from False assms Cons u show ?thesis
      using scalar_unit(1) [of c] by (auto simp: scalar_def)
  qed
qed

lemma no_bom:
  assumes "well_formed s" "s = [] \<or> hd s \<noteq> 0xFEFF"
  shows "take 3 (concat (map utf8_bytes (code_points s))) \<noteq> [239, 187, 191]"
proof (cases s)
  case Nil
  then show ?thesis by simp
next
  case (Cons c s')
  with assms code_points_head [of c s'] obtain cp cps where
    "code_points s = cp # cps" "is_scalar cp" "cp \<noteq> 0xFEFF"
    by auto
  then show ?thesis
    using first_bytes_not_bom [of cp "concat (map utf8_bytes cps)"] by simp
qed

lemma text_roundtrip:
  assumes "well_formed s" "s = [] \<or> hd s \<noteq> 0xFEFF"
  shows "TextDecoder_decode (TextEncoder_encode s) = s"
  using no_bom [OF assms] utf8_roundtrip [OF code_points_scalar [OF assms(1)]]
    code_units_code_points [OF assms(1)]
  by (simp add: TextDecoder_decode_def encode_bytes [OF assms(1)] Let_def)

lemma length_xor_mask: "length (xor_mask bytes keyBytes iv) = length bytes"
  by (simp add: xor_mask_def)

lemma decrypt_encrypt:
  assumes "length key \<ge> 32" and "length iv = 16"
    and "16 + int (length (TextEncoder_encode plaintext)) \<le> maxArguments P"
  shows "\<exists>c. encrypt P plaintext key iv = Inr c
            \<and> decrypt c key = Inr (TextDecoder_decode (TextEncoder_encode plaintext))"
proof -
  let ?k = "TextEncoder_encode (take 32 key)"
  let ?t = "TextEncoder_encode plaintext"
  have k: "\<not> (key = [] \<or> length key < 32)"
    using assms(1) by auto
  have e: "encrypt P plaintext key iv = Inr (btoa (iv @ xor_mask ?t ?k iv))"
    using k assms(2,3) by (simp add: encrypt_def fromCharCode_def length_xor_mask Let_def)
  have d: "decrypt (btoa (iv @ xor_mask ?t ?k iv)) key = Inr (TextDecoder_decode ?t)"
    using k assms(2) by (simp add: decrypt_def atob_btoa Let_def xor_mask_involution)
  from e d show ?thesis by simp
qed


text \<open>
  A plaintext of \<open>n\<close> code units has at most \<open>3 * n\<close> bytes in UTF-8, so the limit of
  the engine is not reached by a plaintext of at most a third of it, less the 16 bytes
  of the initialisation vector; beyond the limit \<open>encrypt\<close> throws.
\<close>

lemma length_utf8_bytes: "length (utf8_bytes cp) \<le> 4"
  by (simp add: utf8_bytes_def)

lemma length_utf8_scalar: "length (utf8_bytes (scalar c)) \<le> 3"
proof -
  have "unat c < 65536"
    using unsigned_less [of c, where ?'a = nat] by simp
  then show ?thesis
    by (simp add: utf8_bytes_def scalar_def)
qed

lemma length_encode_code_points:
  "length (concat (map utf8_bytes (code_points s))) \<le> 3 * length s"
proof (induction s rule: code_points.induct)
  case 1
  show ?case by simp
next
  case (2 c)
  show ?case using length_utf8_scalar [of c] by simp
next
  case (3 c c' s)
  show ?case
  proof (cases "is_high c \<and> is_low c'")
    case True
    then have "code_points (c # c' # s)
        = (0x10000 + (unat c - 0xD800) * 0x400 + (unat c' - 0xDC00)) # code_points s"
      by simp
    with "3.IH"(1) [OF True]
      length_utf8_bytes [of "0x10000 + (unat c - 0xD800) * 0x400 + (unat c' - 0xDC00)"]
    show ?thesis by simp
  next
    case False
    then have "code_points (c # c' # s) = scalar c # code_points (c' # s)"
      by auto
    with "3.IH"(2) [OF False] length_utf8_scalar [of c] show ?thesis by simp
  qed
qed

lemma length_TextEncoder_encode: "length (TextEncoder_encode s) \<le> 3 * length s"
  using length_encode_code_points [of s] by (simp add: TextEncoder_encode_def)

lemma encrypt_beyond_limit:
  assumes "length key \<ge> 32"
    and "maxArguments P < int (length iv) + int (length (TextEncoder_encode plaintext))"
  shows "encrypt P plaintext key iv = Inl RangeError"
proof -
  have "\<not> (key = [] \<or> length key < 32)"
    using assms(1) by auto
  with assms(2) show ?thesis
    by (simp add: encrypt_def fromCharCode_def length_xor_mask Let_def)
qed

text \<open>
  C1, as amended. For every key of at least 32 characters, every 16-byte initialisation
  vector and every plaintext that is well formed (no surrogate outside a pair), does
  not begin with U+FEFF and whose UTF-8 bytes, with the 16 bytes of the vector, are no
  more than the arguments that the engine accepts in one call, \<open>encrypt\<close> returns a
  ciphertext and \<open>decrypt\<close> returns the plaintext from it.
\<close>

theorem cipher_roundtrip:
  assumes "length key \<ge> 32" and "length iv = 16"
    and "well_formed plaintext" and "plaintext = [] \<or> hd plaintext \<noteq> 0xFEFF"
    and "16 + int (length (TextEncoder_encode plaintext)) \<le> maxArguments P"
  shows "\<exists>c. encrypt P plaintext key iv = Inr c \<and> decrypt c key = Inr plaintext"
  using decrypt_encrypt [OF assms(1,2,5)] text_roundtrip [OF assms(3,4)] by simp

theorem cipher_roundtrip_witness:
  "length sample_key \<ge> 32 \<and> length sample_iv = 16
   \<and> well_formed [0x70, 0xE4, 0x20AC, 0xD83D, 0xDE00]
   \<and> hd [0x70, 0xE4, 0x20AC, 0xD83D, 0xDE00] \<noteq> (0xFEFF :: 16 word)
   \<and> length (TextEncoder_encode [0x70, 0xE4, 0x20AC, 0xD83D, 0xDE00]) = 10
   \<and> maxArguments sample_platform = 65535
   \<and> (\<exists>c. encrypt sample_platform [0x70, 0xE4, 0x20AC, 0xD83D, 0xDE00] sample_key sample_iv = Inr c
          \<and> decrypt c sample_key = Inr [0x70, 0xE4, 0x20AC, 0xD83D, 0xDE00])"
proof -
  have l: "length sample_key \<ge> 32" "length sample_iv = 16"
    by (simp_all add: sample_key_def sample_iv_def js_def)
  have w: "well_formed [0x70, 0xE4, 0x20AC, 0xD83D, 0xDE00]"
    by (simp add: is_high_def is_low_def)
  have h: "[0x70, 0xE4, 0x20AC, 0xD83D, 0xDE00] = [] \<or> hd [0x70, 0xE4, 0x20AC, 0xD83D, 0xDE00] \<noteq> (0xFEFF :: 16 word)"
    by simp
  have n: "length (TextEncoder_encode [0x70, 0xE4, 0x20AC, 0xD83D, 0xDE00]) = 10"
    by (simp add: TextEncoder_encode_def scalar_def is_high_def is_low_def utf8_bytes_def)
  have m: "maxArguments sample_platform = 65535"
    by (simp add: sample_platform_def)
  have "16 + int (length (TextEncoder_encode [0x70, 0xE4, 0x20AC, 0xD83D, 0xDE00]))
          \<le> maxArguments sample_platform"
    by (simp add: n m)
  from cipher_roundtrip [OF l w h this] l w n m show ?thesis by simp
qed

text \<open>
  The claim as stated fails on a plaintext with a lone surrogate, which \<open>TextEncoder\<close>
  replaces by U+FFFD, and on a plaintext that begins with U+FEFF, which \<open>TextDecoder\<close>
  drops as a byte order mark.
\<close>

lemmas cipher_eval =
  encrypt_def fromCharCode_def sample_platform_def decrypt_def Let_def sample_key_def sample_iv_def
  js_def xor_mask_def
  TextEncoder_encode_def TextDecoder_decode_def scalar_def is_high_def is_low_def utf8_bytes_def
  code_units_def b64_char_def atob_def strip_padding_def ascii_whitespace_def b64_value_def
  upt_rec [of _ "numeral n" for n] nth_Cons' utf8_decode.simps

theorem cipher_roundtrip_counterexample:
  "length sample_key \<ge> 32
   \<and> encrypt sample_platform [0xD83D] sample_key sample_iv = Inr (js ''AQIDBAUGBwgJCgsMDQ4PEN6MjA=='')
   \<and> decrypt (js ''AQIDBAUGBwgJCgsMDQ4PEN6MjA=='') sample_key = Inr [0xFFFD]
   \<and> encrypt sample_platform [0xFEFF, 0x61] sample_key sample_iv = Inr (js ''AQIDBAUGBwgJCgsMDQ4PEN6IjlY='')
   \<and> decrypt (js ''AQIDBAUGBwgJCgsMDQ4PEN6IjlY='') sample_key = Inr [0x61]"
proof (intro conjI)
  show "length sample_key \<ge> 32"
    by (simp add: sample_key_def js_def)
  show "encrypt sample_platform [0xD83D] sample_key sample_iv = Inr (js ''AQIDBAUGBwgJCgsMDQ4PEN6MjA=='')"
    by (simp add: cipher_eval)
  show "decrypt (js ''AQIDBAUGBwgJCgsMDQ4PEN6MjA=='') sample_key = Inr [0xFFFD]"
    by (simp add: cipher_eval)
  show "encrypt sample_platform [0xFEFF, 0x61] sample_key sample_iv = Inr (js ''AQIDBAUGBwgJCgsMDQ4PEN6IjlY='')"
    by (simp add: cipher_eval)
  show "decrypt (js ''AQIDBAUGBwgJCgsMDQ4PEN6IjlY='') sample_key = Inr [0x61]"
    by (simp add: cipher_eval)
qed

section \<open>Properties of the credential vault\<close>

lemma reveal_success:
  assumes "reveal P t adm sid action d = (d', Inr (username, password))"
  shows "\<exists>admin sub cid cred key.
       requireAdmin P d adm = Inr admin
     \<and> tbl_get (subscriptions d) sid = Some sub
     \<and> tbl_query (credentials d) (\<lambda>c. cred_subscriptionId c = sid) = [(cid, cred)]
     \<and> getEncryptionKey P = Inr key
     \<and> username = cred_username cred
     \<and> decrypt (cred_password cred) key = Inr password
     \<and> auditLogs d' = auditLogs d @
           [(next_id d, \<lparr>al_subscriptionId = sid, al_subscriptionName = sub_name sub,
                          al_action = action, al_performedBy = u_email admin,
                          al_performedAt = t_ms t\<rparr>)]"
proof -
  from assms obtain admin where a: "requireAdmin P d adm = Inr admin"
    by (auto simp: reveal_def split: sum.splits)
  from assms a obtain credential where
    u: "unique (tbl_query (credentials d) (\<lambda>c. cred_subscriptionId c = sid)) = Inr credential"
    by (auto simp: reveal_def split: sum.splits)
  from assms a u obtain sub where s: "tbl_get (subscriptions d) sid = Some sub"
    by (auto simp: reveal_def split: option.splits)
  from assms a u s obtain cid cred where c: "credential = Some (cid, cred)"
    by (auto simp: reveal_def split: option.splits)
  from u c have q: "tbl_query (credentials d) (\<lambda>c. cred_subscriptionId c = sid) = [(cid, cred)]"
    by (cases "tbl_query (credentials d) (\<lambda>c. cred_subscriptionId c = sid)" rule: unique.cases)
       simp_all
  from assms a u s c obtain key where k: "getEncryptionKey P = Inr key"
    by (auto simp: reveal_def Let_def split: sum.splits)
  from assms a u s c k show ?thesis
    using q by (auto simp: reveal_def Let_def split: sum.splits)
qed

lemma reveal_audit_length:
  "run_mutation (reveal P t adm sid action) d = (d', r) \<Longrightarrow>
   length (auditLogs d') = length (auditLogs d) + (if isl r then 0 else 1)"
proof -
  assume m: "run_mutation (reveal P t adm sid action) d = (d', r)"
  obtain d1 x where h: "reveal P t adm sid action d = (d1, x)"
    by (cases "reveal P t adm sid action d")
  show ?thesis
  proof (cases x)
    case (Inl e)
    with m h show ?thesis by (auto simp: run_mutation_def)
  next
    case (Inr y)
    obtain u p where y: "y = (u, p)" by (cases y)
    from reveal_success [OF h [unfolded Inr y]] m h Inr show ?thesis
      by (auto simp: run_mutation_def)
  qed
qed

lemma reveal_all_length:
  "reveal_all P calls d = (d', rs) \<Longrightarrow>
   length rs = length calls
   \<and> length (auditLogs d') = length (auditLogs d) + length (filter (\<lambda>r. \<not> isl r) rs)"
proof (induction calls arbitrary: d d' rs)
  case Nil
  then show ?case by simp
next
  case (Cons call calls)
  obtain t adm sid action where c: "call = (t, adm, sid, action)"
    by (cases call) auto
  obtain d1 r where m: "run_mutation (reveal P t adm sid action) d = (d1, r)"
    by (cases "run_mutation (reveal P t adm sid action) d")
  obtain d2 rs' where l: "reveal_all P calls d1 = (d2, rs')"
    by (cases "reveal_all P calls d1")
  from Cons.prems c m l have e: "d' = d2" "rs = r # rs'"
    by simp_all
  from Cons.IH [OF l] reveal_audit_length [OF m] show ?case
    unfolding e by simp
qed

text \<open>
  C2. A call of \<open>reveal\<close> that returns has found the admin, the subscription and its
  single credential, returns the credential's username and the decrypted password, and
  leaves the audit log extended by exactly one entry, with the action of the call, the
  admin's e-mail as performedBy and the time that the handler read as performedAt. When
  the subscription, or the credential, is missing the call throws the error that says
  so and writes nothing. After any sequence of calls the audit log has grown by the
  number of calls that returned.
\<close>

theorem reveal_audited:
  "(reveal P t adm sid action d = (d1, Inr (username, password)) \<longrightarrow>
      (\<exists>admin sub cid cred key.
          requireAdmin P d adm = Inr admin
        \<and> tbl_get (subscriptions d) sid = Some sub
        \<and> tbl_query (credentials d) (\<lambda>c. cred_subscriptionId c = sid) = [(cid, cred)]
        \<and> getEncryptionKey P = Inr key
        \<and> username = cred_username cred
        \<and> decrypt (cred_password cred) key = Inr password
        \<and> auditLogs d1 = auditLogs d @
              [(next_id d, \<lparr>al_subscriptionId = sid, al_subscriptionName = sub_name sub,
                             al_action = action, al_performedBy = u_email admin,
                             al_performedAt = t_ms t\<rparr>)]))
   \<and> (requireAdmin P d adm = Inr a
        \<and> unique (tbl_query (credentials d) (\<lambda>c. cred_subscriptionId c = sid)) = Inr credential
        \<and> tbl_get (subscriptions d) sid = None \<longrightarrow>
        reveal P t adm sid action d = (d, Inl (Error (js ''Subscription not found''))))
   \<and> (requireAdmin P d adm = Inr a
        \<and> tbl_get (subscriptions d) sid = Some s
        \<and> tbl_query (credentials d) (\<lambda>c. cred_subscriptionId c = sid) = [] \<longrightarrow>
        reveal P t adm sid action d
          = (d, Inl (Error (js ''No credentials found for this subscription''))))
   \<and> (reveal_all P calls d = (dn, rs) \<longrightarrow>
        length rs = length calls
        \<and> length (auditLogs dn) = length (auditLogs d) + length (filter (\<lambda>r. \<not> isl r) rs))"
proof (intro conjI impI)
  assume "reveal P t adm sid action d = (d1, Inr (username, password))"
  then show "\<exists>admin sub cid cred key.
          requireAdmin P d adm = Inr admin
        \<and> tbl_get (subscriptions d) sid = Some sub
        \<and> tbl_query (credentials d) (\<lambda>c. cred_subscriptionId c = sid) = [(cid, cred)]
        \<and> getEncryptionKey P = Inr key
        \<and> username = cred_username cred
        \<and> decrypt (cred_password cred) key = Inr password
        \<and> auditLogs d1 = auditLogs d @
              [(next_id d, \<lparr>al_subscriptionId = sid, al_subscriptionName = sub_name sub,
                             al_action = action, al_performedBy = u_email admin,
                             al_performedAt = t_ms t\<rparr>)]"
    by (rule reveal_success)
next
  assume "requireAdmin P d adm = Inr a
        \<and> unique (tbl_query (credentials d) (\<lambda>c. cred_subscriptionId c = sid)) = Inr credential
        \<and> tbl_get (subscriptions d) sid = None"
  then show "reveal P t adm sid action d = (d, Inl (Error (js ''Subscription not found'')))"
    by (simp add: reveal_def)
next
  assume "requireAdmin P d adm = Inr a
        \<and> tbl_get (subscriptions d) sid = Some s
        \<and> tbl_query (credentials d) (\<lambda>c. cred_subscriptionId c = sid) = []"
  then show "reveal P t adm sid action d
          = (d, Inl (Error (js ''No credentials found for this subscription'')))"
    by (simp add: reveal_def)
next
  assume "reveal_all P calls d = (dn, rs)"
  then show "length rs = length calls"
    using reveal_all_length by blast
next
  assume "reveal_all P calls d = (dn, rs)"
  then show "length (auditLogs dn) = length (auditLogs d) + length (filter (\<lambda>r. \<not> isl r) rs)"
    using reveal_all_length by blast
qed


lemmas sample_eval =
  sample_vault_def sample_approved_def sample_pending_def sample_db_def empty_db_def
  sample_request_def sample_platform_def sample_clock_def ascii_lower_def
  requireAdmin_def getEncryptionKey_def tbl_query_def tbl_get_def

lemma decrypt_sample: "decrypt (js ''AQIDBAUGBwgJCgsMDQ4PEFlGX0NUQQM='') sample_key = Inr (js ''hunter2'')"
  by (simp add: cipher_eval)

lemma reveal_sample:
  "reveal sample_platform sample_clock (js ''admin@company.com'') 8 (js ''viewed'') sample_vault
     = (sample_vault\<lparr>auditLogs := [(10, \<lparr>al_subscriptionId = 8, al_subscriptionName = js ''Datadog'',
                                             al_action = js ''viewed'',
                                             al_performedBy = js ''admin@company.com'',
                                             al_performedAt = 1768471200000\<rparr>)],
                      next_id := 11\<rparr>,
        Inr (js ''ops@company.com'', js ''hunter2''))"
  using decrypt_sample
  by (simp add: reveal_def sample_eval Let_def sample_key_def js_def)


theorem reveal_audited_witness:
  "reveal sample_platform sample_clock (js ''admin@company.com'') 8 (js ''viewed'') sample_vault
     = (sample_vault\<lparr>auditLogs := [(10, \<lparr>al_subscriptionId = 8, al_subscriptionName = js ''Datadog'',
                                             al_action = js ''viewed'',
                                             al_performedBy = js ''admin@company.com'',
                                             al_performedAt = 1768471200000\<rparr>)],
                      next_id := 11\<rparr>,
        Inr (js ''ops@company.com'', js ''hunter2''))
   \<and> (\<exists>key cid cred. getEncryptionKey sample_platform = Inr key
          \<and> tbl_query (credentials sample_vault) (\<lambda>c. cred_subscriptionId c = 8) = [(cid, cred)]
          \<and> decrypt (cred_password cred) key = Inr (js ''hunter2''))
   \<and> tbl_get (subscriptions sample_vault) 99 = None
   \<and> reveal sample_platform sample_clock (js ''admin@company.com'') 99 (js ''viewed'') sample_vault
     = (sample_vault, Inl (Error (js ''Subscription not found'')))
   \<and> tbl_query (credentials sample_approved) (\<lambda>c. cred_subscriptionId c = 8) = []
   \<and> reveal sample_platform sample_clock (js ''admin@company.com'') 8 (js ''viewed'') sample_approved
     = (sample_approved, Inl (Error (js ''No credentials found for this subscription'')))
   \<and> length (snd (reveal_all sample_platform sample_reveals sample_vault)) = 3
   \<and> length (auditLogs (fst (reveal_all sample_platform sample_reveals sample_vault)))
     = length (filter (\<lambda>r. \<not> isl r) (snd (reveal_all sample_platform sample_reveals sample_vault)))"
proof -
  let ?adm = "js ''admin@company.com''"
  let ?a = "\<lparr>u_email = js ''admin@company.com'', u_name = js ''Admin'', u_passwordHash = js ''x'',
             u_role = js ''admin''\<rparr>"
  let ?all = "reveal_all sample_platform sample_reveals sample_vault"
  let ?sub = "the (tbl_get (subscriptions sample_approved) 8)"
  note th = reveal_audited
         [of sample_platform sample_clock ?adm _ "js ''viewed''" _ _ _ _ ?a _ _ sample_reveals]
  have a1: "requireAdmin sample_platform sample_vault ?adm = Inr ?a"
    by (simp add: sample_eval js_def)
  have a2: "requireAdmin sample_platform sample_approved ?adm = Inr ?a"
    by (simp add: sample_eval js_def)
  have u: "unique (tbl_query (credentials sample_vault) (\<lambda>c. cred_subscriptionId c = 99)) = Inr None"
    by (simp add: sample_eval)
  have n: "tbl_get (subscriptions sample_vault) 99 = None"
    by (simp add: sample_eval)
  have s: "tbl_get (subscriptions sample_approved) 8 = Some ?sub"
    by (simp add: sample_eval)
  have q: "tbl_query (credentials sample_approved) (\<lambda>c. cred_subscriptionId c = 8) = []"
    by (simp add: sample_eval)
  have l: "length (auditLogs sample_vault) = 0"
    by (simp add: sample_eval)
  from th [of 99 sample_vault undefined undefined undefined None undefined "fst ?all" "snd ?all"] a1 u n
  have one: "reveal sample_platform sample_clock ?adm 99 (js ''viewed'') sample_vault
     = (sample_vault, Inl (Error (js ''Subscription not found'')))"
    and three: "length (snd ?all) = length sample_reveals
      \<and> length (auditLogs (fst ?all))
          = length (auditLogs sample_vault) + length (filter (\<lambda>r. \<not> isl r) (snd ?all))"
    by simp_all
  from th [of 8 sample_approved undefined undefined undefined undefined ?sub undefined undefined] a2 s q
  have two: "reveal sample_platform sample_clock ?adm 8 (js ''viewed'') sample_approved
     = (sample_approved, Inl (Error (js ''No credentials found for this subscription'')))"
    by simp
  from reveal_audited
         [of sample_platform sample_clock ?adm 8 "js ''viewed''" sample_vault _
             "js ''ops@company.com''" "js ''hunter2''"] reveal_sample
  have zero: "\<exists>key cid cred. getEncryptionKey sample_platform = Inr key
          \<and> tbl_query (credentials sample_vault) (\<lambda>c. cred_subscriptionId c = 8) = [(cid, cred)]
          \<and> decrypt (cred_password cred) key = Inr (js ''hunter2'')"
    by blast
  from zero one two three n q l reveal_sample show ?thesis
    by (simp add: sample_reveals_def)
qed

section \<open>Properties of the audit log\<close>

lemma submit_write_audit:
  "submit_write t f r k c cost cu bc d = (d', x) \<Longrightarrow> auditLogs d' = auditLogs d"
proof -
  assume a: "submit_write t f r k c cost cu bc d = (d', x)"
  obtain d1 y where g: "generateReferenceNumber (t_year t) request d = (d1, y)"
    by (cases "generateReferenceNumber (t_year t) request d")
  note fr = generateReferenceNumber_frame [OF g]
  from a g fr show ?thesis
    by (cases y)
       (auto simp: submit_write_def Let_def updateRateLimit_frame split: option.splits if_splits)
qed

lemma submit_audit: "submit P t a d = (d', x) \<Longrightarrow> auditLogs d' = auditLogs d"
  by (auto simp: submit_def Let_def split: sum.splits dest: submit_write_audit)

lemma submit_optional_audit: "submit_optional P t a d = (d', x) \<Longrightarrow> auditLogs d' = auditLogs d"
  by (auto simp: submit_optional_def Let_def split: sum.splits dest: submit_write_audit)

lemma approve_audit: "approve P t adm i nts d = (d', x) \<Longrightarrow> auditLogs d' = auditLogs d"
proof -
  assume a: "approve P t adm i nts d = (d', x)"
  obtain d1 y where g: "generateReferenceNumber (t_year t) subscription d = (d1, y)"
    by (cases "generateReferenceNumber (t_year t) subscription d")
  note fr = generateReferenceNumber_frame [OF g]
  from a g fr show ?thesis
    by (cases y)
       (auto simp: approve_def Let_def insert_subscription_def split: sum.splits option.splits if_splits)
qed

lemma reject_audit: "reject P t adm i nts d = (d', x) \<Longrightarrow> auditLogs d' = auditLogs d"
  by (auto simp: reject_def Let_def split: sum.splits option.splits if_splits)

lemma run_request_op_audit: "auditLogs (run_request_op P d op) = auditLogs d"
proof (cases op)
  case (Submit t a)
  then show ?thesis
    using submit_audit [of P t a d]
    by (cases "submit P t a d") (auto simp: run_mutation_def split: sum.splits)
next
  case (SubmitOptional t a)
  then show ?thesis
    using submit_optional_audit [of P t a d]
    by (cases "submit_optional P t a d") (auto simp: run_mutation_def split: sum.splits)
next
  case (Approve t adm i nts)
  then show ?thesis
    using approve_audit [of P t adm i nts d]
    by (cases "approve P t adm i nts d") (auto simp: run_mutation_def split: sum.splits)
next
  case (Reject t adm i nts)
  then show ?thesis
    using reject_audit [of P t adm i nts d]
    by (cases "reject P t adm i nts d") (auto simp: run_mutation_def split: sum.splits)
qed

lemma create_audit: "create P t adm a d = (d', x) \<Longrightarrow> auditLogs d' = auditLogs d"
proof -
  assume a: "create P t adm a d = (d', x)"
  obtain d1 y where g: "generateReferenceNumber (t_year t) subscription d = (d1, y)"
    by (cases "generateReferenceNumber (t_year t) subscription d")
  note fr = generateReferenceNumber_frame [OF g]
  from a g fr show ?thesis
    by (cases y)
       (auto simp: create_def insert_subscription_def split: sum.splits option.splits if_splits)
qed

lemma update_audit: "update P adm i a d = (d', x) \<Longrightarrow> auditLogs d' = auditLogs d"
  by (auto simp: update_def split: sum.splits option.splits if_splits)

lemma bulk_row_audit: "bulk_row P t vc vcu i sub d = (d', r) \<Longrightarrow> auditLogs d' = auditLogs d"
proof -
  assume a: "bulk_row P t vc vcu i sub d = (d', r)"
  obtain d1 y where g: "generateReferenceNumber (t_year t) subscription d = (d1, y)"
    by (cases "generateReferenceNumber (t_year t) subscription d")
  note fr = generateReferenceNumber_frame [OF g]
  from a g fr show ?thesis
    by (cases y) (auto simp: bulk_row_def insert_subscription_def split: sum.splits)
qed

lemma bulk_loop_audit: "bulk_loop P t vc vcu i subs d = (d', rs) \<Longrightarrow> auditLogs d' = auditLogs d"
proof (induction subs arbitrary: i d d' rs)
  case Nil
  then show ?case by simp
next
  case (Cons sub subs)
  obtain d1 r where r: "bulk_row P t vc vcu i sub d = (d1, r)"
    by (cases "bulk_row P t vc vcu i sub d")
  obtain d2 rs' where l: "bulk_loop P t vc vcu (i + 1) subs d1 = (d2, rs')"
    by (cases "bulk_loop P t vc vcu (i + 1) subs d1")
  from Cons.prems r l have "d' = d2" by simp
  with Cons.IH [OF l] bulk_row_audit [OF r] show ?case by simp
qed

lemma bulkCreate_audit: "bulkCreate P t adm subs d = (d', x) \<Longrightarrow> auditLogs d' = auditLogs d"
  by (auto simp: bulkCreate_def Let_def split: sum.splits if_splits prod.splits dest: bulk_loop_audit)

lemma remove_request_audit: "remove_request P adm i d = (d', x) \<Longrightarrow> auditLogs d' = auditLogs d"
  by (auto simp: remove_request_def split: sum.splits if_splits)

lemma credential_create_audit:
  "credential_create P adm i u p n iv d = (d', x) \<Longrightarrow> auditLogs d' = auditLogs d"
  by (auto simp: credential_create_def split: sum.splits if_splits prod.splits)

lemma credential_remove_audit:
  "credential_remove P adm i d = (d', x) \<Longrightarrow> auditLogs d' = auditLogs d"
  by (auto simp: credential_remove_def split: sum.splits if_splits)

lemma credential_update_audit:
  "credential_update P t adm i u p n iv d = (d', Inr x) \<Longrightarrow> \<exists>e. auditLogs d' = auditLogs d @ [e]"
  by (auto simp: credential_update_def Let_def split: sum.splits if_splits prod.splits option.splits)

lemma reveal_audit:
  "reveal P t adm i action d = (d', Inr x) \<Longrightarrow> \<exists>e. auditLogs d' = auditLogs d @ [e]"
  using reveal_success [of P t adm i action d d' "fst x" "snd x"] by auto

lemma delete_all_filter: "delete_all tb ids = filter (\<lambda>(j, r). j \<notin> set ids) tb"
  unfolding delete_all_def
proof (induction ids arbitrary: tb)
  case Nil
  show ?case by simp
next
  case (Cons i ids)
  have "foldl tbl_delete tb (i # ids) = filter (\<lambda>(j, r). j \<notin> set ids) (tbl_delete tb i)"
    by (simp only: foldl_Cons Cons.IH)
  also have "\<dots> = filter (\<lambda>(j, r). j \<notin> set (i # ids)) tb"
    by (simp add: tbl_delete_def case_prod_unfold conj_commute cong: filter_cong)
  finally show ?case .
qed

text \<open>What each mutation does to the audit log.\<close>

lemma run_audit_appends:
  assumes "\<And>adm i. m \<noteq> Remove adm i" and "m \<noteq> ClearDatabase"
  shows "\<exists>xs. auditLogs (run P d m) = auditLogs d @ xs \<and> length xs \<le> 1"
proof (cases m)
  case (RequestOp op)
  then show ?thesis by (simp add: run_request_op_audit)
next
  case (RemoveRequest adm i)
  then show ?thesis
    using remove_request_audit [of P adm i d]
    by (cases "remove_request P adm i d") (auto simp: run_mutation_def split: sum.splits)
next
  case (Create t adm a)
  then show ?thesis
    using create_audit [of P t adm a d]
    by (cases "create P t adm a d") (auto simp: run_mutation_def split: sum.splits)
next
  case (Update adm i a)
  then show ?thesis
    using update_audit [of P adm i a d]
    by (cases "update P adm i a d") (auto simp: run_mutation_def split: sum.splits)
next
  case (BulkCreate t adm subs)
  then show ?thesis
    using bulkCreate_audit [of P t adm subs d]
    by (cases "bulkCreate P t adm subs d") (auto simp: run_mutation_def split: sum.splits)
next
  case (Remove adm i)
  with assms(1) [of adm i] show ?thesis by simp
next
  case (Reveal t adm i action)
  then show ?thesis
    using reveal_audit [of P t adm i action d]
    by (cases "reveal P t adm i action d") (auto simp: run_mutation_def split: sum.splits)
next
  case (CredentialCreate adm i u p n iv)
  then show ?thesis
    using credential_create_audit [of P adm i u p n iv d]
    by (cases "credential_create P adm i u p n iv d") (auto simp: run_mutation_def split: sum.splits)
next
  case (CredentialUpdate t adm i u p n iv)
  then show ?thesis
    using credential_update_audit [of P t adm i u p n iv d]
    by (cases "credential_update P t adm i u p n iv d") (auto simp: run_mutation_def split: sum.splits)
next
  case (CredentialRemove adm i)
  then show ?thesis
    using credential_remove_audit [of P adm i d]
    by (cases "credential_remove P adm i d") (auto simp: run_mutation_def split: sum.splits)
next
  case ClearDatabase
  with assms(2) show ?thesis by simp
qed

lemma delete_matching:
  assumes "distinct (map fst tb)"
  shows "delete_all tb (map fst (tbl_query tb p)) = filter (\<lambda>(j, r). \<not> p r) tb"
proof -
  have "(j \<notin> set (map fst (tbl_query tb p))) = (\<not> p r)" if "(j, r) \<in> set tb" for j r
  proof
    assume "j \<notin> set (map fst (tbl_query tb p))"
    with that show "\<not> p r" by (force simp: tbl_query_def)
  next
    assume n: "\<not> p r"
    show "j \<notin> set (map fst (tbl_query tb p))"
    proof
      assume "j \<in> set (map fst (tbl_query tb p))"
      then obtain r' where r': "(j, r') \<in> set tb" "p r'" by (auto simp: tbl_query_def)
      from assms that r'(1) have "r = r'" by (rule eq_key_imp_eq_value)
      with r'(2) n show False by simp
    qed
  qed
  then show ?thesis
    unfolding delete_all_filter by (intro filter_cong) auto
qed

lemma remove_audit:
  assumes "distinct (map fst (auditLogs d))"
  shows "auditLogs (fst (run_mutation (remove P adm i) d)) =
         (if isl (snd (remove P adm i d)) then auditLogs d
          else filter (\<lambda>(j, l). al_subscriptionId l \<noteq> i) (auditLogs d))"
  by (simp add: remove_def Let_def run_mutation_def delete_matching [OF assms]
           split: sum.splits option.splits)


lemma clear_empty: "clear tb = []"
  by (simp add: clear_def delete_all_filter filter_empty_conv case_prod_unfold)

lemma clearDatabase_audit: "auditLogs (fst (run_mutation clearDatabase d)) = []"
  by (simp add: run_mutation_def clearDatabase_def clear_empty)

text \<open>
  C8, as amended. Of the mutations of requests, subscriptions and credentials and the
  clearing of the database, every one other than \<open>subscriptions.remove\<close> and
  \<open>seed.clearDatabase\<close> leaves the audit log as it was or with one entry added at its
  end, every earlier entry unchanged. \<open>subscriptions.remove\<close>, when it returns, deletes
  the audit entries of the removed subscription and keeps the others, in their order
  (document ids being distinct); when it throws the log is as before.
  \<open>seed.clearDatabase\<close> deletes every audit entry.
\<close>

theorem audit_log_append_only_except_removal:
  "((\<forall>adm i. m \<noteq> Remove adm i) \<and> m \<noteq> ClearDatabase \<longrightarrow>
      (\<exists>xs. auditLogs (run P d m) = auditLogs d @ xs \<and> length xs \<le> 1))
   \<and> (distinct (map fst (auditLogs d)) \<longrightarrow>
        auditLogs (run P d (Remove adminEmail i)) =
          (if isl (snd (remove P adminEmail i d)) then auditLogs d
           else filter (\<lambda>(j, l). al_subscriptionId l \<noteq> i) (auditLogs d)))
   \<and> auditLogs (run P d ClearDatabase) = []"
  using run_audit_appends [of m P d] remove_audit [of d P adminEmail i] clearDatabase_audit [of d]
  by simp

lemma remove_sample:
  "remove sample_platform (js ''admin@company.com'') 8 sample_audited
     = (sample_audited\<lparr>credentials := [], auditLogs := [], subscriptions := []\<rparr>, Inr ())"
  by (simp add: remove_def sample_audited_def sample_eval Let_def delete_all_def tbl_delete_def js_def)

theorem audit_log_append_only_except_removal_witness:
  "(\<exists>xs. auditLogs (run sample_platform sample_vault
                       (Reveal sample_clock (js ''admin@company.com'') 8 (js ''viewed'')))
            = auditLogs sample_vault @ xs \<and> length xs \<le> 1)
   \<and> auditLogs (run sample_platform sample_vault
                   (Reveal sample_clock (js ''admin@company.com'') 8 (js ''viewed'')))
       = auditLogs sample_audited
   \<and> length (auditLogs sample_audited) = 1
   \<and> distinct (map fst (auditLogs sample_audited))
   \<and> \<not> isl (snd (remove sample_platform (js ''admin@company.com'') 8 sample_audited))
   \<and> auditLogs (run sample_platform sample_audited (Remove (js ''admin@company.com'') 8))
       = filter (\<lambda>(j, l). al_subscriptionId l \<noteq> 8) (auditLogs sample_audited)
   \<and> auditLogs (run sample_platform sample_audited ClearDatabase) = []"
proof -
  let ?adm = "js ''admin@company.com''"
  let ?m = "Reveal sample_clock ?adm 8 (js ''viewed'')"
  have m: "(\<forall>adm i. ?m \<noteq> Remove adm i) \<and> ?m \<noteq> ClearDatabase"
    by simp
  have r: "auditLogs (run sample_platform sample_vault ?m) = auditLogs sample_audited"
    by (simp add: run_mutation_def reveal_sample sample_audited_def)
  have l: "length (auditLogs sample_audited) = 1"
    by (simp add: sample_audited_def)
  have d: "distinct (map fst (auditLogs sample_audited))"
    by (simp add: sample_audited_def)
  have n: "\<not> isl (snd (remove sample_platform ?adm 8 sample_audited))"
    by (simp add: remove_sample)
  from audit_log_append_only_except_removal [of ?m sample_platform sample_vault ?adm 8] m
  have one: "\<exists>xs. auditLogs (run sample_platform sample_vault ?m) = auditLogs sample_vault @ xs
               \<and> length xs \<le> 1"
    by blast
  from audit_log_append_only_except_removal [of ?m sample_platform sample_audited ?adm 8] d n
  have two: "auditLogs (run sample_platform sample_audited (Remove ?adm 8))
               = filter (\<lambda>(j, l). al_subscriptionId l \<noteq> 8) (auditLogs sample_audited)
             \<and> auditLogs (run sample_platform sample_audited ClearDatabase) = []"
    by simp
  from one r l d n two show ?thesis by blast
qed

text \<open>
  The claim as stated fails: removing a subscription deletes the audit entries of that
  subscription.
\<close>

theorem audit_log_append_only_counterexample:
  "length (auditLogs sample_audited) = 1
   \<and> snd (run_mutation (remove sample_platform (js ''admin@company.com'') 8) sample_audited) = Inr ()
   \<and> auditLogs (run sample_platform sample_audited (Remove (js ''admin@company.com'') 8)) = []"
  by (simp add: run_mutation_def remove_sample) (simp add: sample_audited_def)

end
